(* ===== verification/Orch_Float.thy ===== *)
theory Orch_Float
  imports Complex_Main
begin

text \<open>
  Go's \<open>float64\<close>, as far as the scheduler uses it: the not-a-number, the two infinities
  and the finite values. A finite value is a \<open>real\<close>, and what IEEE 754 rounds is
  rounded by a parameter, \<open>rnd\<close>; \<open>pow_LIEB\<close> is \<open>math.Pow\<close> at the scheduler's base.
  The sign of zero is not modelled: no comparison and no quotient of the program
  depends on it. The comparisons are false when an operand is not a number, as in Go.
\<close>

datatype f64 = NaN | PInf | NInf | Fin real

record fenv =
  rnd :: "real \<Rightarrow> f64"
  pow_LIEB :: "real \<Rightarrow> f64"

fun flt :: "f64 \<Rightarrow> f64 \<Rightarrow> bool" where
  "flt NaN _ = False"
| "flt _ NaN = False"
| "flt (Fin x) (Fin y) = (x < y)"
| "flt NInf b = (b \<noteq> NInf)"
| "flt PInf b = False"
| "flt (Fin x) b = (b = PInf)"

definition fle :: "f64 \<Rightarrow> f64 \<Rightarrow> bool" where
  "fle a b \<longleftrightarrow> flt a b \<or> (a = b \<and> a \<noteq> NaN)"

fun fadd :: "fenv \<Rightarrow> f64 \<Rightarrow> f64 \<Rightarrow> f64" where
  "fadd F NaN _ = NaN"
| "fadd F _ NaN = NaN"
| "fadd F (Fin x) (Fin y) = rnd F (x + y)"
| "fadd F PInf NInf = NaN"
| "fadd F NInf PInf = NaN"
| "fadd F PInf _ = PInf"
| "fadd F _ PInf = PInf"
| "fadd F NInf _ = NInf"
| "fadd F _ NInf = NInf"

fun fneg :: "f64 \<Rightarrow> f64" where
  "fneg NaN = NaN"
| "fneg PInf = NInf"
| "fneg NInf = PInf"
| "fneg (Fin x) = Fin (- x)"

definition fsub :: "fenv \<Rightarrow> f64 \<Rightarrow> f64 \<Rightarrow> f64" where
  "fsub F a b = fadd F a (fneg b)"

fun fdiv :: "fenv \<Rightarrow> f64 \<Rightarrow> f64 \<Rightarrow> f64" where
  "fdiv F NaN _ = NaN"
| "fdiv F _ NaN = NaN"
| "fdiv F (Fin x) (Fin y) =
     (if y = 0 then (if x = 0 then NaN else if 0 < x then PInf else NInf) else rnd F (x / y))"
| "fdiv F (Fin x) _ = Fin 0"
| "fdiv F PInf (Fin y) = (if 0 \<le> y then PInf else NInf)"
| "fdiv F NInf (Fin y) = (if 0 \<le> y then NInf else PInf)"
| "fdiv F _ _ = NaN"

fun fpow_LIEB :: "fenv \<Rightarrow> f64 \<Rightarrow> f64" where
  "fpow_LIEB F NaN = NaN"
| "fpow_LIEB F PInf = PInf"
| "fpow_LIEB F NInf = Fin 0"
| "fpow_LIEB F (Fin x) = pow_LIEB F x"

definition f64_of_int :: "fenv \<Rightarrow> int \<Rightarrow> f64" where
  "f64_of_int F n = rnd F (real_of_int n)"

text \<open>
  What is used of the rounding: it is monotone and gives a number, and so is the power.
\<close>

definition monotone_rounding :: "fenv \<Rightarrow> bool" where
  "monotone_rounding F \<longleftrightarrow>
     (\<forall>x y. x \<le> y \<longrightarrow> fle (rnd F x) (rnd F y)) \<and>
     (\<forall>x y. x \<le> y \<longrightarrow> fle (pow_LIEB F x) (pow_LIEB F y)) \<and>
     (\<forall>x. fle (Fin 0) (pow_LIEB F x))"

section \<open>Order\<close>

lemma flt_irrefl [simp]: "\<not> flt a a"
  by (cases a) simp_all

lemma flt_NaN [simp]: "\<not> flt NaN b" "\<not> flt a NaN"
  by (cases b, simp_all) (cases a, simp_all)

lemma flt_trans: "flt a b \<Longrightarrow> flt b c \<Longrightarrow> flt a c"
  by (cases a; cases b; cases c) auto

lemma flt_linear: "a \<noteq> NaN \<Longrightarrow> b \<noteq> NaN \<Longrightarrow> flt a b \<or> a = b \<or> flt b a"
  by (cases a; cases b) auto

lemma fle_refl [simp]: "fle a a \<longleftrightarrow> a \<noteq> NaN"
  by (simp add: fle_def)

lemma fle_trans: "fle a b \<Longrightarrow> fle b c \<Longrightarrow> fle a c"
  by (auto simp: fle_def dest: flt_trans)

lemma not_flt_fle: "a \<noteq> NaN \<Longrightarrow> b \<noteq> NaN \<Longrightarrow> \<not> flt a b \<longleftrightarrow> fle b a"
  using flt_linear [of a b] flt_trans [of a b a] by (auto simp: fle_def)

lemma fle_Fin [simp]: "fle (Fin x) (Fin y) \<longleftrightarrow> x \<le> y"
  by (auto simp: fle_def)

lemma fle_infinite [simp]:
  "fle a PInf \<longleftrightarrow> a \<noteq> NaN" "fle NInf a \<longleftrightarrow> a \<noteq> NaN" "\<not> fle PInf (Fin x)" "\<not> fle (Fin x) NInf"
  "\<not> fle PInf NInf" "\<not> fle NaN a" "\<not> fle a NaN"
  by (cases a; simp add: fle_def)+

lemma fle_not_NaN: "fle a b \<Longrightarrow> a \<noteq> NaN \<and> b \<noteq> NaN"
  by (auto simp: fle_def)

lemma monotone_rounding_rnd:
  "monotone_rounding F \<Longrightarrow> x \<le> y \<Longrightarrow> fle (rnd F x) (rnd F y)"
  by (simp add: monotone_rounding_def)

lemma monotone_rounding_pow:
  "monotone_rounding F \<Longrightarrow> fle a b \<Longrightarrow> fle (fpow_LIEB F a) (fpow_LIEB F b)"
proof -
  assume F: "monotone_rounding F" and ab: "fle a b"
  have p: "x \<le> y \<Longrightarrow> fle (pow_LIEB F x) (pow_LIEB F y)" "fle (Fin 0) (pow_LIEB F x)" for x y
    using F by (simp_all add: monotone_rounding_def)
  from p(2) have nn: "pow_LIEB F x \<noteq> NaN" for x using fle_not_NaN by blast
  show ?thesis
    using ab p nn by (cases a; cases b) auto
qed

lemma fadd_mono_right:
  assumes "monotone_rounding F" and "fle a b" and "fadd F c a \<noteq> NaN" and "fadd F c b \<noteq> NaN"
  shows "fle (fadd F c a) (fadd F c b)"
proof -
  have r: "x \<le> y \<Longrightarrow> fle (rnd F x) (rnd F y)" for x y
    using assms(1) by (rule monotone_rounding_rnd)
  show ?thesis
    using assms(2-4) r by (cases a; cases b; cases c) auto
qed

lemma fadd_commute: "fadd F a b = fadd F b a"
  by (cases a; cases b) (simp_all add: add.commute)

section \<open>Exact arithmetic\<close>

text \<open>The idealised instance: nothing is rounded, and the power is the real power.\<close>

definition exact :: "real \<Rightarrow> fenv" where
  "exact base = \<lparr>rnd = Fin, pow_LIEB = (\<lambda>x. Fin (base powr x))\<rparr>"

lemma exact_simps [simp]:
  "rnd (exact b) x = Fin x" "pow_LIEB (exact b) x = Fin (b powr x)"
  by (simp_all add: exact_def)

lemma exact_monotone: "1 \<le> b \<Longrightarrow> monotone_rounding (exact b)"
  by (simp add: monotone_rounding_def powr_mono)

end
