(* ===== verification/Orch_Prelude.thy ===== *)
theory Orch_Prelude
  imports Main "HOL-Library.Word" "HOL-Library.Multiset"
begin

text \<open>
  The shared base of the development: the named collections the component theories
  fill and use, Go's 64-bit signed arithmetic written out on \<open>int\<close>, the three
  helpers of Go's package \<open>slices\<close> the program calls, and the run-time panics.

  A Go \<open>int\<close> is 64 bits wide on the platforms the program is built for. It is
  modelled as an \<open>int\<close>; where the program does arithmetic on it the result goes
  through \<open>wrap64\<close>, which is two's complement wrap-around.
\<close>

named_theorems state_defs \<open>the integer values of the task states\<close>
named_theorems queue_laws \<open>what a queue does to its contents\<close>
named_theorems worker_defs \<open>the state helpers of the worker\<close>
named_theorems manager_defs \<open>the state helpers of the manager\<close>
named_theorems routing \<open>preservation of the manager's routing invariant\<close>
named_theorems keyed \<open>preservation of the keys of a task store\<close>

section \<open>Signed 64-bit integers\<close>

definition wrap64 :: "int \<Rightarrow> int" where
  "wrap64 x = signed_take_bit 63 x"

definition in64 :: "int \<Rightarrow> bool" where
  "in64 x \<longleftrightarrow> - (2 ^ 63) \<le> x \<and> x < 2 ^ 63"

text \<open>Go's \<open>%\<close> truncates: the remainder has the sign of the dividend.\<close>

definition go_rem :: "int \<Rightarrow> int \<Rightarrow> int" where
  "go_rem a b = sgn a * (\<bar>a\<bar> mod \<bar>b\<bar>)"

lemma in64_wrap64 [simp]: "in64 (wrap64 x)"
  by (simp add: in64_def wrap64_def signed_take_bit_int_greater_eq_minus_exp
      signed_take_bit_int_less_exp del: power_numeral)

lemma wrap64_in64: "in64 x \<Longrightarrow> wrap64 x = x"
  by (simp add: in64_def wrap64_def signed_take_bit_int_eq_self_iff del: power_numeral)

lemma wrap64_small [simp]:
  assumes "- (2 ^ 62) \<le> x" and "x < 2 ^ 62"
  shows "wrap64 x = x"
  using assms by (simp add: wrap64_in64 in64_def)

lemma go_rem_nonneg: "0 \<le> a \<Longrightarrow> 0 < b \<Longrightarrow> go_rem a b = a mod b"
  by (cases "a = 0") (simp_all add: go_rem_def)

lemma go_rem_neg: "a < 0 \<Longrightarrow> 0 < b \<Longrightarrow> go_rem a b = - ((- a) mod b)"
  by (simp add: go_rem_def)

section \<open>Run-time panics\<close>

text \<open>
  A panic that nothing recovers ends the process. A function that can panic returns
  \<open>panic + 'a\<close>, \<open>Inl\<close> being the panic.
\<close>

datatype panic = IndexOutOfRange | NilDereference | DivideByZero

section \<open>Package slices\<close>

fun slices_Index :: "'a list \<Rightarrow> 'a \<Rightarrow> int" where
  "slices_Index [] x = -1"
| "slices_Index (y # ys) x =
     (if y = x then 0
      else let i = slices_Index ys x in if i < 0 then -1 else i + 1)"

definition slices_Delete :: "'a list \<Rightarrow> nat \<Rightarrow> nat \<Rightarrow> 'a list" where
  "slices_Delete xs i j = take i xs @ drop j xs"

definition slices_Contains :: "'a list \<Rightarrow> 'a \<Rightarrow> bool" where
  "slices_Contains xs x \<longleftrightarrow> List.member xs x"

lemma slices_Contains_set [simp]: "slices_Contains xs x \<longleftrightarrow> x \<in> set xs"
  by (simp add: slices_Contains_def)

lemma slices_Index_lower: "-1 \<le> slices_Index xs x"
  by (induction xs) (auto simp: Let_def)

lemma slices_Index_absent: "slices_Index xs x < 0 \<longleftrightarrow> x \<notin> set xs"
  by (induction xs) (auto simp: Let_def)

text \<open>Deleting at the index that \<open>slices.Index\<close> found removes the first occurrence.\<close>

definition remove_first :: "'a \<Rightarrow> 'a list \<Rightarrow> 'a list" where
  "remove_first x xs =
     (let idx = slices_Index xs x
      in if 0 \<le> idx then slices_Delete xs (nat idx) (nat (idx + 1)) else xs)"

lemma remove_first_remove1 [simp]: "remove_first x xs = remove1 x xs"
proof (induction xs)
  case Nil
  then show ?case by (simp add: remove_first_def)
next
  case (Cons y ys)
  show ?case
  proof (cases "y = x \<or> x \<notin> set ys")
    case True
    then show ?thesis
      using slices_Index_absent [of ys x]
      by (auto simp: remove_first_def slices_Delete_def Let_def remove1_idem)
  next
    case False
    then have "0 \<le> slices_Index ys x"
      using slices_Index_absent [of ys x] by simp
    with False Cons show ?thesis
      by (auto simp: remove_first_def slices_Delete_def Let_def nat_add_distrib)
  qed
qed

section \<open>Decimal numerals\<close>

text \<open>\<open>%d\<close> of package \<open>fmt\<close>.\<close>

fun nat_digits :: "nat \<Rightarrow> string" where
  "nat_digits n =
     (if n < 10 then [char_of (48 + n)] else nat_digits (n div 10) @ [char_of (48 + n mod 10)])"

declare nat_digits.simps [simp del]

definition itoa :: "int \<Rightarrow> string" where
  "itoa n = (if n < 0 then ''-'' @ nat_digits (nat (- n)) else nat_digits (nat n))"

section \<open>Quoted text\<close>

text \<open>
  \<open>%q\<close> of package \<open>fmt\<close> on text in the printable ASCII range, where it only escapes the
  quote and the backslash.
\<close>

definition go_quote :: "string \<Rightarrow> string" where
  "go_quote s = [CHR 0x22] @ concat (map (\<lambda>c. if c = CHR 0x22 \<or> c = CHR 0x5C then [CHR 0x5C, c] else [c]) s) @ [CHR 0x22]"

end
