(* ===== verification/Orch_Errors.thy ===== *)
theory Orch_Errors
  imports Orch_Prelude
begin

text \<open>
  The error values of the program. Every package has its own error struct
  (\<open>TaskError\<close>, \<open>NodeError\<close>, \<open>StoreError\<close>, \<open>SchedulerError\<close>,
  \<open>WorkerError\<close>, \<open>ManagerError\<close>), six copies of one pattern: an operation, a
  message, an optional cause and a stack that only the constructor \<open>E\<close> captures.
  The copies differ in the package they name, which is a constructor argument here.

  The text of a captured stack is a value of the Go run time and is not modelled; the
  field records whether a stack was captured (\<open>E\<close>) or left empty (\<open>Wrap\<close>).
\<close>

datatype pkg = TaskPkg | NodePkg | StorePkg | SchedulerPkg | WorkerPkg | ManagerPkg

text \<open>
  \<open>Sentinel\<close>: a package variable made by \<open>errors.New\<close>, compared by identity;
  \<open>External\<close>: an error minted outside this code base, with its text;
  \<open>Formatted\<close>: \<open>fmt.Errorf\<close>, its text and the cause it wraps with \<open>%w\<close>;
  \<open>PkgError\<close>: one of the six structs; \<open>Joined\<close>: \<open>errors.Join\<close>.
\<close>

datatype go_error =
    Sentinel string
  | External string
  | Formatted string "go_error option"
  | PkgError pkg (Op: string) (Message: string) (Err: "go_error option") (Stack: bool)
  | Joined "go_error list"

definition ErrNotFound :: go_error where
  "ErrNotFound = Sentinel ''element not found''"

definition errWorkerUnreachable :: go_error where
  "errWorkerUnreachable = Sentinel ''worker unreachable''"

section \<open>Construction\<close>

definition E :: "pkg \<Rightarrow> string \<Rightarrow> string \<Rightarrow> go_error option \<Rightarrow> go_error" where
  "E p op message err = PkgError p op message err True"

definition Wrap :: "pkg \<Rightarrow> string \<Rightarrow> string \<Rightarrow> go_error \<Rightarrow> go_error" where
  "Wrap p op message err = PkgError p op message (Some err) False"

definition task_E :: "string \<Rightarrow> string \<Rightarrow> go_error option \<Rightarrow> go_error" where
  "task_E op message err = E TaskPkg op message err"

definition node_E :: "string \<Rightarrow> string \<Rightarrow> go_error option \<Rightarrow> go_error" where
  "node_E op message err = E NodePkg op message err"

definition store_E :: "string \<Rightarrow> string \<Rightarrow> go_error option \<Rightarrow> go_error" where
  "store_E op message err = E StorePkg op message err"

definition store_Wrap :: "string \<Rightarrow> string \<Rightarrow> go_error \<Rightarrow> go_error" where
  "store_Wrap op message err = Wrap StorePkg op message err"

definition scheduler_E :: "string \<Rightarrow> string \<Rightarrow> go_error option \<Rightarrow> go_error" where
  "scheduler_E op message err = E SchedulerPkg op message err"

definition scheduler_Wrap :: "string \<Rightarrow> string \<Rightarrow> go_error \<Rightarrow> go_error" where
  "scheduler_Wrap op message err = Wrap SchedulerPkg op message err"

definition worker_E :: "string \<Rightarrow> string \<Rightarrow> go_error option \<Rightarrow> go_error" where
  "worker_E op message err = E WorkerPkg op message err"

definition worker_Wrap :: "string \<Rightarrow> string \<Rightarrow> go_error \<Rightarrow> go_error" where
  "worker_Wrap op message err = Wrap WorkerPkg op message err"

definition manager_E :: "string \<Rightarrow> string \<Rightarrow> go_error option \<Rightarrow> go_error" where
  "manager_E op message err = E ManagerPkg op message err"

definition manager_Wrap :: "string \<Rightarrow> string \<Rightarrow> go_error \<Rightarrow> go_error" where
  "manager_Wrap op message err = Wrap ManagerPkg op message err"

lemmas error_defs =
  E_def Wrap_def task_E_def node_E_def store_E_def store_Wrap_def scheduler_E_def
  scheduler_Wrap_def worker_E_def worker_Wrap_def manager_E_def manager_Wrap_def

section \<open>Rendering and matching\<close>

text \<open>\<open>errors.Join\<close> puts a newline between the texts of its parts.\<close>

fun join_lines :: "string list \<Rightarrow> string" where
  "join_lines [] = ''''"
| "join_lines [s] = s"
| "join_lines (s # ss) = s @ [CHR 0x0A] @ join_lines ss"

primrec Error_text :: "go_error \<Rightarrow> string" where
  "Error_text (Sentinel s) = s"
| "Error_text (External s) = s"
| "Error_text (Formatted s c) = s"
| "Error_text (PkgError p op message err stack) =
     (case map_option Error_text err of
        None \<Rightarrow> op @ '': '' @ message
      | Some cause \<Rightarrow> op @ '': '' @ message @ '': '' @ cause)"
| "Error_text (Joined es) = join_lines (map Error_text es)"

text \<open>
  \<open>errors.Is\<close> for a target that is a sentinel: the error itself, or anything reached by
  \<open>Unwrap\<close> (one cause of a struct or of \<open>%w\<close>, every part of a join).
\<close>

primrec errors_Is :: "go_error \<Rightarrow> go_error \<Rightarrow> bool" where
  "errors_Is (Sentinel s) target = (target = Sentinel s)"
| "errors_Is (External s) target = False"
| "errors_Is (Formatted s c) target =
     (case map_option (\<lambda>x. errors_Is x target) c of None \<Rightarrow> False | Some b \<Rightarrow> b)"
| "errors_Is (PkgError p op message err stack) target =
     (case map_option (\<lambda>x. errors_Is x target) err of None \<Rightarrow> False | Some b \<Rightarrow> b)"
| "errors_Is (Joined es) target = list_ex (\<lambda>b. b) (map (\<lambda>x. errors_Is x target) es)"

text \<open>How many stacks an error chain carries.\<close>

primrec stacks :: "go_error \<Rightarrow> nat" where
  "stacks (Sentinel s) = 0"
| "stacks (External s) = 0"
| "stacks (Formatted s c) = (case map_option stacks c of None \<Rightarrow> 0 | Some n \<Rightarrow> n)"
| "stacks (PkgError p op message err stack) =
     (if stack then 1 else 0) + (case map_option stacks err of None \<Rightarrow> 0 | Some n \<Rightarrow> n)"
| "stacks (Joined es) = sum_list (map stacks es)"

section \<open>Chains\<close>

text \<open>The layers above an origin: package, operation and message of each \<open>Wrap\<close>, outermost first.\<close>

fun wrap_all :: "(pkg \<times> string \<times> string) list \<Rightarrow> go_error \<Rightarrow> go_error" where
  "wrap_all [] e = e"
| "wrap_all ((p, op, message) # ls) e = Wrap p op message (wrap_all ls e)"

lemma errors_Is_E [simp]: "errors_Is (E p op m None) t = False"
    "errors_Is (E p op m (Some c)) t = errors_Is c t"
  by (simp_all add: E_def)

lemma errors_Is_Wrap [simp]: "errors_Is (Wrap p op m c) t = errors_Is c t"
  by (simp add: Wrap_def)

lemma errors_Is_Joined [simp]: "errors_Is (Joined es) t \<longleftrightarrow> (\<exists>e \<in> set es. errors_Is e t)"
  by (simp add: list_ex_iff)

declare errors_Is.simps(5) [simp del]

lemma errors_Is_ErrNotFound [simp]: "errors_Is ErrNotFound ErrNotFound"
  by (simp add: ErrNotFound_def)

lemma errors_Is_unreachable [simp]: "errors_Is errWorkerUnreachable errWorkerUnreachable"
  by (simp add: errWorkerUnreachable_def)

lemma unreachable_not_ErrNotFound [simp]: "\<not> errors_Is errWorkerUnreachable ErrNotFound"
  by (simp add: errWorkerUnreachable_def ErrNotFound_def)

lemma errors_Is_wrap_all [simp]: "errors_Is (wrap_all ls e) t = errors_Is e t"
  by (induction ls e rule: wrap_all.induct) simp_all

lemma stacks_wrap_all [simp]: "stacks (wrap_all ls e) = stacks e"
  by (induction ls e rule: wrap_all.induct) (simp_all add: Wrap_def)

lemma Error_text_wrap_all:
  "Error_text (wrap_all ls e) =
     concat (map (\<lambda>(p, op, message). op @ '': '' @ message @ '': '') ls) @ Error_text e"
  by (induction ls e rule: wrap_all.induct) (simp_all add: Wrap_def)

lemma errors_Is_External [simp]:
  "errors_Is (store_E op m (Some c)) t = errors_Is c t"
  "errors_Is (manager_E op m (Some c)) t = errors_Is c t"
  "errors_Is (manager_E op m None) t = False"
  "errors_Is (manager_Wrap op m c) t = errors_Is c t"
  by (simp_all add: store_E_def manager_E_def manager_Wrap_def)

end
