(* ===== verification/Orch_Task.thy ===== *)
theory Orch_Task
  imports Orch_Errors
begin

text \<open>
  Package \<open>internal/task\<close>, file \<open>task.go\<close>: the task states and their state
  machine, and the structs \<open>Task\<close>, \<open>Config\<close> and \<open>TaskEvent\<close>.

  \<open>State\<close> is an \<open>int\<close> in Go, with five named values. It is an \<open>int\<close> here too:
  a state comes out of a JSON document, so values outside the five exist at run time.
\<close>

section \<open>States\<close>

type_synonym State = int

definition Pending :: State where [state_defs]: "Pending = 0"
definition Scheduled :: State where [state_defs]: "Scheduled = 1"
definition Running :: State where [state_defs]: "Running = 2"
definition Completed :: State where [state_defs]: "Completed = 3"
definition Failed :: State where [state_defs]: "Failed = 4"

lemma state_distinct [simp]:
  "Pending \<noteq> Scheduled" "Pending \<noteq> Running" "Pending \<noteq> Completed" "Pending \<noteq> Failed"
  "Scheduled \<noteq> Pending" "Scheduled \<noteq> Running" "Scheduled \<noteq> Completed" "Scheduled \<noteq> Failed"
  "Running \<noteq> Pending" "Running \<noteq> Scheduled" "Running \<noteq> Completed" "Running \<noteq> Failed"
  "Completed \<noteq> Pending" "Completed \<noteq> Scheduled" "Completed \<noteq> Running" "Completed \<noteq> Failed"
  "Failed \<noteq> Pending" "Failed \<noteq> Scheduled" "Failed \<noteq> Running" "Failed \<noteq> Completed"
  by (simp_all add: state_defs)

definition State_String :: "State \<Rightarrow> string" where
  "State_String s =
     (if s = Pending then ''Pending''
      else if s = Scheduled then ''Scheduled''
      else if s = Running then ''Running''
      else if s = Completed then ''Completed''
      else if s = Failed then ''Failed''
      else '''')"

section \<open>The state machine\<close>

record StateMachine =
  machine :: "State \<rightharpoonup> State list"

definition NewStateMachine :: StateMachine where
  "NewStateMachine =
     \<lparr>machine =
        [Pending \<mapsto> [Scheduled],
         Scheduled \<mapsto> [Scheduled, Running, Failed],
         Running \<mapsto> [Running, Completed, Failed, Scheduled],
         Completed \<mapsto> [],
         Failed \<mapsto> [Scheduled]]\<rparr>"

definition IsValidTransition :: "StateMachine \<Rightarrow> State \<Rightarrow> State \<Rightarrow> bool" where
  "IsValidTransition s cur next =
     (case machine s cur of
        Some validStates \<Rightarrow> slices_Contains validStates next
      | None \<Rightarrow> False)"

abbreviation valid_edge :: "State \<Rightarrow> State \<Rightarrow> bool" where
  "valid_edge \<equiv> IsValidTransition NewStateMachine"

lemma valid_edge_iff:
  "valid_edge a b \<longleftrightarrow>
     a = Pending \<and> b = Scheduled \<or>
     a = Scheduled \<and> b \<in> {Scheduled, Running, Failed} \<or>
     a = Running \<and> b \<in> {Running, Completed, Failed, Scheduled} \<or>
     a = Failed \<and> b = Scheduled"
  by (auto simp: IsValidTransition_def NewStateMachine_def split: option.splits if_splits)

lemma valid_edge_to_Completed [simp]: "valid_edge a Completed \<longleftrightarrow> a = Running"
  by (auto simp: valid_edge_iff)

lemma valid_edge_from_Completed [simp]: "\<not> valid_edge Completed b"
  by (auto simp: valid_edge_iff)

lemma valid_edge_to_Scheduled [simp]:
  "valid_edge a Scheduled \<longleftrightarrow> a \<in> {Pending, Scheduled, Running, Failed}"
  by (auto simp: valid_edge_iff)

lemma valid_edge_refl_iff: "valid_edge a a \<longleftrightarrow> a = Scheduled \<or> a = Running"
  by (auto simp: valid_edge_iff)

section \<open>Tasks and events\<close>

text \<open>
  A \<open>uuid.UUID\<close> is sixteen bytes. A \<open>time.Time\<close> is modelled as an \<open>int\<close>, the
  zero time being \<open>0\<close>; the program copies times and never compares them, but for
  \<open>IsZero\<close>. \<open>network.PortSet\<close> and \<open>network.PortMap\<close> are Go maps, which can be nil
  (\<open>None\<close>); a map is its list of entries.
\<close>

type_synonym UUID = "128 word"
type_synonym Time = int
type_synonym PortSet = "string list option"

record PortBinding =
  HostIP :: string
  HostPort :: string

type_synonym PortMap = "(string \<times> PortBinding list) list option"

record Task =
  tName :: string
  tID :: UUID
  tState :: State
  tImage :: string
  tMemory :: int
  tDisk :: int
  tExposedPorts :: PortSet
  tHostPorts :: PortMap
  tRestartPolicy :: string
  tStartTime :: Time
  tFinishTime :: Time
  tContainerID :: string
  tHealthCheck :: string
  tRestartCount :: int

definition zero_Task :: Task where
  "zero_Task =
     \<lparr>tName = '''', tID = 0, tState = 0, tImage = '''', tMemory = 0, tDisk = 0,
      tExposedPorts = None, tHostPorts = None, tRestartPolicy = '''', tStartTime = 0,
      tFinishTime = 0, tContainerID = '''', tHealthCheck = '''', tRestartCount = 0\<rparr>"

record TaskEvent =
  teID :: UUID
  teState :: State
  teTimestamp :: Time
  teTask :: Task

text \<open>A rendering of identifiers that is injective, for concrete environments.\<close>

definition unary :: "UUID \<Rightarrow> string" where
  "unary u = replicate (unat u) (CHR ''x'')"

lemma inj_unary: "inj unary"
  by (rule injI) (metis length_replicate unary_def word_unat_eq_iff)

section \<open>Properties\<close>

text \<open>The states a task can pass through, following valid edges.\<close>

inductive walk :: "State \<Rightarrow> State \<Rightarrow> bool" where
  walk_refl: "walk a a"
| walk_step: "walk a b \<Longrightarrow> valid_edge b c \<Longrightarrow> walk a c"

inductive_cases walk_stepE: "walk a c"

lemma walk_trans: "walk b c \<Longrightarrow> walk a b \<Longrightarrow> walk a c"
  by (induction rule: walk.induct) (auto intro: walk.intros)

lemma walk_edge: "valid_edge a b \<Longrightarrow> walk a b"
  by (rule walk_step [OF walk_refl])

lemma walk_from_Completed: "walk a b \<Longrightarrow> a = Completed \<Longrightarrow> b = Completed"
  by (induction rule: walk.induct) auto

lemma walk_into_Completed: "walk a b \<Longrightarrow> a \<noteq> Completed \<Longrightarrow> b = Completed \<Longrightarrow> walk a Running"
proof (induction rule: walk.induct)
  case (walk_step a b c)
  then show ?case by simp
qed simp

text \<open>
  The life of a task: along the state machine's edges a task reaches \<open>Completed\<close>
  only through \<open>Running\<close>, and from \<open>Completed\<close> it never moves again, while every
  other named state still has a way to \<open>Completed\<close>.
\<close>

theorem life_cycle:
  "(\<forall>a. walk a Completed \<longrightarrow> a = Completed \<or> walk a Running) \<and>
   (\<forall>b. walk Completed b \<longrightarrow> b = Completed) \<and>
   (\<forall>a \<in> {Pending, Scheduled, Running, Failed}. walk a Completed)"
proof (intro conjI allI ballI impI)
  fix a assume "walk a Completed"
  then show "a = Completed \<or> walk a Running" using walk_into_Completed by blast
next
  fix b assume "walk Completed b"
  then show "b = Completed" using walk_from_Completed by blast
next
  fix a assume a: "a \<in> {Pending, Scheduled, Running, Failed}"
  have sr: "walk Scheduled Completed"
    by (rule walk_step [OF walk_edge]) (simp_all add: valid_edge_iff)
  have "walk a Scheduled"
    using a by (auto intro!: walk_edge)
  with sr show "walk a Completed" by (rule walk_trans)
qed

theorem life_cycle_witness:
  "walk Pending Completed \<and> walk Pending Running \<and> walk Completed Completed"
proof -
  have "walk Pending Completed" using life_cycle by blast
  moreover from this have "walk Pending Running" using life_cycle state_distinct(3) by blast
  ultimately show ?thesis by (simp add: walk_refl)
qed

end
