(* ===== verification/Orch_Httpapi.thy ===== *)
theory Orch_Httpapi
  imports Orch_Errors
begin

text \<open>
  Package \<open>internal/httpapi\<close>: the error body every failing endpoint returns, the two
  response writers, and the retry loop \<open>HTTPWithRetry\<close>.

  The network is a parameter: a request function from the state of the outside world to
  a reply and the next state. A context is the record \<open>Context\<close>: what \<open>ctx.Err()\<close>
  says at a moment, and how a wait races against \<open>ctx.Done()\<close>. Logging is not modelled.
\<close>

section \<open>Responses\<close>

record ErrorResponse =
  erMessage :: string
  erCode :: int

text \<open>The body is the text on the wire.\<close>

record Response =
  StatusCode :: int
  Body :: string

definition StatusOK :: int where "StatusOK = 200"
definition StatusCreated :: int where "StatusCreated = 201"
definition StatusNoContent :: int where "StatusNoContent = 204"
definition StatusBadRequest :: int where "StatusBadRequest = 400"
definition StatusNotFound :: int where "StatusNotFound = 404"
definition StatusInternalServerError :: int where "StatusInternalServerError = 500"
definition StatusServiceUnavailable :: int where "StatusServiceUnavailable = 503"

lemmas status_defs =
  StatusOK_def StatusCreated_def StatusNoContent_def StatusBadRequest_def StatusNotFound_def
  StatusInternalServerError_def StatusServiceUnavailable_def

text \<open>
  What a handler writes: the status, the content type and the body, before JSON encodes
  it. \<open>WriteHeader\<close> alone writes a status and nothing else.
\<close>

datatype 'b reply = Written (rStatus: int) (rContentType: "string option") (rBody: "'b option")

datatype 'b body = ErrorBody ErrorResponse | PayloadBody 'b

definition WriteJSON :: "int \<Rightarrow> 'b \<Rightarrow> 'b reply" where
  "WriteJSON status body = Written status (Some ''application/json'') (Some body)"

definition WriteError :: "int \<Rightarrow> string \<Rightarrow> 'b body reply" where
  "WriteError status msg = WriteJSON status (ErrorBody \<lparr>erMessage = msg, erCode = status\<rparr>)"

definition WriteHeader :: "int \<Rightarrow> 'b reply" where
  "WriteHeader status = Written status None None"

lemmas reply_defs = WriteJSON_def WriteError_def WriteHeader_def

section \<open>Retrying\<close>

text \<open>\<open>time.Duration\<close> in nanoseconds.\<close>

definition second :: int where
  "second = 1000000000"

definition RetryLimit :: int where
  "RetryLimit = 3"

definition RetryDelay :: int where
  "RetryDelay = 5 * second"

record retryConfig =
  limit :: int
  delay :: int

type_synonym RetryOption = "retryConfig \<Rightarrow> retryConfig"

definition WithRetryLimit :: "int \<Rightarrow> RetryOption" where
  "WithRetryLimit n c = c\<lparr>limit := n\<rparr>"

definition WithRetryDelay :: "int \<Rightarrow> RetryOption" where
  "WithRetryDelay d c = c\<lparr>delay := d\<rparr>"

text \<open>
  \<open>wait_or_done\<close> is the \<open>select\<close> between \<open>ctx.Done()\<close> (which yields the context's
  error) and \<open>time.After\<close> (which yields nothing).
\<close>

record 'w Context =
  ctx_Err :: "'w \<Rightarrow> go_error option"
  wait_or_done :: "int \<Rightarrow> 'w \<Rightarrow> go_error option \<times> 'w"

type_synonym 'w request = "string \<Rightarrow> 'w \<Rightarrow> (go_error + Response) \<times> 'w"

text \<open>
  \<open>Get\<close>, the usual request function: \<open>new_request\<close> is \<open>http.NewRequestWithContext\<close>, which only
  fails on a malformed method or URL, and \<open>client_do\<close> the default HTTP client.
\<close>

definition httpapi_Get :: "(string \<Rightarrow> string \<Rightarrow> go_error option) \<Rightarrow> 'w request \<Rightarrow> 'w request" where
  "httpapi_Get new_request client_do url w =
     (case new_request ''GET'' url of Some err \<Rightarrow> (Inl err, w) | None \<Rightarrow> client_do url w)"

text \<open>
  The loop with \<open>n\<close> iterations to go; \<open>vars\<close> holds the variables \<open>res\<close> and \<open>err\<close>
  of the previous iteration, both nil at the start.
\<close>

fun retry_loop ::
  "'w Context \<Rightarrow> retryConfig \<Rightarrow> 'w request \<Rightarrow> string \<Rightarrow> nat \<Rightarrow>
   Response option \<times> go_error option \<Rightarrow> 'w \<Rightarrow> (Response option \<times> go_error option) \<times> 'w" where
  "retry_loop ctx cfg fn url 0 vars w = (vars, w)"
| "retry_loop ctx cfg fn url (Suc n) vars w =
     (case fn url w of
        (Inr res, w1) \<Rightarrow> ((Some res, None), w1)
      | (Inl err, w1) \<Rightarrow>
          (case ctx_Err ctx w1 of
             Some ctxErr \<Rightarrow> ((None, Some (Joined [err, ctxErr])), w1)
           | None \<Rightarrow>
               (if 0 < n then
                  (case wait_or_done ctx (delay cfg) w1 of
                     (Some ctxErr, w2) \<Rightarrow> ((None, Some (Joined [err, ctxErr])), w2)
                   | (None, w2) \<Rightarrow> retry_loop ctx cfg fn url n (None, Some err) w2)
                else retry_loop ctx cfg fn url n (None, Some err) w1)))"

definition HTTPWithRetry ::
  "'w Context \<Rightarrow> 'w request \<Rightarrow> string \<Rightarrow> RetryOption list \<Rightarrow> 'w \<Rightarrow>
   (Response option \<times> go_error option) \<times> 'w" where
  "HTTPWithRetry ctx fn url opts w =
     (let cfg = fold (\<lambda>opt. opt) opts \<lparr>limit = RetryLimit, delay = RetryDelay\<rparr>
      in retry_loop ctx cfg fn url (nat (limit cfg)) (None, None) w)"

section \<open>Properties\<close>

lemma default_limit [simp]:
  "HTTPWithRetry ctx fn url [] w =
     retry_loop ctx \<lparr>limit = 3, delay = RetryDelay\<rparr> fn url 3 (None, None) w"
  by (simp add: HTTPWithRetry_def RetryLimit_def)

text \<open>With at least one attempt exactly one of the response and the error is set.\<close>

lemma retry_loop_result:
  assumes "retry_loop ctx cfg fn url n vars w = ((res, err), w')"
    and "0 < n \<or> (case vars of (r, e) \<Rightarrow> r = None \<and> e \<noteq> None)"
  shows "(res = None) \<longleftrightarrow> (err \<noteq> None)"
  using assms
proof (induction ctx cfg fn url n vars w rule: retry_loop.induct)
  case (2 ctx cfg fn url n vars w)
  show ?case
  proof (cases "fn url w")
    case (Pair r w1)
    with 2 show ?thesis
      by (auto split: sum.splits option.splits if_splits prod.splits)
  qed
qed auto

text \<open>
  A world in which the replies are scripted and every request takes the next one; the
  context is never cancelled.
\<close>

definition script_request :: "(go_error + Response) list request" where
  "script_request url w = (case w of [] \<Rightarrow> (Inl (External ''no reply''), []) | r # rs \<Rightarrow> (r, rs))"

definition live_context :: "'w Context" where
  "live_context = \<lparr>ctx_Err = (\<lambda>_. None), wait_or_done = (\<lambda>_ w. (None, w))\<rparr>"

lemma retry_loop_failures:
  "retry_loop live_context cfg script_request url (length errs + n) vars (map Inl errs @ rest) =
     retry_loop live_context cfg script_request url n
       (if errs = [] then vars else (None, Some (last errs))) rest"
  by (induction errs arbitrary: vars) (auto simp: script_request_def live_context_def)

text \<open>
  C37. With a context that stays alive, \<open>HTTPWithRetry\<close> calls the request function until
  it succeeds, and at most \<open>limit\<close> times: after fewer failures than the limit it returns
  the first response and no error, having consumed nothing after it; when the first
  \<open>limit\<close> attempts fail it returns the last error and makes no further attempt.
\<close>

theorem HTTPWithRetry_attempts:
  assumes "0 \<le> n"
  shows "(int (length errs) < n \<longrightarrow>
      HTTPWithRetry live_context script_request url [WithRetryLimit n] (map Inl errs @ Inr res # rest) =
        ((Some res, None), rest)) \<and>
    (int (length errs) = n \<and> errs \<noteq> [] \<longrightarrow>
      HTTPWithRetry live_context script_request url [WithRetryLimit n] (map Inl errs @ rest) =
        ((None, Some (last errs)), rest))"
proof (intro conjI impI)
  assume lt: "int (length errs) < n"
  then obtain k where "nat n = length errs + Suc k"
    by (metis add_Suc_right less_imp_Suc_add nat_int zless_nat_eq_int_zless)
  then show "HTTPWithRetry live_context script_request url [WithRetryLimit n] (map Inl errs @ Inr res # rest) =
        ((Some res, None), rest)"
    by (simp add: HTTPWithRetry_def WithRetryLimit_def retry_loop_failures script_request_def del: add_Suc_right)
next
  assume "int (length errs) = n \<and> errs \<noteq> []"
  then show "HTTPWithRetry live_context script_request url [WithRetryLimit n] (map Inl errs @ rest) =
        ((None, Some (last errs)), rest)"
    using retry_loop_failures [of _ url errs 0]
    by (auto simp: HTTPWithRetry_def WithRetryLimit_def)
qed

theorem HTTPWithRetry_attempts_witness:
  "HTTPWithRetry live_context script_request ''u'' [WithRetryLimit 2]
     [Inl (External ''x''), Inr \<lparr>StatusCode = 200, Body = ''ok''\<rparr>] =
   ((Some \<lparr>StatusCode = 200, Body = ''ok''\<rparr>, None), [])"
  using HTTPWithRetry_attempts [of 2 "[External ''x'']" "''u''" "\<lparr>StatusCode = 200, Body = ''ok''\<rparr>" "[]"]
  by simp

text \<open>
  A failed attempt whose context has already ended is not retried: the call returns at
  once, whatever the limit, with an error that still matches every sentinel the context's
  error matches.
\<close>

theorem HTTPWithRetry_cancelled:
  assumes "fn url w = (Inl err, w1)" and "ctx_Err ctx w1 = Some ctxErr"
    and "0 < limit (fold (\<lambda>opt. opt) opts \<lparr>limit = RetryLimit, delay = RetryDelay\<rparr>)"
    and "errors_Is ctxErr target"
  shows "\<exists>e. HTTPWithRetry ctx fn url opts w = ((None, Some e), w1) \<and> errors_Is e target"
proof -
  let ?cfg = "fold (\<lambda>opt. opt) opts \<lparr>limit = RetryLimit, delay = RetryDelay\<rparr>"
  obtain n where "nat (limit ?cfg) = Suc n"
    using assms(3) by (metis gr0_implies_Suc zero_less_nat_eq)
  with assms show ?thesis
    by (auto simp: HTTPWithRetry_def)
qed

theorem HTTPWithRetry_cancelled_witness:
  "\<exists>e. HTTPWithRetry \<lparr>ctx_Err = (\<lambda>_. Some (Sentinel ''context canceled'')), wait_or_done = (\<lambda>_ w. (None, w))\<rparr>
      (\<lambda>_ w. (Inl (External ''dial''), w + 1)) ''u'' [] (0 :: nat) = ((None, Some e), 1) \<and>
    errors_Is e (Sentinel ''context canceled'')"
  by (rule HTTPWithRetry_cancelled [where err = "External ''dial''" and ctxErr = "Sentinel ''context canceled''"])
    (simp_all add: RetryLimit_def)

end
