(* ===== verification/Orch_Stats.thy ===== *)
theory Orch_Stats
  imports Orch_Float Orch_Task Orch_Httpapi
begin

text \<open>
  The statistics a worker reports (\<open>internal/worker/stats.go\<close>) and the node that
  fetches them (\<open>internal/node/node.go\<close>).

  The host metrics come from the third-party package gopsutil: its four readings are the
  parameter \<open>probes\<close>. The structs it returns are held by pointer and can be nil after
  a JSON document left them out, so they are options and the accessors can panic.
\<close>

section \<open>Readings\<close>

type_synonym uint64 = "64 word"

record VirtualMemoryStat =
  vmTotal :: uint64
  vmAvailable :: uint64

record UsageStat =
  usTotal :: uint64
  usFree :: uint64
  usUsed :: uint64

record AvgStat =
  Load1 :: f64
  Load5 :: f64
  Load15 :: f64

record Stats =
  MemStats :: "VirtualMemoryStat option"
  DiskStats :: "UsageStat option"
  CPUUsagePercentage :: f64
  LoadStats :: "AvgStat option"
  TaskCount :: int

definition zero_Stats :: Stats where
  "zero_Stats = \<lparr>MemStats = None, DiskStats = None, CPUUsagePercentage = Fin 0, LoadStats = None, TaskCount = 0\<rparr>"

record probes =
  VirtualMemory :: "go_error + VirtualMemoryStat"
  Usage :: "go_error + UsageStat"
  Percent :: "f64 list \<times> go_error option"
  Avg :: "go_error + AvgStat"

definition NewStats :: "probes \<Rightarrow> Stats" where
  "NewStats pr =
     (let memStats = (case VirtualMemory pr of Inl _ \<Rightarrow> \<lparr>vmTotal = 0, vmAvailable = 0\<rparr> | Inr m \<Rightarrow> m);
          diskStats = (case Usage pr of Inl _ \<Rightarrow> \<lparr>usTotal = 0, usFree = 0, usUsed = 0\<rparr> | Inr u \<Rightarrow> u);
          cpuPercent = (case fst (Percent pr) of [] \<Rightarrow> Fin (-1) | p # _ \<Rightarrow> p);
          loadStats = (case Avg pr of Inl _ \<Rightarrow> \<lparr>Load1 = Fin 0, Load5 = Fin 0, Load15 = Fin 0\<rparr> | Inr a \<Rightarrow> a)
      in \<lparr>MemStats = Some memStats, DiskStats = Some diskStats, CPUUsagePercentage = cpuPercent,
          LoadStats = Some loadStats, TaskCount = 0\<rparr>)"

section \<open>Accessors\<close>

definition MemTotalKb :: "Stats \<Rightarrow> panic + uint64" where
  "MemTotalKb s = (case MemStats s of None \<Rightarrow> Inl NilDereference | Some m \<Rightarrow> Inr (vmTotal m))"

definition MemAvailableKb :: "Stats \<Rightarrow> panic + uint64" where
  "MemAvailableKb s = (case MemStats s of None \<Rightarrow> Inl NilDereference | Some m \<Rightarrow> Inr (vmAvailable m))"

definition MemUsedKb :: "Stats \<Rightarrow> panic + uint64" where
  "MemUsedKb s =
     (case MemStats s of None \<Rightarrow> Inl NilDereference | Some m \<Rightarrow> Inr (vmTotal m - vmAvailable m))"

definition MemUsedPercent :: "Stats \<Rightarrow> panic + uint64" where
  "MemUsedPercent s =
     (case MemStats s of
        None \<Rightarrow> Inl NilDereference
      | Some m \<Rightarrow> if vmTotal m = 0 then Inl DivideByZero else Inr (vmAvailable m div vmTotal m))"

definition DiskTotal :: "Stats \<Rightarrow> panic + uint64" where
  "DiskTotal s = (case DiskStats s of None \<Rightarrow> Inl NilDereference | Some u \<Rightarrow> Inr (usTotal u))"

definition DiskFree :: "Stats \<Rightarrow> panic + uint64" where
  "DiskFree s = (case DiskStats s of None \<Rightarrow> Inl NilDereference | Some u \<Rightarrow> Inr (usFree u))"

definition DiskUsed :: "Stats \<Rightarrow> panic + uint64" where
  "DiskUsed s = (case DiskStats s of None \<Rightarrow> Inl NilDereference | Some u \<Rightarrow> Inr (usUsed u))"

definition CPUUsage :: "Stats \<Rightarrow> f64" where
  "CPUUsage s = CPUUsagePercentage s"

lemmas mem_accessor_defs = MemTotalKb_def MemAvailableKb_def MemUsedKb_def MemUsedPercent_def

section \<open>Properties of the readings\<close>

lemma NewStats_MemStats: "\<exists>m. MemStats (NewStats pr) = Some m"
  by (simp add: NewStats_def Let_def)

text \<open>
  A worker's own statistics never panic its memory accessors, and used plus available
  memory is the total, in 64-bit arithmetic, for every reading; when the reading has at
  most the total available, the used memory is the plain difference.
\<close>

theorem NewStats_memory:
  "\<exists>total avail used.
     MemTotalKb (NewStats pr) = Inr total \<and> MemAvailableKb (NewStats pr) = Inr avail \<and>
     MemUsedKb (NewStats pr) = Inr used \<and> used + avail = total \<and>
     (avail \<le> total \<longrightarrow> unat used = unat total - unat avail \<and> used \<le> total)"
proof -
  obtain m where m: "MemStats (NewStats pr) = Some m" using NewStats_MemStats by blast
  have "unat (vmTotal m - vmAvailable m) = unat (vmTotal m) - unat (vmAvailable m)"
    if "vmAvailable m \<le> vmTotal m"
    using that by (rule unat_sub)
  then show ?thesis
    by (auto simp: mem_accessor_defs m word_le_nat_alt)
qed

theorem NewStats_memory_witness:
  "MemUsedKb (NewStats \<lparr>VirtualMemory = Inr \<lparr>vmTotal = 8, vmAvailable = 3\<rparr>, Usage = Inl (External ''x''),
     Percent = ([], None), Avg = Inl (External ''y'')\<rparr>) = Inr 5"
  using NewStats_memory [of "\<lparr>VirtualMemory = Inr \<lparr>vmTotal = 8, vmAvailable = 3\<rparr>, Usage = Inl (External ''x''),
     Percent = ([], None), Avg = Inl (External ''y'')\<rparr>"]
  by (auto simp: mem_accessor_defs NewStats_def)

text \<open>
  \<open>MemUsedPercent\<close> does not compute a percentage of used memory: it divides the
  available memory by the total with integer division, so it is 1 when all memory is
  available and 0 for every other usage, and it panics on the zero reading that
  \<open>NewStats\<close> substitutes when the memory could not be read.
\<close>

theorem MemUsedPercent_is_zero_or_one:
  "(\<forall>m. MemStats s = Some m \<and> vmAvailable m \<le> vmTotal m \<and> vmTotal m \<noteq> 0 \<longrightarrow>
      MemUsedPercent s = Inr (if vmAvailable m = vmTotal m then 1 else 0)) \<and>
   (VirtualMemory pr = Inl e \<longrightarrow> MemUsedPercent (NewStats pr) = Inl DivideByZero)"
proof (intro conjI allI impI)
  fix m assume m: "MemStats s = Some m \<and> vmAvailable m \<le> vmTotal m \<and> vmTotal m \<noteq> 0"
  have "vmAvailable m div vmTotal m = 0" if "vmAvailable m \<noteq> vmTotal m"
  proof -
    from m that have "vmAvailable m < vmTotal m" by (simp add: less_le)
    then show ?thesis by (simp add: word_unat_eq_iff unat_div word_less_nat_alt)
  qed
  moreover have "vmTotal m div vmTotal m = 1"
    using m by (simp add: word_unat_eq_iff unat_div)
  ultimately show "MemUsedPercent s = Inr (if vmAvailable m = vmTotal m then 1 else 0)"
    using m by (auto simp: mem_accessor_defs)
next
  assume "VirtualMemory pr = Inl e"
  then show "MemUsedPercent (NewStats pr) = Inl DivideByZero"
    by (simp add: mem_accessor_defs NewStats_def)
qed

theorem MemUsedPercent_is_zero_or_one_witness:
  "MemUsedPercent (zero_Stats\<lparr>MemStats := Some \<lparr>vmTotal = 100, vmAvailable = 25\<rparr>\<rparr>) = Inr 0"
  using MemUsedPercent_is_zero_or_one
      [of "zero_Stats\<lparr>MemStats := Some \<lparr>vmTotal = 100, vmAvailable = 25\<rparr>\<rparr>"]
  by simp

section \<open>Nodes\<close>

record Node =
  nName :: string
  nAPI :: string
  nCores :: int
  nMemory :: int
  nMemoryAllocated :: int
  nDisk :: int
  nDiskAllocated :: int
  nRole :: string
  nTaskCount :: int

definition zero_Node :: Node where
  "zero_Node = \<lparr>nName = '''', nAPI = '''', nCores = 0, nMemory = 0, nMemoryAllocated = 0,
     nDisk = 0, nDiskAllocated = 0, nRole = '''', nTaskCount = 0\<rparr>"

definition NewNode :: "string \<Rightarrow> string \<Rightarrow> string \<Rightarrow> Node" where
  "NewNode name addr role = zero_Node\<lparr>nName := name, nAPI := addr, nRole := role\<rparr>"

definition statsURL :: "Node \<Rightarrow> string" where
  "statsURL n = nAPI n @ ''/stats''"

text \<open>
  What \<open>encoding/json\<close> makes of the text of a reply, for the types the program decodes
  and encodes. The codec is an argument of the operations that use it.
\<close>

record codec =
  decode_Stats :: "string \<Rightarrow> go_error + Stats"
  decode_Error :: "string \<Rightarrow> go_error + ErrorResponse"
  decode_Task :: "string \<Rightarrow> go_error + Task"
  decode_Tasks :: "string \<Rightarrow> go_error + Task list"
  encode_TaskEvent :: "TaskEvent \<Rightarrow> go_error + string"

definition GetStats ::
  "codec \<Rightarrow> 'w Context \<Rightarrow> 'w request \<Rightarrow> Node \<Rightarrow> 'w \<Rightarrow> (panic + go_error + Stats) \<times> 'w" where
  "GetStats J ctx get n w =
     (let op = ''node.Node.GetStats''; url = statsURL n in
      case HTTPWithRetry ctx get url [] w of
        ((_, Some err), w1) \<Rightarrow> (Inr (Inl (node_E op (''connecting to node '' @ nName n) (Some err))), w1)
      | ((None, None), w1) \<Rightarrow> (Inl NilDereference, w1)
      | ((Some resp, None), w1) \<Rightarrow>
          (if StatusCode resp \<noteq> StatusOK then
             (let message = (case decode_Error J (Body resp) of
                               Inl _ \<Rightarrow> ''unreadable error body'' | Inr b \<Rightarrow> erMessage b)
              in (Inr (Inl (node_E op (''node '' @ nName n @ '' returned '' @ itoa (StatusCode resp) @ '': '' @ message) None)), w1))
           else
             (case decode_Stats J (Body resp) of
                Inl err \<Rightarrow> (Inr (Inl (node_E op (''decoding stats from node '' @ nName n) (Some err))), w1)
              | Inr stats \<Rightarrow> (Inr (Inr stats), w1))))"

lemma GetStats_outcome:
  "(\<exists>r. fst (GetStats J ctx get n w) = Inr r) \<and>
   (fst (GetStats J ctx get n w) = Inr (Inr stats) \<longleftrightarrow>
      (\<exists>resp. fst (HTTPWithRetry ctx get (statsURL n) [] w) = (Some resp, None) \<and>
         StatusCode resp = StatusOK \<and> decode_Stats J (Body resp) = Inr stats))"
proof (cases "HTTPWithRetry ctx get (statsURL n) [] w")
  case (Pair re w1)
  obtain res err where re: "re = (res, err)" by (cases re)
  then have "(res = None) \<longleftrightarrow> (err \<noteq> None)"
    using retry_loop_result [of ctx "\<lparr>limit = 3, delay = RetryDelay\<rparr>" get "statsURL n" 3 "(None, None)" w res err w1] Pair
    by simp
  with Pair re show ?thesis
    by (cases res; cases err) (auto simp: GetStats_def Let_def split: sum.splits)
qed

text \<open>
  Fetching a node's statistics never dereferences a nil response, and succeeds exactly
  when one of the attempts brings a response with status 200 whose body decodes.
\<close>

theorem GetStats_result:
  "(\<exists>r. fst (GetStats J ctx get n w) = Inr r) \<and>
   (fst (GetStats J ctx get n w) = Inr (Inr stats) \<longleftrightarrow>
      (\<exists>resp. fst (HTTPWithRetry ctx get (statsURL n) [] w) = (Some resp, None) \<and>
         StatusCode resp = StatusOK \<and> decode_Stats J (Body resp) = Inr stats))"
  by (rule GetStats_outcome)

end
