(* ===== verification/Orch_Scheduler.thy ===== *)
theory Orch_Scheduler
  imports Orch_Stats "HOL-Library.Sublist"
begin

text \<open>
  Package \<open>internal/scheduler\<close>: the pure scoring functions, the two schedulers and the
  interface they share.

  Scores are \<open>f64\<close> values over a parameter \<open>F\<close> for the rounding. The goroutines of the
  marginal-cost scheduler each write their own slot and the error channel and share
  nothing else; they are run one after the other in a completion order that is a
  parameter. The contract of the interface is the locale \<open>scheduler_contract\<close>,
  interpreted on each scheduler and on the dynamic dispatch between them.
\<close>

section \<open>Pure functions\<close>

record ScoredNode =
  sNode :: Node
  sScore :: f64

definition nextWorkerIndex :: "int \<Rightarrow> int \<Rightarrow> int" where
  "nextWorkerIndex lastWorker nodeCount =
     (if nodeCount \<le> 0 then -1
      else let n = go_rem (wrap64 (lastWorker + 1)) nodeCount
           in if n < 0 then wrap64 (n + nodeCount) else n)"

text \<open>The loop over the nodes with the index of the first one.\<close>

fun scoreNodes_from :: "int \<Rightarrow> Node list \<Rightarrow> int \<Rightarrow> ScoredNode list" where
  "scoreNodes_from idx [] selected = []"
| "scoreNodes_from idx (n # ns) selected =
     \<lparr>sNode = n, sScore = (if idx = selected then Fin 1 else Fin 0)\<rparr> # scoreNodes_from (idx + 1) ns selected"

definition scoreNodes :: "Node list \<Rightarrow> int \<Rightarrow> ScoredNode list" where
  "scoreNodes nodes selected = scoreNodes_from 0 nodes selected"

fun highest_loop :: "ScoredNode \<Rightarrow> ScoredNode list \<Rightarrow> ScoredNode" where
  "highest_loop best [] = best"
| "highest_loop best (s # ss) =
     (if flt (sScore best) (sScore s) then highest_loop s ss else highest_loop best ss)"

definition highestScoringNode :: "ScoredNode list \<Rightarrow> Node \<times> bool" where
  "highestScoringNode scored =
     (case scored of [] \<Rightarrow> (zero_Node, False) | s # ss \<Rightarrow> (sNode (highest_loop s ss), True))"

fun lowest_loop :: "ScoredNode \<Rightarrow> ScoredNode list \<Rightarrow> ScoredNode" where
  "lowest_loop best [] = best"
| "lowest_loop best (s # ss) =
     (if flt (sScore s) (sScore best) then lowest_loop s ss else lowest_loop best ss)"

definition lowestScoringNode :: "ScoredNode list \<Rightarrow> Node \<times> bool" where
  "lowestScoringNode scored =
     (case scored of [] \<Rightarrow> (zero_Node, False) | s # ss \<Rightarrow> (sNode (lowest_loop s ss), True))"

definition LIEB :: real where
  "LIEB = 1.53960071783900203869"

definition maxJobsPerNode :: f64 where
  "maxJobsPerNode = Fin 4"

definition hasDiskRoom :: "int \<Rightarrow> int \<Rightarrow> int \<Rightarrow> bool" where
  "hasDiskRoom taskDisk nodeDisk nodeDiskAllocated \<longleftrightarrow> taskDisk \<le> wrap64 (nodeDisk - nodeDiskAllocated)"

definition normalizeCPUUsage :: "fenv \<Rightarrow> f64 \<Rightarrow> f64 option" where
  "normalizeCPUUsage F percent = (if flt percent (Fin 0) then None else Some (fdiv F percent (Fin 100)))"

definition calculateLoad :: "fenv \<Rightarrow> f64 \<Rightarrow> f64 \<Rightarrow> f64" where
  "calculateLoad F usage capacity = fdiv F usage capacity"

definition powerCost :: "fenv \<Rightarrow> f64 \<Rightarrow> f64" where
  "powerCost F load = fpow_LIEB F load"

record nodeLoad =
  MemUsed :: f64
  MemTotal :: f64
  CPULoad :: f64
  nlTaskCount :: f64

text \<open>
  The text of the error \<open>nodeScore\<close> returns ends with the rendering of the offending
  number, which is left out here.
\<close>

definition nodeScore :: "fenv \<Rightarrow> nodeLoad \<Rightarrow> f64 \<Rightarrow> go_error + f64" where
  "nodeScore F l taskMemory =
     (if fle (MemTotal l) (Fin 0) then Inl (Formatted ''total memory must be positive'' None)
      else
        let memNow = calculateLoad F (MemUsed l) (MemTotal l);
            memNew = calculateLoad F (fadd F (MemUsed l) taskMemory) (MemTotal l);
            memCost = fsub F (powerCost F memNew) (powerCost F memNow);
            jobCost = fsub F (powerCost F (fdiv F (fadd F (nlTaskCount l) (Fin 1)) maxJobsPerNode))
                             (powerCost F (fdiv F (nlTaskCount l) maxJobsPerNode));
            cpuCost = fsub F (powerCost F (CPULoad l)) (Fin 1)
        in Inr (fadd F (fadd F memCost jobCost) cpuCost))"

section \<open>Round robin\<close>

record RoundRobinScheduler =
  rrName :: string
  LastWorker :: int

definition RoundRobin_SelectCandidateNodes :: "Task \<Rightarrow> Node list \<Rightarrow> Node list" where
  "RoundRobin_SelectCandidateNodes t nodes = nodes"

definition RoundRobin_Score ::
  "Task \<Rightarrow> Node list \<Rightarrow> RoundRobinScheduler \<Rightarrow> ScoredNode list \<times> RoundRobinScheduler" where
  "RoundRobin_Score t nodes r =
     (let n = nextWorkerIndex (LastWorker r) (int (length nodes))
      in if n < 0 then ([], r) else (scoreNodes nodes n, r\<lparr>LastWorker := n\<rparr>))"

definition RoundRobin_Pick :: "ScoredNode list \<Rightarrow> Node" where
  "RoundRobin_Pick scored = fst (highestScoringNode scored)"

section \<open>Marginal cost\<close>

record MarginalCostScheduler =
  mcName :: string

text \<open>
  The environment of a scheduler: the arithmetic, the codec, the context and the request
  function of the stats fetch, and the order in which \<open>n\<close> goroutines complete.
\<close>

record 'w sched_env =
  se_F :: fenv
  se_codec :: codec
  se_ctx :: "'w Context"
  se_get :: "'w request"
  se_order :: "nat \<Rightarrow> nat list"

definition completion_order :: "(nat \<Rightarrow> nat list) \<Rightarrow> bool" where
  "completion_order ord \<longleftrightarrow> (\<forall>n. distinct (ord n) \<and> set (ord n) = {..<n})"

fun MarginalCost_SelectCandidateNodes :: "Task \<Rightarrow> Node list \<Rightarrow> Node list" where
  "MarginalCost_SelectCandidateNodes t [] = []"
| "MarginalCost_SelectCandidateNodes t (n # ns) =
     (if \<not> hasDiskRoom (tDisk t) (nDisk n) (nDiskAllocated n)
      then MarginalCost_SelectCandidateNodes t ns
      else n # MarginalCost_SelectCandidateNodes t ns)"

definition cpuLoad :: "fenv \<Rightarrow> Stats \<Rightarrow> f64" where
  "cpuLoad F stats = (case normalizeCPUUsage F (CPUUsage stats) of None \<Rightarrow> Fin 1 | Some load \<Rightarrow> load)"

text \<open>One goroutine: fetch, reduce to a load, score.\<close>

definition score_stats :: "fenv \<Rightarrow> Task \<Rightarrow> Node \<Rightarrow> Stats \<Rightarrow> panic + go_error + ScoredNode" where
  "score_stats F t n stats =
     (case MemUsedKb stats of
        Inl p \<Rightarrow> Inl p
      | Inr used \<Rightarrow>
     (case MemTotalKb stats of
        Inl p \<Rightarrow> Inl p
      | Inr tot \<Rightarrow>
          (let load = \<lparr>MemUsed = fadd F (f64_of_int F (uint used)) (f64_of_int F (nMemoryAllocated n)),
                       MemTotal = f64_of_int F (uint tot),
                       CPULoad = cpuLoad F stats,
                       nlTaskCount = f64_of_int F (TaskCount stats)\<rparr>
           in case nodeScore F load (f64_of_int F (tMemory t)) of
                Inl err \<Rightarrow> Inr (Inl (scheduler_E ''scheduler.MarginalCostScheduler.Score''
                              (''scoring node '' @ nName n) (Some err)))
              | Inr score \<Rightarrow> Inr (Inr \<lparr>sNode = n, sScore = score\<rparr>))))"

definition score_candidate ::
  "'w sched_env \<Rightarrow> Task \<Rightarrow> Node \<Rightarrow> 'w \<Rightarrow> (panic + go_error + ScoredNode) \<times> 'w" where
  "score_candidate env t n w =
     (case GetStats (se_codec env) (se_ctx env) (se_get env) n w of
        (Inl p, w1) \<Rightarrow> (Inl p, w1)
      | (Inr (Inl err), w1) \<Rightarrow>
          (Inr (Inl (scheduler_Wrap ''scheduler.MarginalCostScheduler.Score'' (''scoring node '' @ nName n) err)), w1)
      | (Inr (Inr stats), w1) \<Rightarrow> (score_stats (se_F env) t n stats, w1))"

text \<open>The slots \<open>results\<close> and \<open>scored\<close> (here \<open>scored_flag\<close>) and what was sent on the error channel.\<close>

record slots =
  results :: "ScoredNode list"
  scored_flag :: "bool list"
  errsStream :: "go_error list"

fun run_goroutines ::
  "'w sched_env \<Rightarrow> Task \<Rightarrow> Node list \<Rightarrow> nat list \<Rightarrow> slots \<Rightarrow> 'w \<Rightarrow> panic + slots \<times> 'w" where
  "run_goroutines env t candidates [] st w = Inr (st, w)"
| "run_goroutines env t candidates (i # is) st w =
     (case score_candidate env t (candidates ! i) w of
        (Inl p, w1) \<Rightarrow> Inl p
      | (Inr (Inl err), w1) \<Rightarrow>
          run_goroutines env t candidates is (st\<lparr>errsStream := errsStream st @ [err]\<rparr>) w1
      | (Inr (Inr sn), w1) \<Rightarrow>
          run_goroutines env t candidates is
            (st\<lparr>results := (results st)[i := sn], scored_flag := (scored_flag st)[i := True]\<rparr>) w1)"

definition fresh_slots :: "nat \<Rightarrow> slots" where
  "fresh_slots n =
     \<lparr>results = replicate n \<lparr>sNode = zero_Node, sScore = Fin 0\<rparr>, scored_flag = replicate n False, errsStream = []\<rparr>"

definition compact :: "nat \<Rightarrow> slots \<Rightarrow> ScoredNode list" where
  "compact n st = map (\<lambda>i. results st ! i) (filter (\<lambda>i. scored_flag st ! i) [0..<n])"

definition MarginalCost_Score ::
  "'w sched_env \<Rightarrow> Task \<Rightarrow> Node list \<Rightarrow> 'w \<Rightarrow> panic + (go_error + ScoredNode list) \<times> 'w" where
  "MarginalCost_Score env t candidates w =
     (let n = length candidates in
      case run_goroutines env t candidates (se_order env n) (fresh_slots n) w of
        Inl p \<Rightarrow> Inl p
      | Inr (st, w1) \<Rightarrow>
          (let out = compact n st; errs = errsStream st
           in if out = [] \<and> errs \<noteq> [] then Inr (Inl (Joined errs), w1) else Inr (Inr out, w1)))"

definition MarginalCost_Pick :: "ScoredNode list \<Rightarrow> Node" where
  "MarginalCost_Pick scored = fst (lowestScoringNode scored)"

section \<open>The interface\<close>

datatype Scheduler =
    RoundRobinS RoundRobinScheduler
  | MarginalCostS MarginalCostScheduler

definition RoundRobin_name :: string where "RoundRobin_name = ''round-robin''"
definition MarginalCost_name :: string where "MarginalCost_name = ''marginal-cost''"

definition GetScheduler :: "string \<Rightarrow> go_error + Scheduler" where
  "GetScheduler schedulerType =
     (if schedulerType = MarginalCost_name then Inr (MarginalCostS \<lparr>mcName = MarginalCost_name\<rparr>)
      else if schedulerType = RoundRobin_name then Inr (RoundRobinS \<lparr>rrName = RoundRobin_name, LastWorker = 0\<rparr>)
      else Inl (Formatted (''unsupported scheduler type '' @ go_quote schedulerType @ '': want '' @
             RoundRobin_name @ '' or '' @ MarginalCost_name) None))"

primrec SelectCandidateNodes :: "Scheduler \<Rightarrow> Task \<Rightarrow> Node list \<Rightarrow> Node list" where
  "SelectCandidateNodes (RoundRobinS r) t nodes = RoundRobin_SelectCandidateNodes t nodes"
| "SelectCandidateNodes (MarginalCostS e) t nodes = MarginalCost_SelectCandidateNodes t nodes"

primrec Score ::
  "'w sched_env \<Rightarrow> Task \<Rightarrow> Node list \<Rightarrow> Scheduler \<Rightarrow> 'w \<Rightarrow>
   panic + (go_error + ScoredNode list) \<times> Scheduler \<times> 'w" where
  "Score env t nodes (RoundRobinS r) w =
     (let (scored, r') = RoundRobin_Score t nodes r in Inr (Inr scored, RoundRobinS r', w))"
| "Score env t nodes (MarginalCostS e) w =
     (case MarginalCost_Score env t nodes w of
        Inl p \<Rightarrow> Inl p
      | Inr (res, w1) \<Rightarrow> Inr (res, MarginalCostS e, w1))"

primrec Pick :: "Scheduler \<Rightarrow> ScoredNode list \<Rightarrow> Node" where
  "Pick (RoundRobinS r) scored = RoundRobin_Pick scored"
| "Pick (MarginalCostS e) scored = MarginalCost_Pick scored"

section \<open>Properties of the pure functions\<close>

lemma nextWorkerIndex_none [simp]: "nodeCount \<le> 0 \<Longrightarrow> nextWorkerIndex c nodeCount = -1"
  by (simp add: nextWorkerIndex_def)

lemma nextWorkerIndex_mod:
  assumes "0 < n" and "in64 n"
  shows "nextWorkerIndex c n = wrap64 (c + 1) mod n"
proof (cases "0 \<le> wrap64 (c + 1)")
  case True
  moreover have "0 \<le> wrap64 (c + 1) mod n" using assms(1) by simp
  ultimately show ?thesis
    using assms by (simp add: nextWorkerIndex_def go_rem_nonneg Let_def del: pos_mod_sign)
next
  case False
  let ?a = "wrap64 (c + 1)"
  have m: "0 \<le> (- ?a) mod n" "(- ?a) mod n < n" using assms by simp_all
  have am: "?a mod n = (if (- ?a) mod n = 0 then 0 else n - (- ?a) mod n)"
    using zmod_zminus1_eq_if [of "- ?a" n] by simp
  have "in64 (n - (- ?a) mod n)" using assms m by (simp add: in64_def)
  then show ?thesis
    using False assms m am by (auto simp: nextWorkerIndex_def go_rem_neg Let_def wrap64_in64)
qed

text \<open>
  The round-robin cursor is safe: for every node count and every 64-bit cursor, also a
  negative, a stale or the largest one, whose increment wraps around, the next index is a
  valid index of the nodes, and it is \<open>-1\<close> exactly when there are no nodes.
\<close>

theorem nextWorkerIndex_range:
  assumes "in64 nodeCount"
  shows "if nodeCount \<le> 0 then nextWorkerIndex lastWorker nodeCount = -1
         else 0 \<le> nextWorkerIndex lastWorker nodeCount \<and> nextWorkerIndex lastWorker nodeCount < nodeCount"
  using assms by (simp add: nextWorkerIndex_mod)

theorem nextWorkerIndex_range_witness:
  "0 \<le> nextWorkerIndex (2 ^ 63 - 1) 3 \<and> nextWorkerIndex (2 ^ 63 - 1) 3 < 3"
  using nextWorkerIndex_range [of 3 "2 ^ 63 - 1"] by (simp add: in64_def)

lemma length_scoreNodes_from [simp]: "length (scoreNodes_from i ns k) = length ns"
  by (induction ns arbitrary: i) simp_all

lemma map_sNode_scoreNodes_from [simp]: "map sNode (scoreNodes_from i ns k) = ns"
  by (induction ns arbitrary: i) simp_all

lemma map_sNode_scoreNodes [simp]: "map sNode (scoreNodes ns k) = ns"
  by (simp add: scoreNodes_def)

lemma highest_loop_past:
  "k < i \<Longrightarrow> sScore best = Fin 1 \<Longrightarrow> highest_loop best (scoreNodes_from i ns k) = best"
  by (induction ns arbitrary: i) auto

lemma highest_loop_before:
  "sScore best = Fin 0 \<Longrightarrow> i \<le> k \<Longrightarrow> k < i + int (length ns) \<Longrightarrow>
     sNode (highest_loop best (scoreNodes_from i ns k)) = ns ! nat (k - i)"
proof (induction ns arbitrary: i best)
  case (Cons n ns)
  show ?case
  proof (cases "i = k")
    case True
    with Cons.prems show ?thesis by (simp add: highest_loop_past)
  next
    case False
    with Cons.prems have "i + 1 \<le> k" "k < i + 1 + int (length ns)" by simp_all
    moreover from \<open>i + 1 \<le> k\<close> have "nat (k - i) = Suc (nat (k - (i + 1)))" by simp
    ultimately show ?thesis using False Cons by simp
  qed
qed simp

lemma highestScoringNode_scoreNodes:
  assumes "0 \<le> k" and "k < int (length ns)"
  shows "highestScoringNode (scoreNodes ns k) = (ns ! nat k, True)"
proof (cases ns)
  case (Cons n ms)
  show ?thesis
  proof (cases "k = 0")
    case True
    with Cons show ?thesis
      by (simp add: highestScoringNode_def scoreNodes_def highest_loop_past)
  next
    case False
    with assms Cons have "1 \<le> k" "k < 1 + int (length ms)" by simp_all
    moreover from this have "nat k = Suc (nat (k - 1))" by simp
    ultimately show ?thesis
      using Cons False by (simp add: highestScoringNode_def scoreNodes_def highest_loop_before)
  qed
qed (use assms in simp)

subsection \<open>The cheapest node\<close>

lemma lowest_loop_mem: "lowest_loop best ss \<in> insert best (set ss)"
  by (induction ss arbitrary: best) auto

lemma highest_loop_mem: "highest_loop best ss \<in> insert best (set ss)"
  by (induction ss arbitrary: best) auto

lemma lowest_loop_least:
  assumes "\<forall>s \<in> set (best # ss). sScore s \<noteq> NaN"
  shows "\<forall>s \<in> set (best # ss). fle (sScore (lowest_loop best ss)) (sScore s)"
  using assms
proof (induction ss arbitrary: best)
  case (Cons s ss)
  show ?case
  proof (cases "flt (sScore s) (sScore best)")
    case True
    then have sb: "fle (sScore s) (sScore best)" by (simp add: fle_def)
    have "\<forall>x \<in> set (s # ss). fle (sScore (lowest_loop s ss)) (sScore x)"
      using Cons.prems by (intro Cons.IH) simp
    with sb True show ?thesis using fle_trans by (auto intro: fle_trans)
  next
    case False
    then have bs: "fle (sScore best) (sScore s)" using Cons.prems by (simp add: not_flt_fle)
    have "\<forall>x \<in> set (best # ss). fle (sScore (lowest_loop best ss)) (sScore x)"
      using Cons.prems by (intro Cons.IH) simp
    with bs False show ?thesis by (auto intro: fle_trans)
  qed
qed auto

text \<open>The winner is the first of the cheapest: every earlier entry is strictly dearer.\<close>

lemma lowest_loop_first:
  assumes "\<forall>s \<in> set (best # ss). sScore s \<noteq> NaN"
  shows "\<exists>pre post. best # ss = pre @ lowest_loop best ss # post \<and>
    (\<forall>s \<in> set pre. flt (sScore (lowest_loop best ss)) (sScore s))"
  using assms
proof (induction ss arbitrary: best)
  case (Cons s ss)
  show ?case
  proof (cases "flt (sScore s) (sScore best)")
    case True
    obtain pre post where p: "s # ss = pre @ lowest_loop s ss # post"
      "\<forall>x \<in> set pre. flt (sScore (lowest_loop s ss)) (sScore x)"
      using Cons.IH [of s] Cons.prems by auto
    have "fle (sScore (lowest_loop s ss)) (sScore s)"
      using lowest_loop_least [of s ss] Cons.prems by simp
    with True have "flt (sScore (lowest_loop s ss)) (sScore best)"
      by (auto simp: fle_def dest: flt_trans)
    moreover have "lowest_loop best (s # ss) = lowest_loop s ss" using True by simp
    ultimately show ?thesis using p by (metis append_Cons set_ConsD)
  next
    case False
    obtain pre post where p: "best # ss = pre @ lowest_loop best ss # post"
      "\<forall>x \<in> set pre. flt (sScore (lowest_loop best ss)) (sScore x)"
      using Cons.IH [of best] Cons.prems by auto
    show ?thesis
    proof (cases pre)
      case Nil
      then have "lowest_loop best (s # ss) = best" using p(1) False
        by (metis append_Nil list.inject lowest_loop.simps(2))
      then show ?thesis by (metis append_Nil empty_iff list.set(1))
    next
      case (Cons b pre')
      then have b: "b = best" using p(1) by simp
      have bs: "fle (sScore best) (sScore s)" using False Cons.prems by (simp add: not_flt_fle)
      then have "flt (sScore (lowest_loop best ss)) (sScore s)"
        using p(2) Cons b by (auto simp: fle_def dest: flt_trans)
      moreover have "lowest_loop best (s # ss) = lowest_loop best ss" using False by simp
      moreover have "ss = pre' @ lowest_loop best ss # post" using p(1) Cons by (metis append_Cons list.inject)
      ultimately show ?thesis using p(2) Cons b by (metis append_Cons list.set_intros set_ConsD)
    qed
  qed
next
  case Nil
  then show ?case by (metis append_Nil empty_iff list.set(1) lowest_loop.simps(1))
qed

text \<open>
  Marginal cost picks the first of the cheapest candidates: when no score is a
  not-a-number, the picked node's score is at most every other, and every entry before the
  picked one costs strictly more.
\<close>

theorem MarginalCost_Pick_cheapest:
  assumes "scored \<noteq> []" and "\<forall>s \<in> set scored. sScore s \<noteq> NaN"
  shows "\<exists>pre s post. scored = pre @ s # post \<and> MarginalCost_Pick scored = sNode s \<and>
    (\<forall>x \<in> set scored. fle (sScore s) (sScore x)) \<and> (\<forall>x \<in> set pre. flt (sScore s) (sScore x))"
proof -
  obtain b ss where sc: "scored = b # ss" using assms(1) by (cases scored) auto
  obtain pre post where p: "b # ss = pre @ lowest_loop b ss # post"
      "\<forall>x \<in> set pre. flt (sScore (lowest_loop b ss)) (sScore x)"
    using lowest_loop_first assms(2) sc by blast
  moreover have "\<forall>x \<in> set scored. fle (sScore (lowest_loop b ss)) (sScore x)"
    using lowest_loop_least assms(2) sc by blast
  ultimately show ?thesis
    using sc by (metis (no_types, lifting) MarginalCost_Pick_def fst_conv list.simps(5) lowestScoringNode_def)
qed

text \<open>
  A not-a-number score does not drop out of the comparison: when the first entry's
  score is one, that entry is picked whatever the others cost.
\<close>

theorem MarginalCost_Pick_NaN_first_wins:
  assumes "sScore s = NaN"
  shows "MarginalCost_Pick (s # ss) = sNode s"
proof -
  have "lowest_loop s ss = s" by (induction ss) (simp_all add: assms)
  then show ?thesis by (simp add: MarginalCost_Pick_def lowestScoringNode_def)
qed

theorem MarginalCost_Pick_witness:
  "\<exists>pre s post. [\<lparr>sNode = zero_Node, sScore = Fin 2\<rparr>, \<lparr>sNode = zero_Node, sScore = Fin 1\<rparr>] = pre @ s # post \<and>
    MarginalCost_Pick [\<lparr>sNode = zero_Node, sScore = Fin 2\<rparr>, \<lparr>sNode = zero_Node, sScore = Fin 1\<rparr>] = sNode s \<and>
    (\<forall>x \<in> set [\<lparr>sNode = zero_Node, sScore = Fin 2\<rparr>, \<lparr>sNode = zero_Node, sScore = Fin 1\<rparr>].
       fle (sScore s) (sScore x)) \<and> (\<forall>x \<in> set pre. flt (sScore s) (sScore x))"
  by (rule MarginalCost_Pick_cheapest) simp_all

theorem MarginalCost_Pick_NaN_witness:
  "MarginalCost_Pick [\<lparr>sNode = NewNode ''bad'' ''b'' ''worker'', sScore = NaN\<rparr>, \<lparr>sNode = NewNode ''good'' ''g'' ''worker'', sScore = Fin 0\<rparr>] =
   NewNode ''bad'' ''b'' ''worker''"
  using MarginalCost_Pick_NaN_first_wins [of "\<lparr>sNode = NewNode ''bad'' ''b'' ''worker'', sScore = NaN\<rparr>"] by simp

end
