(* ===== verification/Orch_Scheduling.thy ===== *)
theory Orch_Scheduling
  imports Orch_Scheduler
begin

text \<open>
  What the two schedulers promise: the rotation of round robin, the fan-out of the
  marginal-cost scheduler, the shape of its cost function, and the contract of the
  scheduler interface with its interpretations.
\<close>

section \<open>Round robin visits every node\<close>

primrec RoundRobin_picks :: "nat \<Rightarrow> Task \<Rightarrow> Node list \<Rightarrow> RoundRobinScheduler \<Rightarrow> Node list" where
  "RoundRobin_picks 0 t nodes r = []"
| "RoundRobin_picks (Suc k) t nodes r =
     (let (scored, r') = RoundRobin_Score t nodes r
      in RoundRobin_Pick scored # RoundRobin_picks k t nodes r')"

lemma RoundRobin_Score_eq:
  fixes r :: RoundRobinScheduler
  assumes "nodes \<noteq> []" and "in64 (int (length nodes))"
  defines "j \<equiv> nextWorkerIndex (LastWorker r) (int (length nodes))"
  shows "RoundRobin_Score t nodes r = (scoreNodes nodes j, r\<lparr>LastWorker := j\<rparr>)"
    and "RoundRobin_Pick (scoreNodes nodes j) = nodes ! nat j"
    and "0 \<le> j" and "j < int (length nodes)"
proof -
  show j: "0 \<le> j" "j < int (length nodes)"
    using assms(1,2) by (simp_all add: j_def nextWorkerIndex_mod)
  then show "RoundRobin_Score t nodes r = (scoreNodes nodes j, r\<lparr>LastWorker := j\<rparr>)"
    unfolding j_def by (simp add: RoundRobin_Score_def Let_def)
  show "RoundRobin_Pick (scoreNodes nodes j) = nodes ! nat j"
    using j by (simp add: RoundRobin_Pick_def highestScoringNode_scoreNodes)
qed

lemma nextWorkerIndex_Suc:
  assumes "0 \<le> c" and "c < n" and "in64 n"
  shows "nextWorkerIndex c n = (c + 1) mod n"
proof -
  have "in64 (c + 1)" using assms by (simp add: in64_def)
  then show ?thesis using assms by (simp add: nextWorkerIndex_mod wrap64_in64)
qed

lemma RoundRobin_picks_nth:
  assumes "nodes \<noteq> []" and "in64 (int (length nodes))"
  shows "RoundRobin_picks k t nodes r =
    map (\<lambda>i. nodes ! ((nat (nextWorkerIndex (LastWorker r) (int (length nodes))) + i) mod length nodes)) [0..<k]"
proof (induction k arbitrary: r)
  case (Suc k)
  let ?n = "int (length nodes)"
  let ?j = "nextWorkerIndex (LastWorker r) ?n"
  note S1 = RoundRobin_Score_eq(1) [OF assms, where r = r and t = t]
  note S = S1 RoundRobin_Score_eq(2-4) [OF assms, where r = r]
  have "nextWorkerIndex ?j ?n = (?j + 1) mod ?n"
    using S(3,4) assms(2) by (rule nextWorkerIndex_Suc)
  then have nj: "nat (nextWorkerIndex ?j ?n) = (nat ?j + 1) mod length nodes"
    using S(3) by (simp add: nat_mod_distrib nat_add_distrib)
  have "RoundRobin_picks (Suc k) t nodes r =
      nodes ! nat ?j # map (\<lambda>i. nodes ! (((nat ?j + 1) mod length nodes + i) mod length nodes)) [0..<k]"
    using S(1,2) Suc [of "r\<lparr>LastWorker := ?j\<rparr>"] nj by simp
  also have "\<dots> = map (\<lambda>i. nodes ! ((nat ?j + i) mod length nodes)) [0..<Suc k]"
    using S(3,4) by (simp add: map_upt_Suc mod_simps del: upt_Suc)
  finally show ?case .
qed simp

text \<open>
  C35. Round robin is fair: from any 64-bit cursor, as many consecutive placements as there
  are nodes pick the nodes in order, each exactly once, starting after the cursor.
\<close>

theorem RoundRobin_fair:
  assumes "nodes \<noteq> []" and "in64 (int (length nodes))"
  shows "RoundRobin_picks (length nodes) t nodes r =
    rotate (nat (nextWorkerIndex (LastWorker r) (int (length nodes)))) nodes"
  unfolding RoundRobin_picks_nth [OF assms]
  by (rule nth_equalityI) (simp_all add: nth_rotate)

theorem RoundRobin_fair_witness:
  "RoundRobin_picks 2 zero_Task [NewNode ''a'' ''x'' ''worker'', NewNode ''b'' ''y'' ''worker''] \<lparr>rrName = ''r'', LastWorker = 0\<rparr> =
   [NewNode ''b'' ''y'' ''worker'', NewNode ''a'' ''x'' ''worker'']"
  using RoundRobin_fair [of "[NewNode ''a'' ''x'' ''worker'', NewNode ''b'' ''y'' ''worker'']" zero_Task "\<lparr>rrName = ''r'', LastWorker = 0\<rparr>"]
  by (simp add: in64_def nextWorkerIndex_Suc numeral_2_eq_2 rotate1_def)

section \<open>The fan-out of the marginal-cost scheduler\<close>

lemma score_stats_node: "score_stats F t n stats = Inr (Inr sn) \<Longrightarrow> sNode sn = n"
  by (auto simp: score_stats_def Let_def split: sum.splits)

lemma score_candidate_success:
  assumes "fst (score_candidate env t n w) = Inr (Inr sn)"
  shows "sNode sn = n \<and> (\<exists>stats. fst (GetStats (se_codec env) (se_ctx env) (se_get env) n w) = Inr (Inr stats) \<and>
           score_stats (se_F env) t n stats = Inr (Inr sn))"
  using assms by (auto simp: score_candidate_def split: prod.splits sum.splits dest: score_stats_node)

definition successes :: "(nat \<Rightarrow> go_error + ScoredNode) \<Rightarrow> nat list \<Rightarrow> ScoredNode list" where
  "successes out is = concat (map (\<lambda>i. case out i of Inl _ \<Rightarrow> [] | Inr sn \<Rightarrow> [sn]) is)"

definition failures :: "(nat \<Rightarrow> go_error + ScoredNode) \<Rightarrow> nat list \<Rightarrow> go_error list" where
  "failures out is = concat (map (\<lambda>i. case out i of Inl e \<Rightarrow> [e] | Inr _ \<Rightarrow> []) is)"

lemma successes_failures_length: "length (successes out is) + length (failures out is) = length is"
  by (induction "is") (auto simp: successes_def failures_def split: sum.splits)

lemma set_failures: "e \<in> set (failures out is) \<longleftrightarrow> (\<exists>i \<in> set is. out i = Inl e)"
  by (induction "is") (auto simp: failures_def split: sum.splits)

lemma set_successes: "sn \<in> set (successes out is) \<longleftrightarrow> (\<exists>i \<in> set is. out i = Inr sn)"
  by (induction "is") (auto simp: successes_def split: sum.splits)

lemma successes_failures_cong:
  assumes "\<And>i. i \<in> set is \<Longrightarrow> out i = out' i"
  shows "successes out is = successes out' is" and "failures out is = failures out' is"
  using assms by (auto simp: successes_def failures_def intro!: arg_cong [where f = concat])

text \<open>
  What the slots hold after the goroutines of \<open>is\<close> have run: each one's outcome, at its
  own index, whatever the order.
\<close>

lemma run_goroutines_slots:
  assumes "run_goroutines env t cands is st w = Inr (st', w')" and "distinct is"
    and "length (results st) = n" and "length (scored_flag st) = n" and "set is \<subseteq> {..<n}"
  shows "\<exists>ws out. (\<forall>i \<in> set is. fst (score_candidate env t (cands ! i) (ws i)) = Inr (out i)) \<and>
    errsStream st' = errsStream st @ failures out is \<and>
    (\<forall>i < n. if i \<in> set is
       then (case out i of Inl _ \<Rightarrow> scored_flag st' ! i = scored_flag st ! i
             | Inr sn \<Rightarrow> scored_flag st' ! i \<and> results st' ! i = sn)
       else scored_flag st' ! i = scored_flag st ! i \<and> results st' ! i = results st ! i)"
  using assms
proof (induction "is" arbitrary: st w)
  case Nil
  then show ?case by (simp add: failures_def)
next
  case (Cons i "is")
  obtain r w1 where sc: "score_candidate env t (cands ! i) w = (r, w1)" by (cases "score_candidate env t (cands ! i) w")
  with Cons.prems(1) obtain o1 where r: "r = Inr o1" by (cases r) auto
  define st1 where "st1 = (case o1 of Inl e \<Rightarrow> st\<lparr>errsStream := errsStream st @ [e]\<rparr>
     | Inr sn \<Rightarrow> st\<lparr>results := (results st)[i := sn], scored_flag := (scored_flag st)[i := True]\<rparr>)"
  have run: "run_goroutines env t cands is st1 w1 = Inr (st', w')"
    using Cons.prems(1) sc r by (cases o1) (auto simp: st1_def)
  have st1: "length (results st1) = n" "length (scored_flag st1) = n"
    using Cons.prems(3,4) by (auto simp: st1_def split: sum.splits)
  have i: "i \<notin> set is" "i < n" "distinct is" "set is \<subseteq> {..<n}" using Cons.prems(2,5) by auto
  obtain ws out where IH: "\<forall>k \<in> set is. fst (score_candidate env t (cands ! k) (ws k)) = Inr (out k)"
      "errsStream st' = errsStream st1 @ failures out is"
      "\<forall>k < n. if k \<in> set is
         then (case out k of Inl _ \<Rightarrow> scored_flag st' ! k = scored_flag st1 ! k
               | Inr sn \<Rightarrow> scored_flag st' ! k \<and> results st' ! k = sn)
         else scored_flag st' ! k = scored_flag st1 ! k \<and> results st' ! k = results st1 ! k"
    using Cons.IH [OF run i(3) st1 i(4)] by blast
  let ?out = "out(i := o1)" and ?ws = "ws(i := w)"
  have f: "failures ?out is = failures out is"
    using i(1) by (intro successes_failures_cong) auto
  have "errsStream st' = errsStream st @ failures ?out (i # is)"
    using IH(2) f by (auto simp: st1_def failures_def split: sum.splits)
  moreover have "\<forall>k \<in> set (i # is). fst (score_candidate env t (cands ! k) (?ws k)) = Inr (?out k)"
    using IH(1) sc r by auto
  moreover have "if k \<in> set (i # is)
       then (case ?out k of Inl _ \<Rightarrow> scored_flag st' ! k = scored_flag st ! k
             | Inr sn \<Rightarrow> scored_flag st' ! k \<and> results st' ! k = sn)
       else scored_flag st' ! k = scored_flag st ! k \<and> results st' ! k = results st ! k" if "k < n" for k
    using IH(3) [rule_format, OF that] i(1,2) Cons.prems(3,4)
    by (cases "k = i"; cases o1) (auto simp: st1_def nth_list_update split: sum.splits if_splits)
  ultimately show ?case by blast
qed

lemma compact_successes:
  assumes "\<forall>i < n. case out i of Inl _ \<Rightarrow> \<not> scored_flag st ! i
      | Inr sn \<Rightarrow> scored_flag st ! i \<and> results st ! i = sn"
  shows "compact n st = successes out [0..<n]"
proof -
  have "map (\<lambda>i. results st ! i) (filter (\<lambda>i. scored_flag st ! i) is) = successes out is"
    if "set is \<subseteq> {..<n}" for "is"
    using that
  proof (induction "is")
    case (Cons i "is")
    then have "i < n" by simp
    with assms Cons show ?case
      by (cases "out i") (force simp: successes_def)+
  qed (simp add: successes_def)
  then show ?thesis by (simp add: compact_def atLeast0LessThan lessThan_def subset_eq)
qed

lemma MarginalCost_Score_outcomes:
  assumes "completion_order (se_order env)"
    and "MarginalCost_Score env t cands w = Inr (r, w')"
  shows "\<exists>ws out. (\<forall>i < length cands. fst (score_candidate env t (cands ! i) (ws i)) = Inr (out i)) \<and>
    (if successes out [0..<length cands] = [] \<and> cands \<noteq> []
     then \<exists>errs. r = Inl (Joined errs) \<and> length errs = length cands \<and> set errs = {e. \<exists>i < length cands. out i = Inl e}
     else r = Inr (successes out [0..<length cands]))"
proof -
  let ?n = "length cands" and ?is = "se_order env (length cands)"
  have ord: "distinct ?is" "set ?is = {..<?n}" using assms(1) by (simp_all add: completion_order_def)
  obtain st where run: "run_goroutines env t cands ?is (fresh_slots ?n) w = Inr (st, w')"
    and r: "r = (if compact ?n st = [] \<and> errsStream st \<noteq> [] then Inl (Joined (errsStream st)) else Inr (compact ?n st))"
    using assms(2) by (auto simp: MarginalCost_Score_def Let_def split: sum.splits if_splits)
  obtain ws out where W: "\<forall>i \<in> set ?is. fst (score_candidate env t (cands ! i) (ws i)) = Inr (out i)"
      "errsStream st = errsStream (fresh_slots ?n) @ failures out ?is"
      "\<forall>i < ?n. if i \<in> set ?is
         then (case out i of Inl _ \<Rightarrow> scored_flag st ! i = scored_flag (fresh_slots ?n) ! i
               | Inr sn \<Rightarrow> scored_flag st ! i \<and> results st ! i = sn)
         else scored_flag st ! i = scored_flag (fresh_slots ?n) ! i \<and> results st ! i = results (fresh_slots ?n) ! i"
    using run_goroutines_slots [OF run ord(1), of ?n] ord(2) by (auto simp: fresh_slots_def)
  have out: "compact ?n st = successes out [0..<?n]"
    using W(3) ord(2) by (intro compact_successes) (auto simp: fresh_slots_def split: sum.splits)
  have errs: "errsStream st = failures out ?is" using W(2) by (simp add: fresh_slots_def)
  have "length ?is = ?n" using ord by (metis card_lessThan distinct_card)
  moreover have "successes out ?is = [] \<longleftrightarrow> successes out [0..<?n] = []"
    using set_successes [of _ out] ord(2)
    by (metis atLeast_upt list.set_intros(1) empty_iff list.exhaust list.set(1))
  moreover have "set (failures out ?is) = {e. \<exists>i < ?n. out i = Inl e}"
    using ord(2) by (simp add: set_eq_iff set_failures Bex_def)
  moreover have "length (successes out ?is) + length (failures out ?is) = length ?is"
    by (rule successes_failures_length)
  ultimately have "if successes out [0..<?n] = [] \<and> cands \<noteq> []
     then \<exists>errs. r = Inl (Joined errs) \<and> length errs = ?n \<and> set errs = {e. \<exists>i < ?n. out i = Inl e}
     else r = Inr (successes out [0..<?n])"
    unfolding r out errs by (cases "successes out [0..<?n] = []"; cases "cands = []") auto
  moreover have "\<forall>i < ?n. fst (score_candidate env t (cands ! i) (ws i)) = Inr (out i)"
    using W(1) ord(2) by simp
  ultimately show ?thesis by blast
qed

lemma MarginalCost_Score_success:
  assumes "completion_order (se_order env)"
    and "MarginalCost_Score env t cands w = Inr (Inr scored, w')"
  shows "\<exists>ws out. (\<forall>i < length cands. fst (score_candidate env t (cands ! i) (ws i)) = Inr (out i)) \<and>
    scored = successes out [0..<length cands]"
proof -
  obtain ws out where W: "\<forall>i < length cands. fst (score_candidate env t (cands ! i) (ws i)) = Inr (out i)"
    and I: "if successes out [0..<length cands] = [] \<and> cands \<noteq> []
     then \<exists>errs. Inr scored = Inl (Joined errs) \<and> length errs = length cands \<and>
       set errs = {e. \<exists>i < length cands. out i = Inl e}
     else (Inr scored :: go_error + ScoredNode list) = Inr (successes out [0..<length cands])"
    using MarginalCost_Score_outcomes [OF assms] by blast
  have "scored = successes out [0..<length cands]"
  proof (cases "successes out [0..<length cands] = [] \<and> cands \<noteq> []")
    case True
    with I show ?thesis by simp
  next
    case False
    with I show ?thesis by (simp only: if_False sum.inject)
  qed
  with W show ?thesis by blast
qed

text \<open>
  C25. The fan-out does not depend on the order in which the goroutines finish: the result
  lists, in candidate order, exactly the candidates whose own goroutine produced a score,
  each with that score; one failing candidate removes only itself. Scoring fails only when
  there are candidates and every one of them failed, and then it reports one error for
  each, so the channel with one place per candidate never blocks a sender.
\<close>

theorem MarginalCost_Score_fanout:
  assumes "completion_order (se_order env)"
    and "MarginalCost_Score env t cands w = Inr (r, w')"
  shows "\<exists>ws out. (\<forall>i < length cands. fst (score_candidate env t (cands ! i) (ws i)) = Inr (out i)) \<and>
    (if successes out [0..<length cands] = [] \<and> cands \<noteq> []
     then \<exists>errs. r = Inl (Joined errs) \<and> length errs = length cands \<and> set errs = {e. \<exists>i < length cands. out i = Inl e}
     else r = Inr (successes out [0..<length cands]))"
  using assms by (rule MarginalCost_Score_outcomes)

text \<open>A network of fixed replies, by URL, for concrete runs.\<close>

definition fixed_codec :: "Stats \<Rightarrow> codec" where
  "fixed_codec stats =
     \<lparr>decode_Stats = (\<lambda>b. if b = ''stats'' then Inr stats else Inr zero_Stats),
      decode_Error = (\<lambda>b. Inr \<lparr>erMessage = b, erCode = 0\<rparr>),
      decode_Task = (\<lambda>b. Inr zero_Task), decode_Tasks = (\<lambda>b. Inr []),
      encode_TaskEvent = (\<lambda>te. Inr ''event'')\<rparr>"

definition fixed_env :: "Stats \<Rightarrow> (string \<Rightarrow> go_error + Response) \<Rightarrow> unit sched_env" where
  "fixed_env stats answer =
     \<lparr>se_F = exact LIEB, se_codec = fixed_codec stats, se_ctx = live_context,
      se_get = (\<lambda>url w. (answer url, w)), se_order = (\<lambda>n. rev [0..<n])\<rparr>"

lemma completion_order_rev: "completion_order (\<lambda>n. rev [0..<n])"
  by (auto simp: completion_order_def)

definition sample_stats :: Stats where
  "sample_stats = zero_Stats\<lparr>MemStats := Some \<lparr>vmTotal = 100, vmAvailable = 100\<rparr>\<rparr>"

definition down_node :: Node where "down_node = NewNode ''down'' ''d'' ''worker''"
definition up_node :: Node where "up_node = NewNode ''up'' ''u'' ''worker''"

definition up_answer :: "string \<Rightarrow> go_error + Response" where
  "up_answer url = (if url = ''u/stats'' then Inr \<lparr>StatusCode = 200, Body = ''stats''\<rparr> else Inl (External ''refused''))"

lemmas sample_defs =
  fixed_env_def fixed_codec_def sample_stats_def down_node_def up_node_def up_answer_def NewNode_def
  zero_Node_def zero_Stats_def statsURL_def live_context_def status_defs

lemma score_down: "fst (score_candidate (fixed_env sample_stats up_answer) zero_Task down_node w) =
    Inr (Inl (scheduler_Wrap ''scheduler.MarginalCostScheduler.Score'' ''scoring node down''
      (node_E ''node.Node.GetStats'' ''connecting to node down'' (Some (External ''refused'')))))"
  by (simp add: score_candidate_def GetStats_def sample_defs numeral_3_eq_3)

lemma score_up: "\<exists>x. fst (score_candidate (fixed_env sample_stats up_answer) zero_Task up_node w) =
    Inr (Inr \<lparr>sNode = up_node, sScore = x\<rparr>)"
  by (simp add: score_candidate_def GetStats_def score_stats_def nodeScore_def f64_of_int_def
      MemUsedKb_def MemTotalKb_def sample_defs numeral_3_eq_3)

lemma MarginalCost_Score_sample:
  "\<exists>x. MarginalCost_Score (fixed_env sample_stats up_answer) zero_Task [down_node, up_node] () =
     Inr (Inr [\<lparr>sNode = up_node, sScore = x\<rparr>], ())"
proof -
  obtain x where "fst (score_candidate (fixed_env sample_stats up_answer) zero_Task up_node ()) =
      Inr (Inr \<lparr>sNode = up_node, sScore = x\<rparr>)" using score_up by blast
  then have u: "score_candidate (fixed_env sample_stats up_answer) zero_Task up_node () =
      (Inr (Inr \<lparr>sNode = up_node, sScore = x\<rparr>), ())"
    by (cases "score_candidate (fixed_env sample_stats up_answer) zero_Task up_node ()") simp
  obtain e where d: "score_candidate (fixed_env sample_stats up_answer) zero_Task down_node () = (Inr (Inl e), ())"
    using score_down [of "()"]
    by (cases "score_candidate (fixed_env sample_stats up_answer) zero_Task down_node ()") simp
  have ord: "se_order (fixed_env sample_stats up_answer) (length [down_node, up_node]) = [1, 0]"
    by (simp add: fixed_env_def upt_rec)
  show ?thesis
    unfolding MarginalCost_Score_def ord Let_def
    using u d by (simp add: fresh_slots_def compact_def upt_rec)
qed

theorem MarginalCost_Score_fanout_witness:
  "\<exists>ws out. (\<forall>i < length [down_node, up_node].
      fst (score_candidate (fixed_env sample_stats up_answer) zero_Task ([down_node, up_node] ! i) (ws i)) = Inr (out i)) \<and>
    (\<exists>x. successes out [0..<length [down_node, up_node]] = [\<lparr>sNode = up_node, sScore = x\<rparr>])"
proof -
  obtain x where s: "MarginalCost_Score (fixed_env sample_stats up_answer) zero_Task [down_node, up_node] () =
     Inr (Inr [\<lparr>sNode = up_node, sScore = x\<rparr>], ())" using MarginalCost_Score_sample by blast
  have "completion_order (se_order (fixed_env sample_stats up_answer))"
    by (simp add: fixed_env_def completion_order_rev)
  from MarginalCost_Score_fanout [OF this s] obtain ws out
    where W: "\<forall>i < length [down_node, up_node]. fst (score_candidate (fixed_env sample_stats up_answer) zero_Task
        ([down_node, up_node] ! i) (ws i)) = Inr (out i)"
      and I: "if successes out [0..<length [down_node, up_node]] = [] \<and> [down_node, up_node] \<noteq> []
        then \<exists>errs. Inr [\<lparr>sNode = up_node, sScore = x\<rparr>] = Inl (Joined errs) \<and> length errs = length [down_node, up_node] \<and>
          set errs = {e. \<exists>i < length [down_node, up_node]. out i = Inl e}
        else (Inr [\<lparr>sNode = up_node, sScore = x\<rparr>] :: go_error + ScoredNode list) = Inr (successes out [0..<length [down_node, up_node]])"
    by blast
  from I have "successes out [0..<length [down_node, up_node]] = [\<lparr>sNode = up_node, sScore = x\<rparr>]"
    by (cases "successes out [0..<length [down_node, up_node]] = []") simp_all
  with W show ?thesis by blast
qed

section \<open>Only nodes that answered are picked\<close>

lemma MarginalCost_Pick_mem: "scored \<noteq> [] \<Longrightarrow> MarginalCost_Pick scored \<in> sNode ` set scored"
  using lowest_loop_mem
  by (cases scored) (force simp: MarginalCost_Pick_def lowestScoringNode_def)+

lemma RoundRobin_Pick_mem: "scored \<noteq> [] \<Longrightarrow> RoundRobin_Pick scored \<in> sNode ` set scored"
  using highest_loop_mem
  by (cases scored) (force simp: RoundRobin_Pick_def highestScoringNode_def)+

text \<open>
  The marginal-cost scheduler never places a task on a node it could not reach: the
  node it picks is a candidate whose statistics were fetched and decoded in this very
  scoring pass.
\<close>

theorem MarginalCost_picks_reachable:
  assumes "completion_order (se_order env)"
    and "MarginalCost_Score env t cands w = Inr (Inr scored, w')" and "scored \<noteq> []"
  shows "\<exists>w1 stats. MarginalCost_Pick scored \<in> set cands \<and>
    fst (GetStats (se_codec env) (se_ctx env) (se_get env) (MarginalCost_Pick scored) w1) = Inr (Inr stats)"
proof -
  obtain ws out where W: "\<forall>i < length cands. fst (score_candidate env t (cands ! i) (ws i)) = Inr (out i)"
    and sc: "scored = successes out [0..<length cands]"
    using MarginalCost_Score_success [OF assms(1,2)] by blast
  obtain sn where sn: "sn \<in> set scored" "MarginalCost_Pick scored = sNode sn"
    using MarginalCost_Pick_mem [OF assms(3)] by auto
  then obtain i where i: "i < length cands" "out i = Inr sn"
    using sc by (auto simp: set_successes)
  then have "fst (score_candidate env t (cands ! i) (ws i)) = Inr (Inr sn)" using W by simp
  from score_candidate_success [OF this] i(1) sn(2) show ?thesis by auto
qed

theorem MarginalCost_picks_reachable_witness:
  "\<exists>x (w1 :: unit) stats. MarginalCost_Pick [\<lparr>sNode = up_node, sScore = x\<rparr>] \<in> set [down_node, up_node] \<and>
    fst (GetStats (fixed_codec sample_stats) live_context (\<lambda>url w. (up_answer url, w))
      (MarginalCost_Pick [\<lparr>sNode = up_node, sScore = x\<rparr>]) w1) = Inr (Inr stats)"
proof -
  obtain x where s: "MarginalCost_Score (fixed_env sample_stats up_answer) zero_Task [down_node, up_node] () =
     Inr (Inr [\<lparr>sNode = up_node, sScore = x\<rparr>], ())" using MarginalCost_Score_sample by blast
  have "completion_order (se_order (fixed_env sample_stats up_answer))"
    by (simp add: fixed_env_def completion_order_rev)
  from MarginalCost_picks_reachable [OF this s] have "\<exists>(w1 :: unit) stats.
      MarginalCost_Pick [\<lparr>sNode = up_node, sScore = x\<rparr>] \<in> set [down_node, up_node] \<and>
      fst (GetStats (fixed_codec sample_stats) live_context (\<lambda>url w. (up_answer url, w))
        (MarginalCost_Pick [\<lparr>sNode = up_node, sScore = x\<rparr>]) w1) = Inr (Inr stats)"
    unfolding fixed_env_def by simp
  then show ?thesis by blast
qed

section \<open>Panics of the fan-out\<close>

lemma score_candidate_no_panic:
  assumes "\<And>stats. fst (GetStats (se_codec env) (se_ctx env) (se_get env) n w) = Inr (Inr stats) \<Longrightarrow> MemStats stats \<noteq> None"
  shows "\<exists>r. fst (score_candidate env t n w) = Inr r"
proof -
  let ?g = "GetStats (se_codec env) (se_ctx env) (se_get env) n w"
  obtain r where r: "fst ?g = Inr r" using GetStats_outcome [of "se_codec env" "se_ctx env" "se_get env" n w] by blast
  show ?thesis
  proof (cases r)
    case (Inl e)
    with r show ?thesis by (cases ?g) (simp add: score_candidate_def)
  next
    case (Inr stats)
    then obtain m where "MemStats stats = Some m" using r assms by blast
    then have "\<exists>x. score_stats (se_F env) t n stats = Inr x"
      by (auto simp: score_stats_def MemUsedKb_def MemTotalKb_def Let_def split: sum.splits)
    with r Inr show ?thesis by (cases ?g) (simp add: score_candidate_def)
  qed
qed

text \<open>\<open>P\<close> is what the scoring of one candidate needs of the world and leaves in place.\<close>

lemma run_goroutines_no_panic:
  assumes "\<And>i w. i \<in> set is \<Longrightarrow> P w \<Longrightarrow>
      (\<exists>r. fst (score_candidate env t (cands ! i) w) = Inr r) \<and> P (snd (score_candidate env t (cands ! i) w))"
    and "P w"
  shows "\<exists>r. run_goroutines env t cands is st w = Inr r"
  using assms
proof (induction "is" arbitrary: st w)
  case (Cons i "is")
  from Cons.prems(1) [of i w] Cons.prems(2) obtain r w' where
    "score_candidate env t (cands ! i) w = (Inr r, w')" "P w'" by (cases "score_candidate env t (cands ! i) w") auto
  with Cons.IH [of w'] Cons.prems(1) show ?case by (cases r) auto
qed simp

lemma MarginalCost_Score_no_panic:
  assumes "\<And>i w. i \<in> set (se_order env (length cands)) \<Longrightarrow> P w \<Longrightarrow>
      (\<exists>r. fst (score_candidate env t (cands ! i) w) = Inr r) \<and> P (snd (score_candidate env t (cands ! i) w))"
    and "P w"
  shows "\<exists>r. MarginalCost_Score env t cands w = Inr r"
  using run_goroutines_no_panic [of "se_order env (length cands)" P env t cands w "fresh_slots (length cands)"] assms
  by (auto simp: MarginalCost_Score_def Let_def)

text \<open>
  C36. Scoring brings the manager down exactly through a statistics document without memory
  statistics: if every document that decodes has them, no scoring pass panics; and a
  candidate whose reply decodes without them panics the pass when its goroutine runs first.
\<close>

theorem MarginalCost_Score_panic:
  "((\<forall>b stats. decode_Stats (se_codec env) b = Inr stats \<longrightarrow> MemStats stats \<noteq> None) \<longrightarrow>
      (\<exists>r. MarginalCost_Score env t cands w = Inr r)) \<and>
   (se_order env (length cands) = i # is \<and>
    fst (GetStats (se_codec env) (se_ctx env) (se_get env) (cands ! i) w) = Inr (Inr stats) \<and>
    MemStats stats = None \<longrightarrow>
      MarginalCost_Score env t cands w = Inl NilDereference)"
proof (intro conjI impI)
  assume "\<forall>b stats. decode_Stats (se_codec env) b = Inr stats \<longrightarrow> MemStats stats \<noteq> None"
  then have "\<exists>r. fst (score_candidate env t n v) = Inr r" for n v
    using GetStats_outcome [of "se_codec env" "se_ctx env" "se_get env" n v] by (intro score_candidate_no_panic) blast
  then show "\<exists>r. MarginalCost_Score env t cands w = Inr r"
    by (intro MarginalCost_Score_no_panic [where P = "\<lambda>_. True"]) simp_all
next
  assume a: "se_order env (length cands) = i # is \<and>
    fst (GetStats (se_codec env) (se_ctx env) (se_get env) (cands ! i) w) = Inr (Inr stats) \<and>
    MemStats stats = None"
  then have "fst (score_candidate env t (cands ! i) w) = Inl NilDereference"
    by (cases "GetStats (se_codec env) (se_ctx env) (se_get env) (cands ! i) w")
      (simp add: score_candidate_def score_stats_def MemUsedKb_def)
  with a show "MarginalCost_Score env t cands w = Inl NilDereference"
    by (cases "score_candidate env t (cands ! i) w") (simp add: MarginalCost_Score_def Let_def)
qed

theorem MarginalCost_Score_panic_witness:
  "MarginalCost_Score (fixed_env zero_Stats up_answer) zero_Task [up_node] () = Inl NilDereference"
proof -
  have "fst (GetStats (se_codec (fixed_env zero_Stats up_answer)) (se_ctx (fixed_env zero_Stats up_answer))
      (se_get (fixed_env zero_Stats up_answer)) ([up_node] ! 0) ()) = Inr (Inr zero_Stats)"
    by (simp add: GetStats_def sample_defs numeral_3_eq_3)
  then show ?thesis
    using MarginalCost_Score_panic [of "fixed_env zero_Stats up_answer" zero_Task "[up_node]" "()" 0 "[]" zero_Stats]
    by (simp add: fixed_env_def zero_Stats_def)
qed

section \<open>The contract of the interface\<close>

text \<open>
  What the manager relies on: the candidates are a subsequence of the nodes, the scored
  nodes are a subsequence of what was to be scored, and the pick is one of the scored.
\<close>

lemma subseq_set: "subseq xs ys \<Longrightarrow> set xs \<subseteq> set ys"
  by (induction rule: list_emb.induct) auto

locale scheduler_contract =
  fixes select :: "'s \<Rightarrow> Task \<Rightarrow> Node list \<Rightarrow> Node list"
    and score :: "Task \<Rightarrow> Node list \<Rightarrow> 's \<Rightarrow> 'w \<Rightarrow> panic + (go_error + ScoredNode list) \<times> 's \<times> 'w"
    and pick :: "'s \<Rightarrow> ScoredNode list \<Rightarrow> Node"
  assumes select_subseq: "subseq (select s t nodes) nodes"
    and score_subseq: "score t nodes s w = Inr (Inr scored, s', w') \<Longrightarrow> subseq (map sNode scored) nodes"
    and pick_mem: "scored \<noteq> [] \<Longrightarrow> pick s scored \<in> sNode ` set scored"
begin

lemma chosen_is_candidate:
  assumes "score t nodes s w = Inr (Inr scored, s', w')" and "scored \<noteq> []"
  shows "pick s'' scored \<in> set nodes"
proof -
  have "sNode ` set scored \<subseteq> set nodes"
    using subseq_set [OF score_subseq [OF assms(1)]] by simp
  with pick_mem [OF assms(2)] show ?thesis by blast
qed

lemma chosen_is_node:
  assumes "score t (select s t nodes) s w = Inr (Inr scored, s', w')" and "scored \<noteq> []"
  shows "pick s'' scored \<in> set nodes"
  using chosen_is_candidate [OF assms] subseq_set [OF select_subseq] by (rule set_rev_mp)

end

lemma MarginalCost_Select_filter:
  "MarginalCost_SelectCandidateNodes t nodes =
     filter (\<lambda>n. hasDiskRoom (tDisk t) (nDisk n) (nDiskAllocated n)) nodes"
  by (induction nodes) simp_all

lemma nth_list_update_read: "j < length xs \<Longrightarrow> xs[i := x] ! j = (if i = j then x else xs ! j)"
  by (cases "i < length xs") (auto simp: nth_list_update list_update_beyond)

lemma run_goroutines_nodes:
  assumes "run_goroutines env t cands is st w = Inr (st', w')"
    and "length (results st) = n" and "length (scored_flag st) = n"
    and "\<forall>i < n. scored_flag st ! i \<longrightarrow> sNode (results st ! i) = cands ! i"
  shows "\<forall>i < n. scored_flag st' ! i \<longrightarrow> sNode (results st' ! i) = cands ! i"
  using assms
proof (induction "is" arbitrary: st w)
  case (Cons i "is")
  obtain r w1 where sc: "score_candidate env t (cands ! i) w = (r, w1)"
    by (cases "score_candidate env t (cands ! i) w")
  then have sn: "sNode sn = cands ! i" if "r = Inr (Inr sn)" for sn
    using score_candidate_success [of env t "cands ! i" w sn] that by simp
  consider (err) e where "r = Inr (Inl e)" | (ok) sn where "r = Inr (Inr sn)"
    using Cons.prems(1) sc by (cases r; cases "projr r") auto
  then show ?case
  proof cases
    case err
    with Cons sc show ?thesis by simp
  next
    case ok
    show ?thesis
      by (rule Cons.IH [of "st\<lparr>results := (results st)[i := sn], scored_flag := (scored_flag st)[i := True]\<rparr>" w1])
        (use Cons.prems sc ok sn [OF ok] in \<open>auto simp: nth_list_update_read split: if_splits\<close>)
  qed
qed simp

lemma MarginalCost_Score_subseq:
  assumes "MarginalCost_Score env t nodes w = Inr (Inr scored, w')"
  shows "subseq (map sNode scored) nodes"
proof -
  let ?n = "length nodes"
  obtain st where run: "run_goroutines env t nodes (se_order env ?n) (fresh_slots ?n) w = Inr (st, w')"
    and sc: "scored = compact ?n st"
    using assms by (auto simp: MarginalCost_Score_def Let_def split: sum.splits if_splits)
  have "\<forall>i < ?n. scored_flag st ! i \<longrightarrow> sNode (results st ! i) = nodes ! i"
    by (rule run_goroutines_nodes [OF run]) (simp_all add: fresh_slots_def)
  then have "map sNode scored = map ((!) nodes) (filter (\<lambda>i. scored_flag st ! i) [0..<?n])"
    by (simp add: sc compact_def)
  also have "subseq \<dots> (map ((!) nodes) [0..<?n])" by (intro subseq_map) simp
  also have "map ((!) nodes) [0..<?n] = nodes" by (rule map_nth)
  finally show ?thesis .
qed

interpretation mc: scheduler_contract
  "\<lambda>e :: MarginalCostScheduler. MarginalCost_SelectCandidateNodes"
  "\<lambda>t nodes (e :: MarginalCostScheduler) w.
     case MarginalCost_Score env t nodes w of Inl p \<Rightarrow> Inl p | Inr (res, w1) \<Rightarrow> Inr (res, e, w1)"
  "\<lambda>e. MarginalCost_Pick"
proof unfold_locales
  show "scored \<noteq> [] \<Longrightarrow> MarginalCost_Pick scored \<in> sNode ` set scored" for scored
    by (rule MarginalCost_Pick_mem)
next
  fix t nodes s w scored s' w'
  assume "(case MarginalCost_Score env t nodes w of Inl p \<Rightarrow> Inl p | Inr (res, w1) \<Rightarrow> Inr (res, s, w1)) =
    Inr (Inr scored, s', w')"
  then show "subseq (map sNode scored) nodes"
    by (auto split: sum.splits intro: MarginalCost_Score_subseq)
qed (simp add: MarginalCost_Select_filter)

lemma RoundRobin_Score_subseq:
  "RoundRobin_Score t nodes r = (scored, r') \<Longrightarrow> subseq (map sNode scored) nodes"
  by (auto simp: RoundRobin_Score_def Let_def split: if_splits)

interpretation rr: scheduler_contract
  "\<lambda>r :: RoundRobinScheduler. RoundRobin_SelectCandidateNodes"
  "\<lambda>t nodes r w. let (scored, r') = RoundRobin_Score t nodes r in Inr (Inr scored, r', w)"
  "\<lambda>r. RoundRobin_Pick"
proof unfold_locales
  show "scored \<noteq> [] \<Longrightarrow> RoundRobin_Pick scored \<in> sNode ` set scored" for scored
    by (rule RoundRobin_Pick_mem)
qed (auto simp: RoundRobin_SelectCandidateNodes_def split: prod.splits intro: RoundRobin_Score_subseq)

interpretation sch: scheduler_contract SelectCandidateNodes "Score env" Pick
proof unfold_locales
  fix s t nodes
  show "subseq (SelectCandidateNodes s t nodes) nodes"
    by (cases s) (simp_all add: mc.select_subseq rr.select_subseq)
next
  fix t nodes s w scored s' w'
  assume "Score env t nodes s w = Inr (Inr scored, s', w')"
  then show "subseq (map sNode scored) nodes"
    by (cases s) (auto split: sum.splits prod.splits intro: MarginalCost_Score_subseq RoundRobin_Score_subseq)
next
  fix scored :: "ScoredNode list" and s
  assume "scored \<noteq> []"
  then show "Pick s scored \<in> sNode ` set scored"
    by (cases s) (simp_all add: MarginalCost_Pick_mem RoundRobin_Pick_mem)
qed

section \<open>The shape of the cost\<close>

lemma LIEB_gt_1: "1 < LIEB"
  by (simp add: LIEB_def)

lemma power_gap_mono:
  assumes "1 < (b :: real)" and "x \<le> y" and "0 \<le> d"
  shows "b powr (x + d) - b powr x \<le> b powr (y + d) - b powr y"
    and "x < y \<Longrightarrow> 0 < d \<Longrightarrow> b powr (x + d) - b powr x < b powr (y + d) - b powr y"
    and "0 < d \<Longrightarrow> 0 < b powr (x + d) - b powr x"
proof -
  have gap: "b powr (z + d) - b powr z = b powr z * (b powr d - 1)" for z
    by (simp add: powr_add algebra_simps)
  have "1 \<le> b powr d" using assms(1,3) by (simp add: ge_one_powr_ge_zero)
  moreover have "b powr x \<le> b powr y" using assms(1,2) by simp
  ultimately show "b powr (x + d) - b powr x \<le> b powr (y + d) - b powr y"
    unfolding gap by (simp add: mult_right_mono)
  have pos: "1 < b powr d" if "0 < d" using assms(1) that by simp
  show "x < y \<Longrightarrow> 0 < d \<Longrightarrow> b powr (x + d) - b powr x < b powr (y + d) - b powr y"
    unfolding gap using pos assms(1) by simp
  show "0 < d \<Longrightarrow> 0 < b powr (x + d) - b powr x"
    unfolding gap using pos assms(1) by simp
qed

definition cost :: "real \<Rightarrow> real \<Rightarrow> real \<Rightarrow> real \<Rightarrow> real \<Rightarrow> real" where
  "cost u tot c k m =
     (LIEB powr ((u + m) / tot) - LIEB powr (u / tot)) +
     (LIEB powr ((k + 1) / 4) - LIEB powr (k / 4)) + (LIEB powr c - 1)"

lemma nodeScore_exact:
  assumes "0 < tot"
  shows "nodeScore (exact LIEB) \<lparr>MemUsed = Fin u, MemTotal = Fin tot, CPULoad = Fin c, nlTaskCount = Fin k\<rparr> (Fin m) =
    Inr (Fin (cost u tot c k m))"
  using assms
  by (simp add: nodeScore_def calculateLoad_def powerCost_def maxJobsPerNode_def fsub_def cost_def Let_def)

lemma cost_mono:
  assumes "0 < tot" and "u1 \<le> u2" and "c1 \<le> c2" and "k1 \<le> k2" and "0 \<le> m"
  shows "cost u1 tot c1 k1 m \<le> cost u2 tot c2 k2 m"
    and "k1 < k2 \<or> c1 < c2 \<or> u1 < u2 \<and> 0 < m \<Longrightarrow> cost u1 tot c1 k1 m < cost u2 tot c2 k2 m"
    and "0 \<le> c1 \<Longrightarrow> 0 < cost u1 tot c1 k1 m"
proof -
  note gap = power_gap_mono [OF LIEB_gt_1]
  have mem: "LIEB powr ((u1 + m) / tot) - LIEB powr (u1 / tot) \<le> LIEB powr ((u2 + m) / tot) - LIEB powr (u2 / tot)"
    using gap(1) [of "u1 / tot" "u2 / tot" "m / tot"] assms by (simp add: add_divide_distrib divide_right_mono)
  have job: "LIEB powr ((k1 + 1) / 4) - LIEB powr (k1 / 4) \<le> LIEB powr ((k2 + 1) / 4) - LIEB powr (k2 / 4)"
    using gap(1) [of "k1 / 4" "k2 / 4" "1 / 4"] assms by (simp add: add_divide_distrib)
  have cpu: "LIEB powr c1 \<le> LIEB powr c2" using assms LIEB_gt_1 by simp
  show "cost u1 tot c1 k1 m \<le> cost u2 tot c2 k2 m"
    using mem job cpu by (simp add: cost_def)
  have mem': "LIEB powr ((u1 + m) / tot) - LIEB powr (u1 / tot) < LIEB powr ((u2 + m) / tot) - LIEB powr (u2 / tot)"
    if "u1 < u2" "0 < m"
    using gap(2) [of "u1 / tot" "u2 / tot" "m / tot"] assms that by (simp add: add_divide_distrib divide_strict_right_mono)
  have job': "LIEB powr ((k1 + 1) / 4) - LIEB powr (k1 / 4) < LIEB powr ((k2 + 1) / 4) - LIEB powr (k2 / 4)" if "k1 < k2"
    using gap(2) [of "k1 / 4" "k2 / 4" "1 / 4"] that by (simp add: add_divide_distrib)
  have cpu': "LIEB powr c1 < LIEB powr c2" if "c1 < c2" using that LIEB_gt_1 by simp
  show "cost u1 tot c1 k1 m < cost u2 tot c2 k2 m" if "k1 < k2 \<or> c1 < c2 \<or> u1 < u2 \<and> 0 < m"
    using that mem job cpu mem' job' cpu' by (auto simp: cost_def)
  have "0 < LIEB powr ((k1 + 1) / 4) - LIEB powr (k1 / 4)"
    using gap(3) [of "k1 / 4" "k1 / 4" "1 / 4"] by (simp add: add_divide_distrib)
  moreover have "0 \<le> LIEB powr ((u1 + m) / tot) - LIEB powr (u1 / tot)"
    using LIEB_gt_1 assms by (simp add: divide_right_mono)
  moreover have "1 \<le> LIEB powr c1" if "0 \<le> c1" using that LIEB_gt_1 by (simp add: ge_one_powr_ge_zero)
  ultimately show "0 < cost u1 tot c1 k1 m" if "0 \<le> c1" using that by (simp add: cost_def)
qed

text \<open>
  The cost is that of E-PVM, in exact arithmetic: of two nodes with the same memory, the
  one that is at least as loaded in memory, CPU and task count never costs less for the same
  task, and it costs strictly more when it has more tasks, more CPU load, or more memory in
  use and the task asks for memory. Placing a task always has a positive cost.
\<close>

theorem nodeScore_prefers_idle:
  assumes "0 < tot" and "u1 \<le> u2" and "c1 \<le> c2" and "k1 \<le> k2" and "0 \<le> m"
  shows "\<exists>s1 s2.
    nodeScore (exact LIEB) \<lparr>MemUsed = Fin u1, MemTotal = Fin tot, CPULoad = Fin c1, nlTaskCount = Fin k1\<rparr> (Fin m) = Inr (Fin s1) \<and>
    nodeScore (exact LIEB) \<lparr>MemUsed = Fin u2, MemTotal = Fin tot, CPULoad = Fin c2, nlTaskCount = Fin k2\<rparr> (Fin m) = Inr (Fin s2) \<and>
    s1 \<le> s2 \<and> (k1 < k2 \<or> c1 < c2 \<or> u1 < u2 \<and> 0 < m \<longrightarrow> s1 < s2) \<and> (0 \<le> c1 \<longrightarrow> 0 < s1)"
  using cost_mono [OF assms] assms(1) by (auto simp: nodeScore_exact)

theorem nodeScore_prefers_idle_witness:
  "\<exists>s1 s2.
    nodeScore (exact LIEB) \<lparr>MemUsed = Fin 10, MemTotal = Fin 100, CPULoad = Fin 0, nlTaskCount = Fin 1\<rparr> (Fin 5) = Inr (Fin s1) \<and>
    nodeScore (exact LIEB) \<lparr>MemUsed = Fin 50, MemTotal = Fin 100, CPULoad = Fin 1, nlTaskCount = Fin 1\<rparr> (Fin 5) = Inr (Fin s2) \<and>
    0 < s1 \<and> s1 < s2"
  using nodeScore_prefers_idle [of 100 10 50 0 1 1 1 5] by auto

text \<open>
  A broken CPU reading never makes a node attractive: under any monotone rounding that
  is exact at one, the load used for a negative (unreadable) percentage is at least the load
  of every reading up to one hundred per cent, and a node's score does not decrease when
  its CPU load grows, whenever both scores are numbers.
\<close>

theorem unknown_cpu_is_fully_busy:
  assumes "monotone_rounding F" and "rnd F 1 = Fin 1"
  shows "(0 \<le> p \<and> p \<le> 100 \<and> CPUUsage known = Fin p \<and> q < 0 \<and> CPUUsage unknown = Fin q \<longrightarrow>
      fle (cpuLoad F known) (cpuLoad F unknown)) \<and>
    (fle a b \<and> nodeScore F (l\<lparr>CPULoad := a\<rparr>) m = Inr s1 \<and> nodeScore F (l\<lparr>CPULoad := b\<rparr>) m = Inr s2 \<and>
      s1 \<noteq> NaN \<and> s2 \<noteq> NaN \<longrightarrow> fle s1 s2)"
proof (intro conjI impI)
  assume h: "0 \<le> p \<and> p \<le> 100 \<and> CPUUsage known = Fin p \<and> q < 0 \<and> CPUUsage unknown = Fin q"
  then have "fle (rnd F (p / 100)) (rnd F 1)" by (intro monotone_rounding_rnd [OF assms(1)]) simp
  with h assms(2) show "fle (cpuLoad F known) (cpuLoad F unknown)"
    by (simp add: cpuLoad_def normalizeCPUUsage_def)
next
  assume h: "fle a b \<and> nodeScore F (l\<lparr>CPULoad := a\<rparr>) m = Inr s1 \<and> nodeScore F (l\<lparr>CPULoad := b\<rparr>) m = Inr s2 \<and>
      s1 \<noteq> NaN \<and> s2 \<noteq> NaN"
  obtain base where s: "s1 = fadd F base (fsub F (powerCost F a) (Fin 1))"
      "s2 = fadd F base (fsub F (powerCost F b) (Fin 1))"
    using h by (auto simp: nodeScore_def Let_def split: if_splits)
  let ?pa = "powerCost F a" and ?pb = "powerCost F b"
  have "fle ?pa ?pb" using h assms(1) by (simp add: powerCost_def monotone_rounding_pow)
  moreover have nn: "fsub F ?pa (Fin 1) \<noteq> NaN" "fsub F ?pb (Fin 1) \<noteq> NaN"
    using h s by (cases base; auto)+
  ultimately have "fle (fsub F ?pa (Fin 1)) (fsub F ?pb (Fin 1))"
    using fadd_mono_right [OF assms(1), of ?pa ?pb "Fin (-1)"]
    by (simp add: fsub_def fadd_commute)
  then show "fle s1 s2"
    unfolding s using h s by (intro fadd_mono_right [OF assms(1)]) simp_all
qed

theorem unknown_cpu_is_fully_busy_witness:
  "fle (cpuLoad (exact LIEB) (zero_Stats\<lparr>CPUUsagePercentage := Fin 40\<rparr>)) (cpuLoad (exact LIEB) (zero_Stats\<lparr>CPUUsagePercentage := Fin (-1)\<rparr>))"
  using unknown_cpu_is_fully_busy [of "exact LIEB" 40 "zero_Stats\<lparr>CPUUsagePercentage := Fin 40\<rparr>" "-1"
      "zero_Stats\<lparr>CPUUsagePercentage := Fin (-1)\<rparr>"] LIEB_gt_1
  by (simp add: exact_monotone CPUUsage_def)

end
