(* ===== verification/Orch_Queue.thy ===== *)
theory Orch_Queue
  imports Orch_Prelude
begin

text \<open>
  Package \<open>internal/queue\<close>: the typed wrapper around a queue of the third-party
  package \<open>golang-collections/collections/queue\<close>.

  The third-party queue is the parameter \<open>collq\<close>. Its \<open>Dequeue\<close> returns the front
  element, or nil (\<open>None\<close>) when the queue is empty; the hypothesis \<open>collq_fifo\<close>
  says that it is a first-in first-out queue, as its documentation does. The wrapper's
  contract is the locale \<open>queue\<close>; \<open>wrapper_is_queue\<close> derives it from that hypothesis.
\<close>

record ('a, 'q) collq =
  collq_New :: 'q
  collq_Enqueue :: "'a \<Rightarrow> 'q \<Rightarrow> 'q"
  collq_Dequeue :: "'q \<Rightarrow> 'a option \<times> 'q"
  collq_Len :: "'q \<Rightarrow> int"

definition collq_fifo :: "('a, 'q) collq \<Rightarrow> ('q \<Rightarrow> 'a list) \<Rightarrow> bool" where
  "collq_fifo C items \<longleftrightarrow>
     items (collq_New C) = [] \<and>
     (\<forall>v q. items (collq_Enqueue C v q) = items q @ [v]) \<and>
     (\<forall>q. fst (collq_Dequeue C q) = (case items q of [] \<Rightarrow> None | v # _ \<Rightarrow> Some v)) \<and>
     (\<forall>q. items (snd (collq_Dequeue C q)) = tl (items q)) \<and>
     (\<forall>q. collq_Len C q = int (length (items q)))"

section \<open>The wrapper\<close>

record 'q Queue =
  inner :: 'q

definition New :: "('a, 'q) collq \<Rightarrow> 'q Queue" where
  "New C = \<lparr>inner = collq_New C\<rparr>"

definition Enqueue :: "('a, 'q) collq \<Rightarrow> 'a \<Rightarrow> 'q Queue \<Rightarrow> 'q Queue" where
  "Enqueue C v q = q\<lparr>inner := collq_Enqueue C v (inner q)\<rparr>"

text \<open>
  \<open>Dequeue\<close> returns \<open>(zero, false)\<close> on nil, which is \<open>None\<close> here, and otherwise the
  element with its type asserted.
\<close>

definition Dequeue :: "('a, 'q) collq \<Rightarrow> 'q Queue \<Rightarrow> 'a option \<times> 'q Queue" where
  "Dequeue C q =
     (case collq_Dequeue C (inner q) of
        (None, i) \<Rightarrow> (None, q\<lparr>inner := i\<rparr>)
      | (Some v, i) \<Rightarrow> (Some v, q\<lparr>inner := i\<rparr>))"

definition Len :: "('a, 'q) collq \<Rightarrow> 'q Queue \<Rightarrow> int" where
  "Len C q = collq_Len C (inner q)"

section \<open>The contract\<close>

locale queue =
  fixes C :: "('a, 'q) collq" and contents :: "'q Queue \<Rightarrow> 'a list"
  assumes contents_New [simp]: "contents (New C) = []"
    and contents_Enqueue [simp]: "contents (Enqueue C v q) = contents q @ [v]"
    and Dequeue_result: "Dequeue C q =
          (case contents q of [] \<Rightarrow> (None, snd (Dequeue C q)) | v # _ \<Rightarrow> (Some v, snd (Dequeue C q)))"
    and contents_Dequeue [simp]: "contents (snd (Dequeue C q)) = tl (contents q)"
    and Len_contents [simp]: "Len C q = int (length (contents q))"
begin

lemma Dequeue_empty: "fst (Dequeue C q) = None \<longleftrightarrow> contents q = []"
  using Dequeue_result [of q] by (cases "contents q") (auto dest: arg_cong [where f = fst])

lemma Dequeue_front: "fst (Dequeue C q) = Some v \<longleftrightarrow> (\<exists>vs. contents q = v # vs)"
  using Dequeue_result [of q] by (cases "contents q") (auto dest: arg_cong [where f = fst])

lemma Dequeue_SomeD:
  assumes "Dequeue C q = (Some v, q')"
  shows "contents q = v # contents q'"
proof -
  from assms have "fst (Dequeue C q) = Some v" and q': "snd (Dequeue C q) = q'" by simp_all
  then obtain vs where "contents q = v # vs" by (auto simp: Dequeue_front)
  with contents_Dequeue [of q] q' show ?thesis by simp
qed

lemma Dequeue_NoneD:
  assumes "Dequeue C q = (None, q')"
  shows "contents q = [] \<and> contents q' = []"
proof -
  from assms have "fst (Dequeue C q) = None" and q': "snd (Dequeue C q) = q'" by simp_all
  then have "contents q = []" by (simp add: Dequeue_empty)
  with contents_Dequeue [of q] q' show ?thesis by simp
qed

end

lemma wrapper_is_queue:
  assumes "collq_fifo C items"
  shows "queue C (\<lambda>q. items (inner q))"
  using assms
  by unfold_locales
    (auto simp: collq_fifo_def New_def Enqueue_def Dequeue_def Len_def split_beta
      split: option.splits list.splits prod.splits dest: arg_cong [where f = fst] arg_cong [where f = snd])

text \<open>A queue kept as a list satisfies the hypothesis on the third-party package.\<close>

definition list_collq :: "('a, 'a list) collq" where
  "list_collq =
     \<lparr>collq_New = [], collq_Enqueue = (\<lambda>v q. q @ [v]),
      collq_Dequeue = (\<lambda>q. case q of [] \<Rightarrow> (None, []) | v # vs \<Rightarrow> (Some v, vs)),
      collq_Len = (\<lambda>q. int (length q))\<rparr>"

lemma list_collq_fifo: "collq_fifo list_collq (\<lambda>q. q)"
  by (auto simp: collq_fifo_def list_collq_def split: list.splits)

interpretation lq: queue "list_collq :: ('a, 'a list) collq" "\<lambda>q. inner q"
  by (rule wrapper_is_queue [OF list_collq_fifo])

text \<open>The events of a run of the queue: what goes in, and the operations in order.\<close>

primrec Enqueue_all :: "('a, 'q) collq \<Rightarrow> 'a list \<Rightarrow> 'q Queue \<Rightarrow> 'q Queue" where
  "Enqueue_all C [] q = q"
| "Enqueue_all C (v # vs) q = Enqueue_all C vs (Enqueue C v q)"

context queue
begin

lemma contents_Enqueue_all [simp]: "contents (Enqueue_all C vs q) = contents q @ vs"
  by (induction vs arbitrary: q) simp_all

end

text \<open>
  The wrapper is a first-in first-out queue for every inner queue that is one: after
  any sequence of insertions into a new queue its length is the number of insertions, the
  first \<open>Dequeue\<close> returns the first value inserted (or reports an empty queue when
  there was none), and what remains is the rest in order.
\<close>

theorem Queue_fifo:
  assumes "collq_fifo C items"
  shows "Len C (Enqueue_all C vs (New C)) = int (length vs) \<and>
    fst (Dequeue C (Enqueue_all C vs (New C))) = (case vs of [] \<Rightarrow> None | v # _ \<Rightarrow> Some v) \<and>
    items (inner (snd (Dequeue C (Enqueue_all C vs (New C))))) = tl vs"
proof -
  have q: "queue C (\<lambda>q. items (inner q))" using assms by (rule wrapper_is_queue)
  note laws = queue.contents_Enqueue_all [OF q] queue.contents_New [OF q] queue.contents_Enqueue [OF q]
  have "fst (Dequeue C (Enqueue_all C vs (New C))) = (case vs of [] \<Rightarrow> None | v # _ \<Rightarrow> Some v)"
    by (cases vs) (simp_all add: queue.Dequeue_empty [OF q] queue.Dequeue_front [OF q] laws)
  then show ?thesis
    by (simp add: queue.Len_contents [OF q] queue.contents_Dequeue [OF q] laws)
qed

theorem Queue_fifo_witness:
  "Len list_collq (Enqueue_all list_collq [1, 2 :: nat] (New list_collq)) = 2 \<and>
   fst (Dequeue list_collq (Enqueue_all list_collq [1, 2 :: nat] (New list_collq))) = Some 1"
  using Queue_fifo [OF list_collq_fifo, of "[1, 2 :: nat]"] by simp

end
