(* ===== verification/Orch_Store.thy ===== *)
theory Orch_Store
  imports Orch_Task "HOL-Library.AList"
begin

text \<open>
  Package \<open>internal/store\<close>: the interface \<open>Store\<close> and its in-memory backend.

  A Go interface value is a record of operations (\<open>Store\<close>) over a state type of the
  backend's own. The contract that \<open>store.go\<close> documents is the locale \<open>store_contract\<close>:
  after a successful \<open>Put\<close> the store holds the value under the key, a failed \<open>Put\<close>
  changes nothing, \<open>Get\<close> returns what is held and \<open>ErrNotFound\<close> for a missing key, \<open>List\<close>
  returns each held value once. Operations may fail: a store that cannot be read at some moment
  answers every \<open>Get\<close> with an error that is not \<open>ErrNotFound\<close>.
  The locale \<open>total_store\<close> adds that they do not, which holds of the in-memory backend. Both are interpreted on that backend below,
  and \<open>store_contract\<close> on the persistent one in \<open>Orch_Persistent\<close>.
\<close>

record ('s, 'a) Store =
  Put :: "string \<Rightarrow> 'a \<Rightarrow> 's \<Rightarrow> go_error option \<times> 's"
  Get :: "string \<Rightarrow> 's \<Rightarrow> go_error + 'a"
  List :: "'s \<Rightarrow> go_error + 'a list"
  Count :: "'s \<Rightarrow> go_error + int"
  Close :: "'s \<Rightarrow> go_error option \<times> 's"

section \<open>The contract\<close>

text \<open>The answer of a \<open>Get\<close> that could read the store, for what is held under the key.\<close>

definition answers :: "go_error + 'a \<Rightarrow> 'a option \<Rightarrow> bool" where
  "answers r h \<longleftrightarrow> (case h of Some v \<Rightarrow> r = Inr v | None \<Rightarrow> \<exists>e. r = Inl e \<and> errors_Is e ErrNotFound)"

lemma answers_simps [simp]:
  "answers (Inr v) h \<longleftrightarrow> h = Some v" "answers (Inl e) h \<longleftrightarrow> h = None \<and> errors_Is e ErrNotFound"
  by (auto simp: answers_def split: option.splits)

locale store_contract =
  fixes S :: "('s, 'a) Store" and held :: "'s \<Rightarrow> string \<rightharpoonup> 'a" and ok :: "'s \<Rightarrow> bool"
  assumes Put_None: "ok s \<Longrightarrow> Put S k v s = (None, s') \<Longrightarrow> ok s' \<and> held s' = (held s)(k \<mapsto> v)"
    and Put_Some: "ok s \<Longrightarrow> Put S k v s = (Some e, s') \<Longrightarrow> ok s' \<and> held s' = held s"
    and Get_reads: "ok s \<Longrightarrow>
          (\<forall>k. answers (Get S k s) (held s k)) \<or> (\<forall>k. \<exists>e. Get S k s = Inl e \<and> \<not> errors_Is e ErrNotFound)"
    and List_Inr: "ok s \<Longrightarrow> List S s = Inr xs \<Longrightarrow>
          \<exists>ks. distinct ks \<and> set ks = dom (held s) \<and> map Some xs = map (held s) ks"
    and Count_Inr: "ok s \<Longrightarrow> Count S s = Inr n \<Longrightarrow> n = int (card (dom (held s)))"
begin

lemma Get_Inr: "ok s \<Longrightarrow> Get S k s = Inr v \<Longrightarrow> held s k = Some v"
  using Get_reads [of s] answers_simps(1) [of v "held s k"] by (metis Inl_Inr_False)

lemma Get_not_found: "ok s \<Longrightarrow> Get S k s = Inl e \<Longrightarrow> errors_Is e ErrNotFound \<Longrightarrow> held s k = None"
  using Get_reads [of s] answers_simps(2) [of e "held s k"] by (metis sum.inject(1))

lemma Put_cases:
  assumes "ok s" and "Put S k v s = (r, s')"
  shows "ok s' \<and> (held s' = held s \<and> r \<noteq> None \<or> held s' = (held s)(k \<mapsto> v) \<and> r = None)"
proof (cases r)
  case None
  with Put_None [OF assms(1)] assms(2) show ?thesis by blast
next
  case (Some e)
  with Put_Some [OF assms(1)] assms(2) show ?thesis by blast
qed

lemma Put_ok: "ok s \<Longrightarrow> ok (snd (Put S k v s))"
  using Put_cases [of s k v] by (metis prod.collapse)

lemma List_held: "ok s \<Longrightarrow> List S s = Inr xs \<Longrightarrow> x \<in> set xs \<Longrightarrow> \<exists>k. held s k = Some x"
  using List_Inr [of s xs] by (metis (no_types, lifting) image_iff list.set_map)

text \<open>
  A store is keyed by \<open>f\<close> when every value is held under its own key; then what
  \<open>List\<close> returns has pairwise different keys.
\<close>

lemma List_distinct_keys:
  assumes "ok s" and "List S s = Inr xs" and keyed: "\<And>k x. held s k = Some x \<Longrightarrow> k = f x"
  shows "distinct (map f xs) \<and> (\<forall>x \<in> set xs. held s (f x) = Some x)"
proof -
  obtain ks where ks: "distinct ks" "map Some xs = map (held s) ks"
    using List_Inr [OF assms(1,2)] by blast
  have len: "length xs = length ks" using ks(2) by (metis length_map)
  have nth: "held s (ks ! i) = Some (xs ! i)" if "i < length xs" for i
    using ks(2) len that by (metis nth_map)
  have "map f xs = ks"
    using len keyed [OF nth] by (intro nth_equalityI) auto
  moreover have "\<forall>x \<in> set xs. held s (f x) = Some x"
    using nth keyed by (metis in_set_conv_nth)
  ultimately show ?thesis using ks(1) by simp
qed

end

locale total_store = store_contract S held ok
  for S :: "('s, 'a) Store" and held ok +
  assumes Put_total: "fst (Put S k v s) = None"
    and Get_total: "ok s \<Longrightarrow> held s k = Some v \<Longrightarrow> Get S k s = Inr v"
    and Get_missing: "ok s \<Longrightarrow> held s k = None \<Longrightarrow> \<exists>e. Get S k s = Inl e \<and> errors_Is e ErrNotFound"
    and List_total: "\<exists>xs. List S s = Inr xs"
begin

lemma Get_iff: "ok s \<Longrightarrow> Get S k s = Inr v \<longleftrightarrow> held s k = Some v"
  using Get_Inr Get_total by blast

lemma Put_held: "ok s \<Longrightarrow> held (snd (Put S k v s)) = (held s)(k \<mapsto> v)"
  using Put_None Put_total by (metis prod.collapse)

lemma Get_Put: "ok s \<Longrightarrow> Get S k (snd (Put S k v s)) = Inr v"
  by (simp add: Get_total Put_ok Put_held)

end

section \<open>The in-memory backend\<close>

text \<open>
  A Go map: an association list without duplicate keys. A \<open>range\<close> over a Go map visits
  the entries in an order the run time chooses, which is the parameter \<open>order\<close>, a
  rearrangement of the entries.
\<close>

record 'a InMemory =
  Db :: "(string \<times> 'a) list"

definition NewInMemory :: "'a InMemory" where
  "NewInMemory = \<lparr>Db = []\<rparr>"

definition InMemory_Close :: "'a InMemory \<Rightarrow> go_error option \<times> 'a InMemory" where
  "InMemory_Close i = (None, i)"

definition InMemory_Put :: "string \<Rightarrow> 'a \<Rightarrow> 'a InMemory \<Rightarrow> go_error option \<times> 'a InMemory" where
  "InMemory_Put key value i = (None, i\<lparr>Db := AList.update key value (Db i)\<rparr>)"

definition InMemory_Get :: "string \<Rightarrow> 'a InMemory \<Rightarrow> go_error + 'a" where
  "InMemory_Get key i =
     (case map_of (Db i) key of
        None \<Rightarrow> Inl (store_E ''store.InMemory.Get'' (''key '' @ key) (Some ErrNotFound))
      | Some el \<Rightarrow> Inr el)"

definition InMemory_List ::
  "((string \<times> 'a) list \<Rightarrow> (string \<times> 'a) list) \<Rightarrow> 'a InMemory \<Rightarrow> go_error + 'a list" where
  "InMemory_List order i = Inr (map snd (order (Db i)))"

definition InMemory_Count :: "'a InMemory \<Rightarrow> go_error + int" where
  "InMemory_Count i = Inr (int (length (Db i)))"

definition InMemory_store ::
  "((string \<times> 'a) list \<Rightarrow> (string \<times> 'a) list) \<Rightarrow> ('a InMemory, 'a) Store" where
  "InMemory_store order =
     \<lparr>Put = InMemory_Put, Get = InMemory_Get, List = InMemory_List order,
      Count = InMemory_Count, Close = InMemory_Close\<rparr>"

definition iteration_order :: "('e list \<Rightarrow> 'e list) \<Rightarrow> bool" where
  "iteration_order order \<longleftrightarrow> (\<forall>xs. mset (order xs) = mset xs)"

definition InMemory_held :: "'a InMemory \<Rightarrow> string \<rightharpoonup> 'a" where
  "InMemory_held i = map_of (Db i)"

definition InMemory_ok :: "'a InMemory \<Rightarrow> bool" where
  "InMemory_ok i \<longleftrightarrow> distinct (map fst (Db i))"

lemmas InMemory_defs =
  InMemory_store_def InMemory_Put_def InMemory_Get_def InMemory_List_def InMemory_Count_def
  InMemory_held_def InMemory_ok_def

lemma NewInMemory_ok [simp]: "InMemory_ok NewInMemory" "InMemory_held NewInMemory = Map.empty"
  by (simp_all add: InMemory_defs NewInMemory_def)

lemma map_of_order:
  assumes "distinct (map fst xs)" and "mset ys = mset xs"
  shows "distinct (map fst ys) \<and> map Some (map snd ys) = map (map_of xs) (map fst ys)"
proof -
  have "mset (map fst ys) = mset (map fst xs)" and s: "set ys = set xs"
    using assms(2) by (simp, metis set_mset_mset)
  then have "distinct (map fst ys)" using assms(1) by (metis mset_eq_imp_distinct_iff)
  moreover have "map_of xs (fst p) = Some (snd p)" if "p \<in> set ys" for p
    using assms(1) s that by simp
  ultimately show ?thesis by simp
qed

lemma InMemory_total_store:
  assumes "iteration_order order"
  shows "total_store (InMemory_store order) InMemory_held InMemory_ok"
proof unfold_locales
  fix s :: "'a InMemory" and xs
  assume s: "InMemory_ok s" and "List (InMemory_store order) s = Inr xs"
  then have xs: "xs = map snd (order (Db s))" by (simp add: InMemory_defs)
  have m: "mset (order (Db s)) = mset (Db s)" using assms by (simp add: iteration_order_def)
  then have "set (order (Db s)) = set (Db s)" by (metis set_mset_mset)
  then have "set (map fst (order (Db s))) = dom (InMemory_held s)"
    by (simp add: InMemory_held_def dom_map_of_conv_image_fst)
  with map_of_order [OF _ m] s show "\<exists>ks. distinct ks \<and> set ks = dom (InMemory_held s) \<and>
      map Some xs = map (InMemory_held s) ks"
    unfolding xs InMemory_ok_def InMemory_held_def by blast
next
  fix s :: "'a InMemory" and n
  assume "InMemory_ok s" and "Count (InMemory_store order) s = Inr n"
  then show "n = int (card (dom (InMemory_held s)))"
    by (auto simp: InMemory_defs dom_map_of_conv_image_fst distinct_card simp flip: set_map)
qed (auto simp: InMemory_defs answers_def update_conv' distinct_update split: option.splits)

text \<open>Whatever the run time starts its iteration with.\<close>

lemma mset_rotate1: "mset (rotate1 xs) = mset xs"
  by (cases xs) simp_all

lemma iteration_order_rotate [simp]: "iteration_order (rotate n)"
  unfolding iteration_order_def by (induction n) (simp_all add: mset_rotate1)

lemma iteration_order_id [simp]: "iteration_order (\<lambda>xs. xs)"
  by (simp add: iteration_order_def)

interpretation mem: total_store "InMemory_store (rotate n)" InMemory_held InMemory_ok
  by (rule InMemory_total_store) simp

section \<open>Properties\<close>

text \<open>Stores reached from a new one by a sequence of \<open>Put\<close>s.\<close>

primrec Put_all :: "(string \<times> 'a) list \<Rightarrow> 'a InMemory \<Rightarrow> 'a InMemory" where
  "Put_all [] s = s"
| "Put_all (p # ps) s = Put_all ps (snd (InMemory_Put (fst p) (snd p) s))"

lemma Put_all_held: "InMemory_ok s \<Longrightarrow>
    InMemory_ok (Put_all ps s) \<and> InMemory_held (Put_all ps s) = InMemory_held s ++ map_of (rev ps)"
proof (induction ps arbitrary: s)
  case (Cons p ps)
  from Cons.prems have "InMemory_ok (snd (InMemory_Put (fst p) (snd p) s))"
    and "InMemory_held (snd (InMemory_Put (fst p) (snd p) s)) = (InMemory_held s)(fst p \<mapsto> snd p)"
    by (simp_all add: InMemory_defs distinct_update update_conv')
  with Cons.IH [of "snd (InMemory_Put (fst p) (snd p) s)"] show ?case
    by (cases p) (auto simp: map_add_def fun_eq_iff split: option.splits)
qed simp

text \<open>
  Insert and look up in the in-memory store: after any sequence of writes to a new
  store, \<open>Get\<close> returns the last value written under the key; a key never written gives
  an error that is \<open>ErrNotFound\<close> through the whole chain; \<open>List\<close> returns, in whatever
  order the map is iterated, each key's last value once, and \<open>Count\<close> is their number.
\<close>

theorem InMemory_read_after_write:
  assumes "iteration_order order" and "s = Put_all ps NewInMemory"
  shows "(\<forall>k. case map_of (rev ps) k of
            Some v \<Rightarrow> InMemory_Get k s = Inr v
          | None \<Rightarrow> \<exists>e. InMemory_Get k s = Inl e \<and> errors_Is e ErrNotFound) \<and>
    (\<exists>ks. distinct ks \<and> set ks = fst ` set ps \<and>
       InMemory_List order s = Inr (map (the \<circ> map_of (rev ps)) ks) \<and>
       InMemory_Count s = Inr (int (length ks)))"
proof -
  have s: "InMemory_ok s" "InMemory_held s = map_of (rev ps)"
    using Put_all_held [of NewInMemory ps] assms(2) by simp_all
  have t: "total_store (InMemory_store order) InMemory_held InMemory_ok"
    using assms(1) by (rule InMemory_total_store)
  then have c: "store_contract (InMemory_store order) InMemory_held InMemory_ok"
    by (simp add: total_store_def)
  let ?ks = "map fst (order (Db s))"
  have m: "mset (order (Db s)) = mset (Db s)" using assms(1) by (simp add: iteration_order_def)
  have ord: "distinct ?ks" "map Some (map snd (order (Db s))) = map (map_of (rev ps)) ?ks"
    using map_of_order [OF _ m] s unfolding InMemory_ok_def InMemory_held_def by metis+
  have "set ?ks = dom (map_of (rev ps))"
    using s(2) m by (metis InMemory_held_def dom_map_of_conv_image_fst set_map set_mset_mset)
  then have keys: "set ?ks = fst ` set ps" by (simp add: dom_map_of_conv_image_fst)
  have "map snd (order (Db s)) = map (the \<circ> map_of (rev ps)) ?ks"
    using arg_cong [OF ord(2), of "map the"] by (simp add: comp_def)
  moreover have "length (Db s) = length ?ks" using m by (metis length_map size_mset)
  ultimately have "\<exists>ks. distinct ks \<and> set ks = fst ` set ps \<and>
       InMemory_List order s = Inr (map (the \<circ> map_of (rev ps)) ks) \<and>
       InMemory_Count s = Inr (int (length ks))"
    using ord(1) keys by (intro exI [of _ ?ks]) (simp add: InMemory_List_def InMemory_Count_def)
  moreover have "case map_of (rev ps) k of
            Some v \<Rightarrow> InMemory_Get k s = Inr v
          | None \<Rightarrow> \<exists>e. InMemory_Get k s = Inl e \<and> errors_Is e ErrNotFound" for k
    using s(2) by (auto simp: InMemory_Get_def InMemory_held_def split: option.splits)
  ultimately show ?thesis by blast
qed

theorem InMemory_read_after_write_witness:
  "InMemory_Get ''a'' (Put_all [(''a'', 1), (''b'', 2), (''a'', 3 :: nat)] NewInMemory) = Inr 3"
  using conjunct1 [OF InMemory_read_after_write [OF iteration_order_id refl,
      of "[(''a'', 1), (''b'', 2), (''a'', 3 :: nat)]"], THEN spec, of "''a''"]
  by simp

end
