(* ===== verification/Orch_Manager.thy ===== *)
theory Orch_Manager
  imports Orch_Scheduling Orch_Queue Orch_Store
begin

text \<open>
  Package \<open>internal/manager\<close>: the manager's state and its guarded helpers
  (\<open>state.go\<close>), its pure functions (\<open>pure.go\<close>), its operations (\<open>manager.go\<close>) and
  its HTTP handlers (\<open>api.go\<close>).

  What the manager is built over is the record \<open>menv\<close>: the third-party uuid and queue
  packages, the two stores, \<open>net/url\<close>, \<open>encoding/json\<close>, the HTTP client, the clock and the
  scheduler's environment, all acting on the outside world \<open>'w\<close>. A helper of
  \<open>state.go\<close> holds the manager's mutex for its whole body, so it is one function on the
  manager's state; \<open>pickWorker\<close>, which takes no lock, only changes the scheduler's own
  cursor. Log lines are not modelled. An operation that can panic returns
  \<open>panic + _\<close>.
\<close>

section \<open>State\<close>

record ('q, 's, 'e) Manager =
  mPending :: "'q Queue"
  mTaskDb :: 's
  mEventDb :: 'e
  mWorkerTaskMap :: "string \<rightharpoonup> UUID list"
  mTaskWorkerMap :: "UUID \<rightharpoonup> string"
  mWorkerNodes :: "Node list"
  mScheduler :: Scheduler

record WorkerMetadata =
  wmName :: string
  wmAddress :: string

text \<open>What \<open>url.Parse\<close> gives: the scheme and the host name.\<close>

record URL =
  urlScheme :: string
  urlHostname :: string

record ('q, 's, 'e, 'w) menv =
  me_uuid_String :: "UUID \<Rightarrow> string"
  me_uuid_Parse :: "string \<Rightarrow> go_error + UUID"
  me_uuid_New :: "'w \<Rightarrow> UUID \<times> 'w"
  me_now :: "'w \<Rightarrow> Time \<times> 'w"
  me_queue :: "(TaskEvent, 'q) collq"
  me_taskdb :: "('s, Task) Store"
  me_eventdb :: "('e, TaskEvent) Store"
  me_codec :: codec
  me_decode_TaskEvent :: "string \<Rightarrow> go_error + TaskEvent"
  me_url_Parse :: "string \<Rightarrow> go_error + URL"
  me_Get :: "string \<Rightarrow> 'w \<Rightarrow> (go_error + Response) \<times> 'w"
  me_Post :: "string \<Rightarrow> string \<Rightarrow> string \<Rightarrow> 'w \<Rightarrow> (go_error + Response) \<times> 'w"
  me_NewRequest :: "string \<Rightarrow> string \<Rightarrow> go_error option"
  me_Do_Delete :: "string \<Rightarrow> 'w \<Rightarrow> (go_error + Response) \<times> 'w"
  me_range_first :: "'w \<Rightarrow> nat \<times> 'w"
  me_order :: "nat \<Rightarrow> nat list"
  me_sched :: "'w sched_env"

text \<open>
  \<open>me_range_first\<close> is where the run time starts a \<open>range\<close> over a Go map, taken modulo the
  size of the map; \<open>me_order n\<close> is the order in which \<open>n\<close> goroutines complete.
\<close>

section \<open>Pure functions\<close>

definition TaskRestartMax :: int where
  "TaskRestartMax = 3"

definition WorkerTasksURL :: "string \<Rightarrow> string" where
  "WorkerTasksURL workerAddr = workerAddr @ ''/tasks''"

definition healthCheckURL ::
  "(string \<Rightarrow> go_error + URL) \<Rightarrow> string \<Rightarrow> string \<Rightarrow> string \<Rightarrow> go_error + string" where
  "healthCheckURL parse workerAddr hostPort healthCheckPath =
     (case parse workerAddr of
        Inl err \<Rightarrow>
          Inl (Formatted (''parsing worker address '' @ go_quote workerAddr @ '': '' @ Error_text err) (Some err))
      | Inr parsed \<Rightarrow>
          (if urlScheme parsed = '''' \<or> urlHostname parsed = '''' then
             Inl (Formatted (''worker address '' @ go_quote workerAddr @ '' has no scheme or host'') None)
           else if hostPort = '''' then
             Inl (Formatted (''no host port for worker address '' @ go_quote workerAddr) None)
           else Inr (urlScheme parsed @ ''://'' @ urlHostname parsed @ '':'' @ hostPort @ healthCheckPath)))"

definition mergeTaskUpdate :: "Task \<Rightarrow> Task \<Rightarrow> Task" where
  "mergeTaskUpdate persisted incoming =
     (if tState persisted \<noteq> tState incoming \<and>
         \<not> IsValidTransition NewStateMachine (tState persisted) (tState incoming)
      then persisted
      else persisted\<lparr>tState := tState incoming, tStartTime := tStartTime incoming,
             tFinishTime := tFinishTime incoming, tContainerID := tContainerID incoming,
             tExposedPorts := tExposedPorts incoming, tHostPorts := tHostPorts incoming\<rparr>)"

datatype healthAction =
  healthSkipNotEligible | healthSkipRestartMax | healthActionCheck | healthActionRestart

definition decideHealthAction :: "Task \<Rightarrow> healthAction" where
  "decideHealthAction t =
     (if tState t \<noteq> Running \<and> tState t \<noteq> Failed then healthSkipNotEligible
      else if tRestartCount t \<ge> TaskRestartMax then healthSkipRestartMax
      else if tState t = Running then healthActionCheck
      else healthActionRestart)"

text \<open>\<open>None\<close> stands for \<open>("", false)\<close>. The first key of the range is entry number \<open>i\<close>.\<close>

definition getHostPort :: "nat \<Rightarrow> PortMap \<Rightarrow> panic + string option" where
  "getHostPort i ports =
     (case ports of
        None \<Rightarrow> Inr None
      | Some entries \<Rightarrow>
          (if entries = [] then Inr None
           else (case snd (entries ! (i mod length entries)) of
                   [] \<Rightarrow> Inl IndexOutOfRange
                 | b # _ \<Rightarrow> Inr (Some (HostPort b)))))"

section \<open>Guarded helpers\<close>

definition taskLocked ::
  "('q, 's, 'e, 'w) menv \<Rightarrow> string \<Rightarrow> UUID \<Rightarrow> ('q, 's, 'e) Manager \<Rightarrow> go_error + Task" where
  "taskLocked M op i m =
     (case Get (me_taskdb M) (me_uuid_String M i) (mTaskDb m) of
        Inl err \<Rightarrow> Inl (manager_Wrap op (''reading task '' @ me_uuid_String M i) err)
      | Inr t \<Rightarrow> Inr t)"

definition Manager_putTask ::
  "('q, 's, 'e, 'w) menv \<Rightarrow> Task \<Rightarrow> ('q, 's, 'e) Manager \<Rightarrow> go_error option \<times> ('q, 's, 'e) Manager" where
  "Manager_putTask M t m =
     (case Put (me_taskdb M) (me_uuid_String M (tID t)) t (mTaskDb m) of
        (Some err, s) \<Rightarrow>
          (Some (manager_Wrap ''manager.putTask'' (''storing task '' @ me_uuid_String M (tID t)) err), m\<lparr>mTaskDb := s\<rparr>)
      | (None, s) \<Rightarrow> (None, m\<lparr>mTaskDb := s\<rparr>))"

definition snapshotTasks ::
  "('q, 's, 'e, 'w) menv \<Rightarrow> ('q, 's, 'e) Manager \<Rightarrow> go_error + Task list" where
  "snapshotTasks M m =
     (case List (me_taskdb M) (mTaskDb m) of
        Inl err \<Rightarrow> Inl (manager_Wrap ''manager.snapshotTasks'' ''listing tasks'' err)
      | Inr tasks \<Rightarrow> Inr tasks)"

text \<open>\<open>ErrNotFound\<close> and any other read error both come back as \<open>(Task{}, false)\<close>.\<close>

definition Manager_LookupTask ::
  "('q, 's, 'e, 'w) menv \<Rightarrow> UUID \<Rightarrow> ('q, 's, 'e) Manager \<Rightarrow> Task option" where
  "Manager_LookupTask M i m =
     (case taskLocked M ''manager.LookupTask'' i m of
        Inl err \<Rightarrow> None
      | Inr t \<Rightarrow> Some t)"

definition workerForTask :: "UUID \<Rightarrow> ('q, 's, 'e) Manager \<Rightarrow> string option" where
  "workerForTask i m = mTaskWorkerMap m i"

definition assignmentFor ::
  "('q, 's, 'e, 'w) menv \<Rightarrow> UUID \<Rightarrow> ('q, 's, 'e) Manager \<Rightarrow> (string \<times> Task) option" where
  "assignmentFor M i m =
     (case mTaskWorkerMap m i of
        None \<Rightarrow> None
      | Some worker \<Rightarrow>
          (case taskLocked M ''manager.assignmentFor'' i m of
             Inl err \<Rightarrow> None
           | Inr t \<Rightarrow> Some (worker, t)))"

definition enqueueEvent ::
  "('q, 's, 'e, 'w) menv \<Rightarrow> TaskEvent \<Rightarrow> ('q, 's, 'e) Manager \<Rightarrow> ('q, 's, 'e) Manager" where
  "enqueueEvent M te m = m\<lparr>mPending := Enqueue (me_queue M) te (mPending m)\<rparr>"

definition nextPendingEvent ::
  "('q, 's, 'e, 'w) menv \<Rightarrow> ('q, 's, 'e) Manager \<Rightarrow> TaskEvent option \<times> ('q, 's, 'e) Manager" where
  "nextPendingEvent M m = (let (r, q) = Dequeue (me_queue M) (mPending m) in (r, m\<lparr>mPending := q\<rparr>))"

text \<open>Reading a missing key of a Go map gives the zero value, here the nil slice.\<close>

definition assignTask ::
  "('q, 's, 'e, 'w) menv \<Rightarrow> string \<Rightarrow> TaskEvent \<Rightarrow> ('q, 's, 'e) Manager \<Rightarrow> ('q, 's, 'e) Manager" where
  "assignTask M workerName te m =
     m\<lparr>mEventDb := snd (Put (me_eventdb M) (me_uuid_String M (teID te)) te (mEventDb m)),
       mWorkerTaskMap := (mWorkerTaskMap m)(workerName \<mapsto>
         (case mWorkerTaskMap m workerName of None \<Rightarrow> [] | Some ts \<Rightarrow> ts) @ [tID (teTask te)]),
       mTaskWorkerMap := (mTaskWorkerMap m)(tID (teTask te) \<mapsto> workerName)\<rparr>"

text \<open>The routing clean-up that \<open>unassignTask\<close> and \<open>retireTask\<close> end with.\<close>

definition drop_route :: "string \<Rightarrow> UUID \<Rightarrow> ('q, 's, 'e) Manager \<Rightarrow> ('q, 's, 'e) Manager" where
  "drop_route workerName taskID m =
     (let m1 = m\<lparr>mTaskWorkerMap := (mTaskWorkerMap m)(taskID := None)\<rparr>
      in case mWorkerTaskMap m1 workerName of
           None \<Rightarrow> m1
         | Some assigned \<Rightarrow>
             (let idx = slices_Index assigned taskID
              in if idx \<ge> 0
                 then m1\<lparr>mWorkerTaskMap := (mWorkerTaskMap m1)(workerName \<mapsto>
                        slices_Delete assigned (nat idx) (nat (idx + 1)))\<rparr>
                 else m1))"

definition unassignTask :: "string \<Rightarrow> UUID \<Rightarrow> ('q, 's, 'e) Manager \<Rightarrow> ('q, 's, 'e) Manager" where
  "unassignTask workerName taskID m = drop_route workerName taskID m"

definition applyWorkerReport ::
  "('q, 's, 'e, 'w) menv \<Rightarrow> Task \<Rightarrow> ('q, 's, 'e) Manager \<Rightarrow> bool \<times> ('q, 's, 'e) Manager" where
  "applyWorkerReport M reported m =
     (case taskLocked M ''manager.applyWorkerReport'' (tID reported) m of
        Inl err \<Rightarrow> (False, m)
      | Inr persisted \<Rightarrow>
          (True, m\<lparr>mTaskDb := snd (Put (me_taskdb M) (me_uuid_String M (tID reported))
                     (mergeTaskUpdate persisted reported) (mTaskDb m))\<rparr>))"

definition beginRestart ::
  "('q, 's, 'e, 'w) menv \<Rightarrow> UUID \<Rightarrow> ('q, 's, 'e) Manager \<Rightarrow> Task option \<times> ('q, 's, 'e) Manager" where
  "beginRestart M uid m =
     (case taskLocked M ''manager.beginRestart'' uid m of
        Inl err \<Rightarrow> (None, m)
      | Inr t \<Rightarrow>
          (let t' = t\<lparr>tState := Scheduled, tRestartCount := wrap64 (tRestartCount t + 1)\<rparr>
           in case Put (me_taskdb M) (me_uuid_String M uid) t' (mTaskDb m) of
                (Some err, s) \<Rightarrow> (None, m\<lparr>mTaskDb := s\<rparr>)
              | (None, s) \<Rightarrow> (Some t', m\<lparr>mTaskDb := s\<rparr>)))"

definition retireTask ::
  "('q, 's, 'e, 'w) menv \<Rightarrow> string \<Rightarrow> UUID \<Rightarrow> ('q, 's, 'e) Manager \<Rightarrow> ('q, 's, 'e) Manager" where
  "retireTask M worker taskUID m =
     drop_route worker taskUID
       (case taskLocked M ''manager.retireTask'' taskUID m of
          Inl err \<Rightarrow> m
        | Inr t \<Rightarrow> m\<lparr>mTaskDb := snd (Put (me_taskdb M) (me_uuid_String M taskUID)
                                    (t\<lparr>tState := Completed\<rparr>) (mTaskDb m))\<rparr>)"

definition pickWorker ::
  "('q, 's, 'e, 'w) menv \<Rightarrow> Task \<Rightarrow> ('q, 's, 'e) Manager \<Rightarrow> 'w \<Rightarrow>
   panic + Node option \<times> ('q, 's, 'e) Manager \<times> 'w" where
  "pickWorker M t m w =
     (let candidates = SelectCandidateNodes (mScheduler m) t (mWorkerNodes m)
      in if candidates = [] then Inr (None, m, w)
         else
           (case Score (me_sched M) t candidates (mScheduler m) w of
              Inl p \<Rightarrow> Inl p
            | Inr (Inl err, s, w1) \<Rightarrow> Inr (None, m\<lparr>mScheduler := s\<rparr>, w1)
            | Inr (Inr scored, s, w1) \<Rightarrow>
                (if scored = [] then Inr (None, m\<lparr>mScheduler := s\<rparr>, w1)
                 else Inr (Some (Pick s scored), m\<lparr>mScheduler := s\<rparr>, w1))))"

section \<open>Operations\<close>

text \<open>\<open>dbs\<close> is what \<open>store.GetDBs\<close> returned: the task store and the event store.\<close>

definition NewManager ::
  "('q, 's, 'e, 'w) menv \<Rightarrow> WorkerMetadata list \<Rightarrow> string \<Rightarrow> string \<Rightarrow> (go_error + 's \<times> 'e) \<Rightarrow>
   go_error + ('q, 's, 'e) Manager" where
  "NewManager M workers schedulerType dbType dbs =
     (let workerTaskMap = fold (\<lambda>w acc. acc(wmName w \<mapsto> [])) workers Map.empty;
          nodes = map (\<lambda>w. NewNode (wmName w) (wmAddress w) ''worker'') workers
      in case GetScheduler schedulerType of
           Inl err \<Rightarrow> Inl (manager_Wrap ''manager.NewManager'' ''unable to get scheduler'' err)
         | Inr s \<Rightarrow>
             (case dbs of
                Inl err \<Rightarrow> Inl (manager_Wrap ''manager.NewManager''
                  (''unable to get dbs for db type '' @ [CHR 0x27] @ dbType @ [CHR 0x27]) err)
              | Inr (taskDb, eventDb) \<Rightarrow>
                  Inr \<lparr>mPending = New (me_queue M), mTaskDb = taskDb, mEventDb = eventDb,
                       mWorkerTaskMap = workerTaskMap, mTaskWorkerMap = Map.empty,
                       mWorkerNodes = nodes, mScheduler = s\<rparr>))"

text \<open>\<open>errors.Join\<close> drops the nil errors and is nil when nothing is left.\<close>

definition Manager_Close ::
  "('q, 's, 'e, 'w) menv \<Rightarrow> ('q, 's, 'e) Manager \<Rightarrow> go_error option \<times> ('q, 's, 'e) Manager" where
  "Manager_Close M m =
     (let (e1, s1) = Close (me_taskdb M) (mTaskDb m);
          (e2, s2) = Close (me_eventdb M) (mEventDb m);
          m1 = m\<lparr>mTaskDb := s1, mEventDb := s2\<rparr>;
          errs = List.map_filter (\<lambda>e. e) [e1, e2]
      in if errs \<noteq> []
         then (Some (manager_Wrap ''manager.Close'' ''unable to close stores'' (Joined errs)), m1)
         else (None, m1))"

fun workerAddress_loop :: "Node list \<Rightarrow> string \<Rightarrow> string option" where
  "workerAddress_loop [] name = None"
| "workerAddress_loop (n # ns) name = (if nName n = name then Some (nAPI n) else workerAddress_loop ns name)"

definition workerAddress :: "string \<Rightarrow> ('q, 's, 'e) Manager \<Rightarrow> string option" where
  "workerAddress name m = workerAddress_loop (mWorkerNodes m) name"

definition requireWorkerAddress :: "string \<Rightarrow> string \<Rightarrow> ('q, 's, 'e) Manager \<Rightarrow> go_error + string" where
  "requireWorkerAddress op name m =
     (case workerAddress name m of
        None \<Rightarrow> Inl (manager_E op (''no worker address found for worker '' @ name) None)
      | Some addr \<Rightarrow> Inr addr)"

definition SelectWorker ::
  "('q, 's, 'e, 'w) menv \<Rightarrow> Task \<Rightarrow> ('q, 's, 'e) Manager \<Rightarrow> 'w \<Rightarrow>
   panic + (go_error + Node) \<times> ('q, 's, 'e) Manager \<times> 'w" where
  "SelectWorker M t m w =
     (case pickWorker M t m w of
        Inl p \<Rightarrow> Inl p
      | Inr (None, m1, w1) \<Rightarrow>
          Inr (Inl (manager_E ''manager.SelectWorker''
            (''no available candidates match resource request for task '' @ me_uuid_String M (tID t)) None), m1, w1)
      | Inr (Some selected, m1, w1) \<Rightarrow> Inr (Inr selected, m1, w1))"

text \<open>The reports of one worker, applied in the order of its reply.\<close>

fun apply_reports ::
  "('q, 's, 'e, 'w) menv \<Rightarrow> Task list \<Rightarrow> ('q, 's, 'e) Manager \<Rightarrow> ('q, 's, 'e) Manager" where
  "apply_reports M [] m = m"
| "apply_reports M (t # ts) m = apply_reports M ts (snd (applyWorkerReport M t m))"

definition updateTasksFromWorker ::
  "('q, 's, 'e, 'w) menv \<Rightarrow> string \<Rightarrow> ('q, 's, 'e) Manager \<Rightarrow> 'w \<Rightarrow> ('q, 's, 'e) Manager \<times> 'w" where
  "updateTasksFromWorker M workerName m w =
     (case workerAddress workerName m of
        None \<Rightarrow> (m, w)
      | Some workerURL \<Rightarrow>
          (case me_Get M (WorkerTasksURL workerURL) w of
             (Inl err, w1) \<Rightarrow> (m, w1)
           | (Inr resp, w1) \<Rightarrow>
               (if StatusCode resp \<noteq> StatusOK then (m, w1)
                else
                  (case decode_Tasks (me_codec M) (Body resp) of
                     Inl err \<Rightarrow> (m, w1)
                   | Inr tasks \<Rightarrow> (apply_reports M tasks m, w1)))))"

text \<open>The goroutines of \<open>updateTasks\<close>, one after the other in some order of completion.\<close>

fun update_goroutines ::
  "('q, 's, 'e, 'w) menv \<Rightarrow> nat list \<Rightarrow> ('q, 's, 'e) Manager \<Rightarrow> 'w \<Rightarrow> ('q, 's, 'e) Manager \<times> 'w" where
  "update_goroutines M [] m w = (m, w)"
| "update_goroutines M (i # is) m w =
     (let (m1, w1) = updateTasksFromWorker M (nName (mWorkerNodes m ! i)) m w
      in update_goroutines M is m1 w1)"

definition Manager_updateTasks ::
  "('q, 's, 'e, 'w) menv \<Rightarrow> ('q, 's, 'e) Manager \<Rightarrow> 'w \<Rightarrow> ('q, 's, 'e) Manager \<times> 'w" where
  "Manager_updateTasks M m w = update_goroutines M (me_order M (length (mWorkerNodes m))) m w"

definition postTaskEvent ::
  "('q, 's, 'e, 'w) menv \<Rightarrow> string \<Rightarrow> string \<Rightarrow> string \<Rightarrow> TaskEvent \<Rightarrow> 'w \<Rightarrow> (go_error + Task) \<times> 'w" where
  "postTaskEvent M op workerName workerAddr te w =
     (case encode_TaskEvent (me_codec M) te of
        Inl err \<Rightarrow> (Inl (manager_E op ''marshalling task event'' (Some err)), w)
      | Inr data \<Rightarrow>
          (case me_Post M (WorkerTasksURL workerAddr) ''application/json'' data w of
             (Inl err, w1) \<Rightarrow>
               (Inl (manager_E op (''connecting to worker '' @ workerName)
                  (Some (Joined [errWorkerUnreachable, err]))), w1)
           | (Inr resp, w1) \<Rightarrow>
               (if StatusCode resp \<noteq> StatusCreated then
                  (case decode_Error (me_codec M) (Body resp) of
                     Inl err \<Rightarrow> (Inl (manager_E op ''decoding error response'' (Some err)), w1)
                   | Inr e \<Rightarrow>
                       (Inl (manager_E op (''worker '' @ workerName @ '' rejected task ('' @ itoa (erCode e) @
                          ''): '' @ erMessage e) None), w1))
                else
                  (case decode_Task (me_codec M) (Body resp) of
                     Inl err \<Rightarrow> (Inl (manager_E op ''decoding created task'' (Some err)), w1)
                   | Inr created \<Rightarrow> (Inr created, w1)))))"

definition Manager_stopTask ::
  "('q, 's, 'e, 'w) menv \<Rightarrow> string \<Rightarrow> UUID \<Rightarrow> ('q, 's, 'e) Manager \<Rightarrow> 'w \<Rightarrow> ('q, 's, 'e) Manager \<times> 'w" where
  "Manager_stopTask M worker taskID m w =
     (case requireWorkerAddress ''manager.stopTask'' worker m of
        Inl err \<Rightarrow> (m, w)
      | Inr workerAddr \<Rightarrow>
          (let url = WorkerTasksURL workerAddr @ ''/'' @ me_uuid_String M taskID
           in case me_NewRequest M ''DELETE'' url of
                Some err \<Rightarrow> (m, w)
              | None \<Rightarrow>
                  (case me_Do_Delete M url w of
                     (Inl err, w1) \<Rightarrow> (m, w1)
                   | (Inr resp, w1) \<Rightarrow>
                       (if StatusCode resp \<noteq> StatusNoContent then (m, w1)
                        else (retireTask M worker taskID m, w1)))))"

text \<open>What \<open>SendWork\<close> does with the outcome of the send.\<close>

definition finish_send ::
  "('q, 's, 'e, 'w) menv \<Rightarrow> TaskEvent \<Rightarrow> string \<Rightarrow> go_error + Task \<Rightarrow> ('q, 's, 'e) Manager \<Rightarrow> ('q, 's, 'e) Manager" where
  "finish_send M te workerName sent m =
     (case sent of
        Inl err \<Rightarrow>
          (if errors_Is err errWorkerUnreachable
           then enqueueEvent M te (unassignTask workerName (tID (teTask te)) m)
           else m)
      | Inr newTask \<Rightarrow> snd (Manager_putTask M newTask m))"

definition SendWork ::
  "('q, 's, 'e, 'w) menv \<Rightarrow> ('q, 's, 'e) Manager \<Rightarrow> 'w \<Rightarrow> panic + ('q, 's, 'e) Manager \<times> 'w" where
  "SendWork M m w =
     (case nextPendingEvent M m of
        (None, m0) \<Rightarrow> Inr (m0, w)
      | (Some taskEvent, m0) \<Rightarrow>
          (let t = teTask taskEvent
           in case assignmentFor M (tID t) m0 of
                Some (taskWorker, persistedTask) \<Rightarrow>
                  (if tState t = Completed \<and> IsValidTransition NewStateMachine (tState persistedTask) (tState t)
                   then Inr (Manager_stopTask M taskWorker (tID t) m0 w)
                   else Inr (m0, w))
              | None \<Rightarrow>
                  (case SelectWorker M (teTask taskEvent) m0 w of
                     Inl p \<Rightarrow> Inl p
                   | Inr (Inl err, m1, w1) \<Rightarrow> Inr (m1, w1)
                   | Inr (Inr selected, m1, w1) \<Rightarrow>
                       (let m2 = assignTask M (nName selected) taskEvent m1;
                            (sent, w2) = postTaskEvent M ''manager.SendWork'' (nName selected) (nAPI selected) taskEvent w1
                        in Inr (finish_send M taskEvent (nName selected) sent m2, w2)))))"

definition Manager_AddTask ::
  "('q, 's, 'e, 'w) menv \<Rightarrow> TaskEvent \<Rightarrow> ('q, 's, 'e) Manager \<Rightarrow> ('q, 's, 'e) Manager" where
  "Manager_AddTask M te m = enqueueEvent M te m"

definition Manager_GetTasks ::
  "('q, 's, 'e, 'w) menv \<Rightarrow> ('q, 's, 'e) Manager \<Rightarrow> go_error + Task list" where
  "Manager_GetTasks M m =
     (case snapshotTasks M m of
        Inl err \<Rightarrow> Inl (manager_Wrap ''manager.GetTasks'' ''snapshotting tasks'' err)
      | Inr tasks \<Rightarrow> Inr tasks)"

definition checkTaskHealth ::
  "('q, 's, 'e, 'w) menv \<Rightarrow> Task \<Rightarrow> ('q, 's, 'e) Manager \<Rightarrow> 'w \<Rightarrow> panic + go_error option \<times> 'w" where
  "checkTaskHealth M t m w =
     (let op = ''manager.checkTaskHealth''; tid = me_uuid_String M (tID t) in
      case workerForTask (tID t) m of
        None \<Rightarrow> Inr (Some (manager_E op (''no worker found for task '' @ tid) None), w)
      | Some workerName \<Rightarrow>
          (let (i, w1) = me_range_first M w in
           case getHostPort i (tHostPorts t) of
             Inl p \<Rightarrow> Inl p
           | Inr None \<Rightarrow> Inr (Some (manager_E op (''no host port found for task '' @ tid) None), w1)
           | Inr (Some hostPort) \<Rightarrow>
               (case requireWorkerAddress op workerName m of
                  Inl err \<Rightarrow> Inr (Some err, w1)
                | Inr workerAddr \<Rightarrow>
                    (case healthCheckURL (me_url_Parse M) workerAddr hostPort (tHealthCheck t) of
                       Inl err \<Rightarrow>
                         Inr (Some (manager_E op (''building health check url for task '' @ tid) (Some err)), w1)
                     | Inr url \<Rightarrow>
                         (case me_Get M url w1 of
                            (Inl err, w2) \<Rightarrow>
                              Inr (Some (manager_E op (''connecting to health check '' @ url) (Some err)), w2)
                          | (Inr resp, w2) \<Rightarrow>
                              (if StatusCode resp \<noteq> StatusOK
                               then Inr (Some (manager_E op (''health check for task '' @ tid @ '' did not return 200'') None), w2)
                               else Inr (None, w2)))))))"

text \<open>
  \<open>restart_event\<close> is the event that \<open>restartTask\<close> sends, made from \<open>uuid.New\<close>, \<open>time.Now\<close>
  and the task that \<open>beginRestart\<close> returned.
\<close>

definition restart_event :: "('q, 's, 'e, 'w) menv \<Rightarrow> Task \<Rightarrow> 'w \<Rightarrow> TaskEvent \<times> 'w" where
  "restart_event M t w =
     (let (i, w1) = me_uuid_New M w; (now, w2) = me_now M w1
      in (\<lparr>teID = i, teState = Running, teTimestamp = now, teTask = t\<rparr>, w2))"

definition restartTask ::
  "('q, 's, 'e, 'w) menv \<Rightarrow> Task \<Rightarrow> ('q, 's, 'e) Manager \<Rightarrow> 'w \<Rightarrow> ('q, 's, 'e) Manager \<times> 'w" where
  "restartTask M t m w =
     (case workerForTask (tID t) m of
        None \<Rightarrow> (m, w)
      | Some wn \<Rightarrow>
          (case requireWorkerAddress ''manager.restartTask'' wn m of
             Inl err \<Rightarrow> (m, w)
           | Inr wAddress \<Rightarrow>
               (case beginRestart M (tID t) m of
                  (None, m1) \<Rightarrow> (m1, w)
                | (Some t', m1) \<Rightarrow>
                    (let (te, w1) = restart_event M t' w;
                         (sent, w2) = postTaskEvent M ''manager.restartTask'' wn wAddress te w1
                     in case sent of
                          Inl err \<Rightarrow>
                            (if errors_Is err errWorkerUnreachable then (enqueueEvent M te m1, w2) else (m1, w2))
                        | Inr newTask \<Rightarrow> (m1, w2)))))"

fun healthChecks_loop ::
  "('q, 's, 'e, 'w) menv \<Rightarrow> Task list \<Rightarrow> ('q, 's, 'e) Manager \<Rightarrow> 'w \<Rightarrow> panic + ('q, 's, 'e) Manager \<times> 'w" where
  "healthChecks_loop M [] m w = Inr (m, w)"
| "healthChecks_loop M (t # ts) m w =
     (case decideHealthAction t of
        healthSkipNotEligible \<Rightarrow> healthChecks_loop M ts m w
      | healthSkipRestartMax \<Rightarrow> healthChecks_loop M ts m w
      | healthActionCheck \<Rightarrow>
          (case checkTaskHealth M t m w of
             Inl p \<Rightarrow> Inl p
           | Inr (None, w1) \<Rightarrow> healthChecks_loop M ts m w1
           | Inr (Some err, w1) \<Rightarrow> (let (m1, w2) = restartTask M t m w1 in healthChecks_loop M ts m1 w2))
      | healthActionRestart \<Rightarrow> (let (m1, w1) = restartTask M t m w in healthChecks_loop M ts m1 w1))"

definition doHealthChecks ::
  "('q, 's, 'e, 'w) menv \<Rightarrow> ('q, 's, 'e) Manager \<Rightarrow> 'w \<Rightarrow> panic + ('q, 's, 'e) Manager \<times> 'w" where
  "doHealthChecks M m w =
     (case Manager_GetTasks M m of
        Inl err \<Rightarrow> Inr (m, w)
      | Inr tasks \<Rightarrow> healthChecks_loop M tasks m w)"

section \<open>Handlers\<close>

datatype manager_payload = EventPayload TaskEvent | TaskListPayload "Task list"

type_synonym manager_reply = "manager_payload body reply"

definition Manager_StartTaskHandler ::
  "('q, 's, 'e, 'w) menv \<Rightarrow> string \<Rightarrow> ('q, 's, 'e) Manager \<Rightarrow> manager_reply \<times> ('q, 's, 'e) Manager" where
  "Manager_StartTaskHandler M request m =
     (case me_decode_TaskEvent M request of
        Inl err \<Rightarrow> (WriteError StatusBadRequest ''error unmarshalling body'', m)
      | Inr taskEvent \<Rightarrow>
          (WriteJSON StatusCreated (PayloadBody (EventPayload taskEvent)), Manager_AddTask M taskEvent m))"

definition Manager_StopTaskHandler ::
  "('q, 's, 'e, 'w) menv \<Rightarrow> string \<Rightarrow> ('q, 's, 'e) Manager \<Rightarrow> 'w \<Rightarrow>
   manager_reply \<times> ('q, 's, 'e) Manager \<times> 'w" where
  "Manager_StopTaskHandler M taskID m w =
     (if taskID = '''' then (WriteError StatusBadRequest ''no taskID passed in request'', m, w)
      else
        (case me_uuid_Parse M taskID of
           Inl err \<Rightarrow> (WriteError StatusBadRequest ''taskID is not a valid uuid'', m, w)
         | Inr parsedTaskID \<Rightarrow>
             (case Manager_LookupTask M parsedTaskID m of
                None \<Rightarrow> (WriteError StatusNotFound ''task does not exist on manager'', m, w)
              | Some t \<Rightarrow>
                  (let (i, w1) = me_uuid_New M w;
                       (now, w2) = me_now M w1;
                       te = \<lparr>teID = i, teState = Completed, teTimestamp = now, teTask = t\<lparr>tState := Completed\<rparr>\<rparr>
                   in (WriteHeader StatusNoContent, Manager_AddTask M te m, w2)))))"

definition Manager_GetTasksHandler ::
  "('q, 's, 'e, 'w) menv \<Rightarrow> ('q, 's, 'e) Manager \<Rightarrow> manager_reply" where
  "Manager_GetTasksHandler M m =
     (case Manager_GetTasks M m of
        Inl err \<Rightarrow> WriteError StatusInternalServerError ''could not list tasks''
      | Inr tasks \<Rightarrow> WriteJSON StatusOK (PayloadBody (TaskListPayload tasks)))"

end
