(* ===== verification/Orch_Manager_Correct.thy ===== *)
theory Orch_Manager_Correct
  imports Orch_Manager
begin

text \<open>
  What the manager guarantees. Its task store is read through \<open>known\<close>, the record it holds
  for an identifier. The lemmas are proved once, in the locale \<open>manager_env\<close>, from the
  contract of the task store, whose operations may fail, and that of the queue; nothing is
  asked of the event store, of the HTTP client or of what the workers answer.
\<close>

section \<open>The abstract view\<close>

definition known :: "('s \<Rightarrow> string \<rightharpoonup> Task) \<Rightarrow> ('q, 's, 'e, 'w) menv \<Rightarrow> ('q, 's, 'e) Manager \<Rightarrow> UUID \<rightharpoonup> Task" where
  "known held M m i = held (mTaskDb m) (me_uuid_String M i)"

text \<open>Every record is held under its own identifier.\<close>

definition keyed_tasks ::
  "('s \<Rightarrow> string \<rightharpoonup> Task) \<Rightarrow> ('s \<Rightarrow> bool) \<Rightarrow> ('q, 's, 'e, 'w) menv \<Rightarrow> ('q, 's, 'e) Manager \<Rightarrow> bool" where
  "keyed_tasks held ok M m \<longleftrightarrow> ok (mTaskDb m) \<and>
     (\<forall>k t. held (mTaskDb m) k = Some t \<longrightarrow> k = me_uuid_String M (tID t))"

text \<open>
  The routing maps agree: the workers with a task list are exactly the configured ones, and
  a task that is routed to a worker is on that worker's list.
\<close>

definition routing_ok :: "('q, 's, 'e) Manager \<Rightarrow> bool" where
  "routing_ok m \<longleftrightarrow>
     dom (mWorkerTaskMap m) = nName ` set (mWorkerNodes m) \<and>
     (\<forall>i wn. mTaskWorkerMap m i = Some wn \<longrightarrow> (\<exists>ts. mWorkerTaskMap m wn = Some ts \<and> i \<in> set ts))"

lemma routing_okI:
  assumes "dom (mWorkerTaskMap m) = nName ` set (mWorkerNodes m)"
    and "\<And>i wn. mTaskWorkerMap m i = Some wn \<Longrightarrow> \<exists>ts. mWorkerTaskMap m wn = Some ts \<and> i \<in> set ts"
  shows "routing_ok m"
  using assms by (simp add: routing_ok_def)

lemma routing_okD:
  assumes "routing_ok m"
  shows "dom (mWorkerTaskMap m) = nName ` set (mWorkerNodes m)"
    and "mTaskWorkerMap m i = Some wn \<Longrightarrow> \<exists>ts. mWorkerTaskMap m wn = Some ts \<and> i \<in> set ts"
  using assms by (simp_all add: routing_ok_def)

text \<open>What of the manager an operation on the routing maps can see.\<close>

lemma routing_ok_cong:
  assumes "mWorkerTaskMap m' = mWorkerTaskMap m" and "mTaskWorkerMap m' = mTaskWorkerMap m"
    and "mWorkerNodes m' = mWorkerNodes m"
  shows "routing_ok m' = routing_ok m"
  using assms by (simp add: routing_ok_def)

section \<open>Routing\<close>

lemma drop_route_fields [simp]:
  "mPending (drop_route wn i m) = mPending m" "mTaskDb (drop_route wn i m) = mTaskDb m"
  "mEventDb (drop_route wn i m) = mEventDb m" "mWorkerNodes (drop_route wn i m) = mWorkerNodes m"
  "mScheduler (drop_route wn i m) = mScheduler m"
  "mTaskWorkerMap (drop_route wn i m) = (mTaskWorkerMap m)(i := None)"
  by (simp_all add: drop_route_def Let_def split: option.splits)

lemma drop_route_listed [simp]:
  "mWorkerTaskMap (drop_route wn i m) =
     (case mWorkerTaskMap m wn of None \<Rightarrow> mWorkerTaskMap m
      | Some ts \<Rightarrow> (mWorkerTaskMap m)(wn \<mapsto> remove1 i ts))"
proof (cases "mWorkerTaskMap m wn")
  case (Some ts)
  have "remove1 i ts = remove_first i ts" by simp
  with Some show ?thesis
    by (auto simp: drop_route_def Let_def remove_first_def simp del: remove_first_remove1)
qed (simp add: drop_route_def Let_def)

lemma drop_route_routing [routing]: "routing_ok m \<Longrightarrow> routing_ok (drop_route wn i m)"
proof (rule routing_okI)
  assume m: "routing_ok m"
  show "dom (mWorkerTaskMap (drop_route wn i m)) = nName ` set (mWorkerNodes (drop_route wn i m))"
    using routing_okD(1) [OF m] by (auto split: option.splits)
  fix j w
  assume "mTaskWorkerMap (drop_route wn i m) j = Some w"
  then have "j \<noteq> i" and "mTaskWorkerMap m j = Some w" by (auto split: if_splits)
  with routing_okD(2) [OF m] show "\<exists>ts. mWorkerTaskMap (drop_route wn i m) w = Some ts \<and> j \<in> set ts"
    by (fastforce split: option.splits)
qed

lemma assignTask_fields [simp]:
  "mPending (assignTask M wn te m) = mPending m" "mTaskDb (assignTask M wn te m) = mTaskDb m"
  "mWorkerNodes (assignTask M wn te m) = mWorkerNodes m" "mScheduler (assignTask M wn te m) = mScheduler m"
  "mTaskWorkerMap (assignTask M wn te m) = (mTaskWorkerMap m)(tID (teTask te) \<mapsto> wn)"
  by (simp_all add: assignTask_def)

lemma assignTask_routing [routing]:
  "routing_ok m \<Longrightarrow> wn \<in> nName ` set (mWorkerNodes m) \<Longrightarrow> routing_ok (assignTask M wn te m)"
proof (rule routing_okI)
  assume m: "routing_ok m" and wn: "wn \<in> nName ` set (mWorkerNodes m)"
  show "dom (mWorkerTaskMap (assignTask M wn te m)) = nName ` set (mWorkerNodes (assignTask M wn te m))"
    using routing_okD(1) [OF m] wn by (auto simp: assignTask_def)
  fix j w
  assume "mTaskWorkerMap (assignTask M wn te m) j = Some w"
  then show "\<exists>ts. mWorkerTaskMap (assignTask M wn te m) w = Some ts \<and> j \<in> set ts"
    using routing_okD(2) [OF m, of j w] by (cases "j = tID (teTask te)") (auto simp: assignTask_def)
qed

lemma enqueueEvent_fields [simp]:
  "mTaskDb (enqueueEvent M te m) = mTaskDb m" "mEventDb (enqueueEvent M te m) = mEventDb m"
  "mWorkerNodes (enqueueEvent M te m) = mWorkerNodes m" "mScheduler (enqueueEvent M te m) = mScheduler m"
  "mTaskWorkerMap (enqueueEvent M te m) = mTaskWorkerMap m"
  "mWorkerTaskMap (enqueueEvent M te m) = mWorkerTaskMap m"
  "mPending (enqueueEvent M te m) = Enqueue (me_queue M) te (mPending m)"
  by (simp_all add: enqueueEvent_def)

lemma nextPendingEvent_frame:
  assumes "nextPendingEvent M m = (r, m0)"
  shows "m0 = m\<lparr>mPending := mPending m0\<rparr>"
    and "mTaskDb m0 = mTaskDb m" "mEventDb m0 = mEventDb m" "mWorkerNodes m0 = mWorkerNodes m"
    and "mScheduler m0 = mScheduler m" "mTaskWorkerMap m0 = mTaskWorkerMap m"
    and "mWorkerTaskMap m0 = mWorkerTaskMap m"
  using assms by (auto simp: nextPendingEvent_def split: prod.splits)

text \<open>Picking a worker touches the scheduler only, and gives one of the configured nodes.\<close>

lemma pickWorker_outcome:
  assumes "pickWorker M t m w = Inr (r, m1, w1)"
  shows "\<exists>s. m1 = m\<lparr>mScheduler := s\<rparr>" and "r = Some n \<Longrightarrow> n \<in> set (mWorkerNodes m)"
proof -
  show "\<exists>s. m1 = m\<lparr>mScheduler := s\<rparr>"
    using assms by (auto simp: pickWorker_def Let_def split: if_splits sum.splits prod.splits intro: exI [of _ "mScheduler m"])
  assume "r = Some n"
  with assms obtain scored s where
    sc: "Score (me_sched M) t (SelectCandidateNodes (mScheduler m) t (mWorkerNodes m)) (mScheduler m) w =
      Inr (Inr scored, s, w1)" "scored \<noteq> []" "n = Pick s scored"
    by (auto simp: pickWorker_def Let_def split: if_splits sum.splits prod.splits)
  show "n \<in> set (mWorkerNodes m)"
    unfolding sc(3) by (rule sch.chosen_is_node [OF sc(1,2)])
qed

lemma SelectWorker_outcome:
  assumes "SelectWorker M t m w = Inr (r, m1, w1)"
  shows "\<exists>s. m1 = m\<lparr>mScheduler := s\<rparr>" and "r = Inr n \<Longrightarrow> n \<in> set (mWorkerNodes m)"
  using assms pickWorker_outcome [of M t m w]
  by (auto simp: SelectWorker_def split: sum.splits option.splits prod.splits)

lemma workerAddress_node: "workerAddress wn m = Some a \<Longrightarrow> \<exists>n \<in> set (mWorkerNodes m). nName n = wn \<and> nAPI n = a"
proof -
  have "workerAddress_loop ns wn = Some a \<Longrightarrow> \<exists>n \<in> set ns. nName n = wn \<and> nAPI n = a" for ns
    by (induction ns) (auto split: if_splits)
  then show "workerAddress wn m = Some a \<Longrightarrow> ?thesis" by (simp add: workerAddress_def)
qed

lemma workerAddress_exists:
  "workerAddress wn m = None \<longleftrightarrow> wn \<notin> nName ` set (mWorkerNodes m)"
proof -
  have "workerAddress_loop ns wn = None \<longleftrightarrow> wn \<notin> nName ` set ns" for ns
    by (induction ns) auto
  then show ?thesis by (simp add: workerAddress_def)
qed

section \<open>Reports\<close>

lemma merge_keeps [simp]:
  "tID (mergeTaskUpdate p r) = tID p" "tName (mergeTaskUpdate p r) = tName p"
  "tImage (mergeTaskUpdate p r) = tImage p" "tMemory (mergeTaskUpdate p r) = tMemory p"
  "tDisk (mergeTaskUpdate p r) = tDisk p" "tRestartPolicy (mergeTaskUpdate p r) = tRestartPolicy p"
  "tHealthCheck (mergeTaskUpdate p r) = tHealthCheck p" "tRestartCount (mergeTaskUpdate p r) = tRestartCount p"
  by (simp_all add: mergeTaskUpdate_def)

lemma merge_state:
  "tState (mergeTaskUpdate p r) = (if valid_edge (tState p) (tState r) then tState r else tState p)"
  by (simp add: mergeTaskUpdate_def)

lemma merge_walk: "walk (tState p) (tState (mergeTaskUpdate p r))"
  by (simp add: merge_state walk_refl walk_edge)

section \<open>What the passes may do to a record\<close>

text \<open>
  The specification of the update pass and of the health check pass: a record they find
  is changed by merged reports and by restarts, a restart only from \<open>Running\<close> or
  \<open>Failed\<close> and only while the budget lasts; no record appears and none goes away.
\<close>

definition restarted :: "Task \<Rightarrow> Task" where
  "restarted t = t\<lparr>tState := Scheduled, tRestartCount := wrap64 (tRestartCount t + 1)\<rparr>"

inductive record_move :: "Task \<Rightarrow> Task \<Rightarrow> bool" where
  move_refl: "record_move p p"
| move_report: "record_move p q \<Longrightarrow> record_move p (mergeTaskUpdate q r)"
| move_restart: "record_move p q \<Longrightarrow> tState q \<in> {Running, Failed} \<Longrightarrow> tRestartCount q < TaskRestartMax \<Longrightarrow>
    record_move p (restarted q)"

definition moves :: "(UUID \<rightharpoonup> Task) \<Rightarrow> (UUID \<rightharpoonup> Task) \<Rightarrow> bool" where
  "moves K K' \<longleftrightarrow> (\<forall>i. case K i of None \<Rightarrow> K' i = None | Some p \<Rightarrow> \<exists>p'. K' i = Some p' \<and> record_move p p')"

lemma record_move_trans: "record_move q r \<Longrightarrow> record_move p q \<Longrightarrow> record_move p r"
  by (induction rule: record_move.induct) (auto intro: record_move.intros)

lemma moves_refl [simp]: "moves K K"
  by (auto simp: moves_def split: option.splits intro: move_refl)

lemma movesD: "moves K K' \<Longrightarrow> K i = Some p \<Longrightarrow> \<exists>p'. K' i = Some p' \<and> record_move p p'"
  unfolding moves_def by (drule spec [of _ i]) simp

lemma moves_trans: "moves K K1 \<Longrightarrow> moves K1 K2 \<Longrightarrow> moves K K2"
proof (unfold moves_def, rule allI)
  fix i
  assume "\<forall>i. case K i of None \<Rightarrow> K1 i = None | Some p \<Rightarrow> \<exists>p'. K1 i = Some p' \<and> record_move p p'"
    and "\<forall>i. case K1 i of None \<Rightarrow> K2 i = None | Some p \<Rightarrow> \<exists>p'. K2 i = Some p' \<and> record_move p p'"
  from this [THEN spec, of i]
  show "case K i of None \<Rightarrow> K2 i = None | Some p \<Rightarrow> \<exists>p'. K2 i = Some p' \<and> record_move p p'"
    by (cases "K i"; cases "K1 i"; clarsimp) (blast intro: record_move_trans)
qed

lemma moves_upd: "K i = Some p \<Longrightarrow> record_move p p' \<Longrightarrow> moves K (K(i \<mapsto> p'))"
  by (auto simp: moves_def split: option.splits intro: move_refl)

lemma record_move_walk: "record_move p p' \<Longrightarrow> walk (tState p) (tState p')"
proof (induction rule: record_move.induct)
  case (move_report p q r)
  then show ?case using merge_walk walk_trans by blast
next
  case (move_restart p q)
  then have "valid_edge (tState q) (tState (restarted q))" by (auto simp: restarted_def)
  with move_restart show ?case by (blast intro: walk_step)
qed (rule walk_refl)

lemma record_move_owned: "record_move p p' \<Longrightarrow>
    tID p' = tID p \<and> tName p' = tName p \<and> tImage p' = tImage p \<and> tMemory p' = tMemory p \<and>
    tDisk p' = tDisk p \<and> tRestartPolicy p' = tRestartPolicy p \<and> tHealthCheck p' = tHealthCheck p"
  by (induction rule: record_move.induct) (simp_all add: restarted_def)

lemma restarted_count:
  assumes "in64 (tRestartCount q)" and "tRestartCount q < TaskRestartMax"
  shows "tRestartCount (restarted q) = tRestartCount q + 1"
proof -
  have "in64 (tRestartCount q + 1)" using assms by (simp add: in64_def TaskRestartMax_def)
  then show ?thesis by (simp add: restarted_def wrap64_in64)
qed

lemma record_move_budget: "record_move p p' \<Longrightarrow> in64 (tRestartCount p) \<Longrightarrow>
    in64 (tRestartCount p') \<and> tRestartCount p \<le> tRestartCount p' \<and>
    tRestartCount p' \<le> max TaskRestartMax (tRestartCount p)"
proof (induction rule: record_move.induct)
  case (move_restart p q)
  then have "tRestartCount (restarted q) = tRestartCount q + 1" by (intro restarted_count) auto
  with move_restart show ?case by (auto simp: in64_def TaskRestartMax_def)
qed auto

lemma record_move_Completed: "record_move p p' \<Longrightarrow> tState p = Completed \<Longrightarrow>
    tState p' = Completed \<and> tRestartCount p' = tRestartCount p"
  by (induction rule: record_move.induct) (auto simp: merge_state)

section \<open>The helpers, over the contracts\<close>

locale manager_env =
  fixes M :: "('q, 's, 'e, 'w) menv" and held :: "'s \<Rightarrow> string \<rightharpoonup> Task" and ok :: "'s \<Rightarrow> bool"
    and contents :: "'q Queue \<Rightarrow> TaskEvent list"
  assumes store: "store_contract (me_taskdb M) held ok"
    and que: "queue (me_queue M) contents"
    and uuid_inj: "inj (me_uuid_String M)"

sublocale manager_env \<subseteq> ts: store_contract "me_taskdb M" held ok
  by (rule store)

sublocale manager_env \<subseteq> tq: queue "me_queue M" contents
  by (rule que)

context manager_env
begin

lemma uuid_eq [simp]: "me_uuid_String M i = me_uuid_String M j \<longleftrightarrow> i = j"
  using uuid_inj by (auto dest: injD)

lemma keyed_ok: "keyed_tasks held ok M m \<Longrightarrow> ok (mTaskDb m)"
  by (simp add: keyed_tasks_def)

lemma known_ID: "keyed_tasks held ok M m \<Longrightarrow> known held M m i = Some t \<Longrightarrow> tID t = i"
  unfolding keyed_tasks_def known_def by (metis uuid_eq)

lemma keyed_cong: "mTaskDb m' = mTaskDb m \<Longrightarrow> keyed_tasks held ok M m' = keyed_tasks held ok M m"
  by (simp add: keyed_tasks_def)

lemma known_cong: "mTaskDb m' = mTaskDb m \<Longrightarrow> known held M m' = known held M m"
  by (simp add: known_def fun_eq_iff)

lemma enqueue_known [simp]:
  "known held M (enqueueEvent M te m) = known held M m"
  "keyed_tasks held ok M (enqueueEvent M te m) = keyed_tasks held ok M m"
  by (rule known_cong, simp, rule keyed_cong, simp)

lemma taskLocked_Inr: "keyed_tasks held ok M m \<Longrightarrow> taskLocked M op i m = Inr t \<Longrightarrow> known held M m i = Some t"
  using ts.Get_Inr [OF keyed_ok] by (auto simp: taskLocked_def known_def split: sum.splits)

lemma assignmentFor_Some:
  assumes "keyed_tasks held ok M m" and "assignmentFor M i m = Some (wn, t)"
  shows "mTaskWorkerMap m i = Some wn \<and> known held M m i = Some t"
  using assms taskLocked_Inr by (fastforce simp: assignmentFor_def split: option.splits sum.splits)

text \<open>A write to the task store either happens or leaves every record as it was.\<close>

lemma Put_known:
  assumes k: "keyed_tasks held ok M m" and put: "Put (me_taskdb M) (me_uuid_String M (tID t)) t (mTaskDb m) = (r, s')"
  shows "keyed_tasks held ok M (m\<lparr>mTaskDb := s'\<rparr>) \<and>
    (if r = None then known held M (m\<lparr>mTaskDb := s'\<rparr>) = (known held M m)(tID t \<mapsto> t)
     else known held M (m\<lparr>mTaskDb := s'\<rparr>) = known held M m)"
proof -
  from ts.Put_cases [OF keyed_ok [OF k] put] have "ok s'"
    and "held s' = held (mTaskDb m) \<and> r \<noteq> None \<or>
      held s' = (held (mTaskDb m))(me_uuid_String M (tID t) \<mapsto> t) \<and> r = None"
    by auto
  with k show ?thesis by (cases r) (auto simp: keyed_tasks_def known_def fun_eq_iff split: if_splits)
qed

lemma Put_known_cases:
  assumes "keyed_tasks held ok M m" and "tID t = i"
  defines "m' \<equiv> m\<lparr>mTaskDb := snd (Put (me_taskdb M) (me_uuid_String M i) t (mTaskDb m))\<rparr>"
  shows "keyed_tasks held ok M m' \<and>
    (known held M m' = known held M m \<or> known held M m' = (known held M m)(i \<mapsto> t))"
proof -
  obtain r s' where put: "Put (me_taskdb M) (me_uuid_String M (tID t)) t (mTaskDb m) = (r, s')" by fastforce
  then have "m' = m\<lparr>mTaskDb := s'\<rparr>" using assms(2) by (simp add: m'_def)
  with Put_known [OF assms(1) put] assms(2) show ?thesis by (simp split: if_splits)
qed

lemma applyWorkerReport_effect:
  assumes "keyed_tasks held ok M m"
  shows "\<exists>s. snd (applyWorkerReport M r m) = m\<lparr>mTaskDb := s\<rparr>"
    and "keyed_tasks held ok M (snd (applyWorkerReport M r m))"
    and "known held M (snd (applyWorkerReport M r m)) = known held M m \<or>
      (\<exists>p. known held M m (tID r) = Some p \<and>
         known held M (snd (applyWorkerReport M r m)) = (known held M m)(tID r \<mapsto> mergeTaskUpdate p r))"
proof -
  show "\<exists>s. snd (applyWorkerReport M r m) = m\<lparr>mTaskDb := s\<rparr>"
    by (auto simp: applyWorkerReport_def split: sum.splits intro: exI [of _ "mTaskDb m"])
  show "keyed_tasks held ok M (snd (applyWorkerReport M r m))"
    and "known held M (snd (applyWorkerReport M r m)) = known held M m \<or>
      (\<exists>p. known held M m (tID r) = Some p \<and>
         known held M (snd (applyWorkerReport M r m)) = (known held M m)(tID r \<mapsto> mergeTaskUpdate p r))"
  proof (atomize (full), cases "taskLocked M ''manager.applyWorkerReport'' (tID r) m")
    case (Inr p)
    then have p: "known held M m (tID r) = Some p" using assms taskLocked_Inr by blast
    then have "tID (mergeTaskUpdate p r) = tID r" using known_ID [OF assms] by simp
    from Put_known_cases [OF assms this] p Inr
    show "keyed_tasks held ok M (snd (applyWorkerReport M r m)) \<and>
      (known held M (snd (applyWorkerReport M r m)) = known held M m \<or>
      (\<exists>p. known held M m (tID r) = Some p \<and>
         known held M (snd (applyWorkerReport M r m)) = (known held M m)(tID r \<mapsto> mergeTaskUpdate p r)))"
      by (auto simp: applyWorkerReport_def)
  qed (use assms in \<open>simp add: applyWorkerReport_def\<close>)
qed

lemma beginRestart_effect:
  assumes "keyed_tasks held ok M m" and "beginRestart M i m = (r, m1)"
  shows "\<exists>s. m1 = m\<lparr>mTaskDb := s\<rparr>" and "keyed_tasks held ok M m1"
    and "case r of None \<Rightarrow> known held M m1 = known held M m
         | Some t' \<Rightarrow> \<exists>t. known held M m i = Some t \<and> t' = restarted t \<and> known held M m1 = (known held M m)(i \<mapsto> t')"
proof -
  show "\<exists>s. m1 = m\<lparr>mTaskDb := s\<rparr>"
    using assms(2) by (auto simp: beginRestart_def Let_def split: sum.splits prod.splits option.splits intro: exI [of _ "mTaskDb m"])
  show "keyed_tasks held ok M m1"
    and "case r of None \<Rightarrow> known held M m1 = known held M m
         | Some t' \<Rightarrow> \<exists>t. known held M m i = Some t \<and> t' = restarted t \<and> known held M m1 = (known held M m)(i \<mapsto> t')"
  proof (atomize (full), cases "taskLocked M ''manager.beginRestart'' i m")
    case (Inr t)
    then have t: "known held M m i = Some t" using assms(1) taskLocked_Inr by blast
    then have i: "tID (restarted t) = i" using known_ID [OF assms(1)] by (simp add: restarted_def)
    obtain e s where put: "Put (me_taskdb M) (me_uuid_String M i) (restarted t) (mTaskDb m) = (e, s)" by fastforce
    with assms(2) Inr have "m1 = m\<lparr>mTaskDb := s\<rparr>" and "r = (if e = None then Some (restarted t) else None)"
      by (auto simp: beginRestart_def Let_def restarted_def split: option.splits)
    with Put_known [OF assms(1), of "restarted t" e s] put t i
    show "keyed_tasks held ok M m1 \<and>
      (case r of None \<Rightarrow> known held M m1 = known held M m
         | Some t' \<Rightarrow> \<exists>t. known held M m i = Some t \<and> t' = restarted t \<and> known held M m1 = (known held M m)(i \<mapsto> t'))"
      by (auto split: if_splits)
  qed (use assms in \<open>auto simp: beginRestart_def\<close>)
qed

lemma retireTask_effect:
  assumes "keyed_tasks held ok M m"
  shows "keyed_tasks held ok M (retireTask M wn i m)"
    and "known held M (retireTask M wn i m) = known held M m \<or>
      (\<exists>t. known held M m i = Some t \<and>
         known held M (retireTask M wn i m) = (known held M m)(i \<mapsto> t\<lparr>tState := Completed\<rparr>))"
    and "routing_ok m \<Longrightarrow> routing_ok (retireTask M wn i m)"
    and "mTaskWorkerMap (retireTask M wn i m) = (mTaskWorkerMap m)(i := None)"
    and "mWorkerNodes (retireTask M wn i m) = mWorkerNodes m" "mPending (retireTask M wn i m) = mPending m"
proof -
  have c: "keyed_tasks held ok M (drop_route wn i x) = keyed_tasks held ok M x"
    "known held M (drop_route wn i x) = known held M x" for x
    by (rule keyed_cong, simp, rule known_cong, simp)
  have "keyed_tasks held ok M (retireTask M wn i m) \<and> (known held M (retireTask M wn i m) = known held M m \<or>
      (\<exists>t. known held M m i = Some t \<and>
         known held M (retireTask M wn i m) = (known held M m)(i \<mapsto> t\<lparr>tState := Completed\<rparr>)))"
  proof (cases "taskLocked M ''manager.retireTask'' i m")
    case (Inr t)
    then have t: "known held M m i = Some t" using assms taskLocked_Inr by blast
    then have "tID (t\<lparr>tState := Completed\<rparr>) = i" using known_ID [OF assms] by simp
    from Put_known_cases [OF assms this] t Inr show ?thesis by (auto simp: retireTask_def c)
  qed (use assms in \<open>simp add: retireTask_def c\<close>)
  then show "keyed_tasks held ok M (retireTask M wn i m)"
    and "known held M (retireTask M wn i m) = known held M m \<or>
      (\<exists>t. known held M m i = Some t \<and>
         known held M (retireTask M wn i m) = (known held M m)(i \<mapsto> t\<lparr>tState := Completed\<rparr>))" by auto
  show "routing_ok m \<Longrightarrow> routing_ok (retireTask M wn i m)"
    unfolding retireTask_def by (rule drop_route_routing) (auto simp: routing_ok_def split: sum.splits)
qed (auto simp: retireTask_def split: sum.splits)

lemma apply_reports_effect:
  assumes "keyed_tasks held ok M m"
  shows "keyed_tasks held ok M (apply_reports M rs m) \<and> moves (known held M m) (known held M (apply_reports M rs m)) \<and>
    (\<exists>s. apply_reports M rs m = m\<lparr>mTaskDb := s\<rparr>)"
  using assms
proof (induction rs arbitrary: m)
  case Nil
  then show ?case by (auto intro: exI [of _ "mTaskDb m"])
next
  case (Cons r rs)
  let ?m1 = "snd (applyWorkerReport M r m)"
  have "moves (known held M m) (known held M ?m1)"
    using applyWorkerReport_effect(3) [OF Cons.prems, of r]
    by (auto intro!: moves_upd move_report [OF move_refl])
  moreover have "\<exists>s. ?m1 = m\<lparr>mTaskDb := s\<rparr>" by (rule applyWorkerReport_effect(1) [OF Cons.prems])
  ultimately show ?case
    using Cons.IH [OF applyWorkerReport_effect(2) [OF Cons.prems, of r]] by (auto intro: moves_trans)
qed

text \<open>What a pass leaves alone, and what it may do.\<close>

definition pass :: "('q, 's, 'e) Manager \<Rightarrow> ('q, 's, 'e) Manager \<Rightarrow> bool" where
  "pass m m' \<longleftrightarrow> keyed_tasks held ok M m' \<and> moves (known held M m) (known held M m') \<and>
     (\<exists>es. contents (mPending m') = contents (mPending m) @ es) \<and>
     mTaskWorkerMap m' = mTaskWorkerMap m \<and> mWorkerTaskMap m' = mWorkerTaskMap m \<and>
     mWorkerNodes m' = mWorkerNodes m \<and> mScheduler m' = mScheduler m \<and> mEventDb m' = mEventDb m"

lemma pass_refl: "keyed_tasks held ok M m \<Longrightarrow> pass m m"
  by (simp add: pass_def)

lemma pass_trans: "pass m m1 \<Longrightarrow> pass m1 m2 \<Longrightarrow> pass m m2"
  by (auto simp: pass_def intro: moves_trans)

lemma pass_routing: "pass m m' \<Longrightarrow> routing_ok m' = routing_ok m"
  by (intro routing_ok_cong) (simp_all add: pass_def)

lemma pass_keeps:
  "pass m m' \<Longrightarrow> routing_ok m \<Longrightarrow> keyed_tasks held ok M m' \<and> routing_ok m' \<and> mWorkerNodes m' = mWorkerNodes m"
  using pass_routing [of m m'] by (simp add: pass_def)

lemma updateTasksFromWorker_pass:
  "keyed_tasks held ok M m \<Longrightarrow> pass m (fst (updateTasksFromWorker M wn m w))"
proof -
  assume k: "keyed_tasks held ok M m"
  have "pass m (apply_reports M rs m)" for rs
    using apply_reports_effect [OF k, of rs] by (auto simp: pass_def)
  then show ?thesis
    using pass_refl [OF k] by (auto simp: updateTasksFromWorker_def split: option.splits sum.splits prod.splits)
qed

lemma update_goroutines_pass:
  "keyed_tasks held ok M m \<Longrightarrow> pass m (fst (update_goroutines M is m w))"
proof (induction "is" arbitrary: m w)
  case (Cons i "is")
  obtain m1 w1 where u: "updateTasksFromWorker M (nName (mWorkerNodes m ! i)) m w = (m1, w1)" by fastforce
  then have p: "pass m m1" using updateTasksFromWorker_pass [OF Cons.prems] by (metis fst_conv)
  then have "pass m1 (fst (update_goroutines M is m1 w1))"
    by (intro Cons.IH) (simp add: pass_def)
  with p u show ?case by (auto intro: pass_trans)
qed (simp add: pass_refl)

lemma Manager_updateTasks_pass:
  "keyed_tasks held ok M m \<Longrightarrow> pass m (fst (Manager_updateTasks M m w))"
  unfolding Manager_updateTasks_def by (rule update_goroutines_pass)

text \<open>A restart of a record that the store still holds as the caller saw it.\<close>

lemma restartTask_pass:
  assumes k: "keyed_tasks held ok M m" and t: "known held M m (tID t) = Some t"
    and elig: "tState t \<in> {Running, Failed}" "tRestartCount t < TaskRestartMax"
    and r: "restartTask M t m w = (m', w')"
  shows "pass m m' \<and> (\<forall>j. j \<noteq> tID t \<longrightarrow> known held M m' j = known held M m j)"
proof -
  have stop: ?thesis if "m' = m" using that pass_refl [OF k] by simp
  show ?thesis
  proof (cases "beginRestart M (tID t) m")
    case (Pair r1 m1)
    note b = beginRestart_effect [OF k Pair]
    have m1: "pass m m1 \<and> (\<forall>j. j \<noteq> tID t \<longrightarrow> known held M m1 j = known held M m j)"
    proof (cases r1)
      case None
      then show ?thesis using b by (auto simp: pass_def)
    next
      case (Some t')
      then have "t' = restarted t" "known held M m1 = (known held M m)(tID t \<mapsto> restarted t)"
        using b(3) t by auto
      moreover have "record_move t (restarted t)" using elig by (intro move_restart move_refl)
      ultimately show ?thesis using b t by (auto simp: pass_def intro: moves_upd)
    qed
    have enq: "pass m (enqueueEvent M te m1) \<and> (\<forall>j. j \<noteq> tID t \<longrightarrow> known held M (enqueueEvent M te m1) j = known held M m j)" for te
      using m1 by (auto simp: pass_def)
    have "m' = m \<or> m' = m1 \<or> (\<exists>te. m' = enqueueEvent M te m1)"
      using r Pair by (auto simp: restartTask_def Let_def split: option.splits sum.splits prod.splits if_splits)
    with m1 enq stop show ?thesis by blast
  qed
qed

lemma decideHealthAction_restarts:
  "decideHealthAction t \<in> {healthActionCheck, healthActionRestart} \<longleftrightarrow>
     tState t \<in> {Running, Failed} \<and> tRestartCount t < TaskRestartMax"
  by (auto simp: decideHealthAction_def)

lemma healthChecks_loop_pass:
  assumes "keyed_tasks held ok M m" and "distinct (map tID ts)"
    and "\<forall>t \<in> set ts. known held M m (tID t) = Some t"
    and "healthChecks_loop M ts m w = Inr (m', w')"
  shows "pass m m'"
  using assms
proof (induction ts arbitrary: m w)
  case Nil
  then show ?case by (simp add: pass_refl)
next
  case (Cons t ts)
  have go: "pass m m'"
    if r: "restartTask M t m wa = (m1, wb)" and rest: "healthChecks_loop M ts m1 wb = Inr (m', w')"
      and el: "decideHealthAction t \<in> {healthActionCheck, healthActionRestart}" for m1 wa wb
  proof -
    have one: "pass m m1 \<and> (\<forall>j. j \<noteq> tID t \<longrightarrow> known held M m1 j = known held M m j)"
      using Cons.prems(3) decideHealthAction_restarts [of t] el
      by (intro restartTask_pass [OF Cons.prems(1) _ _ _ r]) auto
    moreover have "tID t' \<noteq> tID t" if "t' \<in> set ts" for t'
      using Cons.prems(2) that by (auto simp: image_iff)
    ultimately have "pass m1 m'"
      using Cons.prems(2,3) by (intro Cons.IH [OF _ _ _ rest]) (auto simp: pass_def)
    with one show ?thesis by (blast intro: pass_trans)
  qed
  have skip: "pass m m'" if "healthChecks_loop M ts m wa = Inr (m', w')" for wa
    using Cons.prems that by (intro Cons.IH [OF _ _ _ that]) auto
  show ?case
    using Cons.prems(4) go skip
    by (cases "decideHealthAction t") (auto split: sum.splits option.splits prod.splits)
qed

lemma doHealthChecks_pass:
  assumes "keyed_tasks held ok M m" and "doHealthChecks M m w = Inr (m', w')"
  shows "pass m m'"
proof (cases "List (me_taskdb M) (mTaskDb m)")
  case (Inl e)
  then show ?thesis using assms pass_refl by (simp add: doHealthChecks_def Manager_GetTasks_def snapshotTasks_def)
next
  case (Inr ts)
  have "distinct (map (\<lambda>t. me_uuid_String M (tID t)) ts) \<and>
      (\<forall>t \<in> set ts. held (mTaskDb m) (me_uuid_String M (tID t)) = Some t)"
    using assms(1) by (intro ts.List_distinct_keys [OF _ Inr]) (auto simp: keyed_tasks_def)
  then have "distinct (map tID ts)" and "\<forall>t \<in> set ts. known held M m (tID t) = Some t"
    by (auto simp: distinct_map inj_on_def known_def)
  moreover have "healthChecks_loop M ts m w = Inr (m', w')"
    using assms(2) Inr by (simp add: doHealthChecks_def Manager_GetTasks_def snapshotTasks_def)
  ultimately show ?thesis by (rule healthChecks_loop_pass [OF assms(1)])
qed

end

section \<open>The shape of SendWork\<close>

lemma SendWork_cases:
  assumes "SendWork M m w = Inr (m', w')"
  obtains (idle) "nextPendingEvent M m = (None, m')" "w' = w"
  | (stop) te m0 wn p where "nextPendingEvent M m = (Some te, m0)" "assignmentFor M (tID (teTask te)) m0 = Some (wn, p)"
      "tState (teTask te) = Completed" "tState p = Running" "Manager_stopTask M wn (tID (teTask te)) m0 w = (m', w')"
  | (ignored) te wn p where "nextPendingEvent M m = (Some te, m')" "assignmentFor M (tID (teTask te)) m' = Some (wn, p)"
      "\<not> (tState (teTask te) = Completed \<and> tState p = Running)" "w' = w"
  | (unplaced) te m0 e where "nextPendingEvent M m = (Some te, m0)" "assignmentFor M (tID (teTask te)) m0 = None"
      "SelectWorker M (teTask te) m0 w = Inr (Inl e, m', w')"
  | (sent) te m0 n m1 w1 r where "nextPendingEvent M m = (Some te, m0)" "assignmentFor M (tID (teTask te)) m0 = None"
      "SelectWorker M (teTask te) m0 w = Inr (Inr n, m1, w1)"
      "postTaskEvent M ''manager.SendWork'' (nName n) (nAPI n) te w1 = (r, w')"
      "m' = finish_send M te (nName n) r (assignTask M (nName n) te m1)"
proof (cases "nextPendingEvent M m")
  case (Pair r0 m0)
  show thesis
  proof (cases r0)
    case None
    then show thesis using idle assms Pair by (simp add: SendWork_def)
  next
    case (Some te)
    show thesis
    proof (cases "assignmentFor M (tID (teTask te)) m0")
      case None
      with assms Pair Some show thesis
        by (auto simp: SendWork_def Let_def split: sum.splits prod.splits intro: unplaced sent)
    next
      case S: (Some a)
      obtain wn p where a: "a = (wn, p)" by (cases a)
      show thesis
      proof (cases "tState (teTask te) = Completed \<and> tState p = Running")
        case True
        with assms Pair Some S a stop show thesis by (simp add: SendWork_def Let_def)
      next
        case False
        then have "\<not> (tState (teTask te) = Completed \<and> valid_edge (tState p) (tState (teTask te)))" by auto
        with assms Pair Some S a have "m' = m0" "w' = w" by (auto simp: SendWork_def Let_def split: if_splits)
        with Pair Some S a False ignored show thesis by simp
      qed
    qed
  qed
qed

lemma Manager_stopTask_cases:
  assumes "Manager_stopTask M wn i m w = (m', w')"
  shows "m' = m \<or> m' = retireTask M wn i m"
  using assms by (auto simp: Manager_stopTask_def Let_def split: sum.splits option.splits prod.splits if_splits)

lemma Manager_putTask_fields:
  "\<exists>s. snd (Manager_putTask M t m) = m\<lparr>mTaskDb := s\<rparr>"
  by (auto simp: Manager_putTask_def split: prod.splits option.splits)

lemma finish_send_routing [routing]:
  "routing_ok m \<Longrightarrow> routing_ok (finish_send M te wn r m)"
proof -
  assume m: "routing_ok m"
  have "routing_ok (m\<lparr>mTaskDb := s\<rparr>)" for s using m by (simp add: routing_ok_def)
  then have "routing_ok (snd (Manager_putTask M t m))" for t
    using Manager_putTask_fields [of M t m] by auto
  moreover have "routing_ok (enqueueEvent M te (unassignTask wn i m))" for i
    using drop_route_routing [OF m, of wn i]
      routing_ok_cong [of "enqueueEvent M te (drop_route wn i m)" "drop_route wn i m"]
    unfolding unassignTask_def by simp
  ultimately show ?thesis using m by (auto simp: finish_send_def split: sum.splits)
qed

context manager_env
begin

lemma Manager_putTask_keyed:
  "keyed_tasks held ok M m \<Longrightarrow> keyed_tasks held ok M (snd (Manager_putTask M t m))"
  using Put_known [of m t] by (auto simp: Manager_putTask_def split: prod.splits option.splits)

lemma finish_send_keyed:
  "keyed_tasks held ok M m \<Longrightarrow> keyed_tasks held ok M (finish_send M te wn r m)"
proof -
  assume k: "keyed_tasks held ok M m"
  have "keyed_tasks held ok M (unassignTask wn i m)" for i
    using k keyed_cong [of "drop_route wn i m" m] by (simp add: unassignTask_def)
  then show ?thesis
    using k Manager_putTask_keyed by (auto simp: finish_send_def split: sum.splits)
qed

lemma SendWork_keeps:
  assumes k: "keyed_tasks held ok M m" and r: "routing_ok m" and s: "SendWork M m w = Inr (m', w')"
  shows "keyed_tasks held ok M m' \<and> routing_ok m' \<and> mWorkerNodes m' = mWorkerNodes m"
proof -
  have next_ok: "keyed_tasks held ok M m0 \<and> routing_ok m0 \<and> mWorkerNodes m0 = mWorkerNodes m"
    if "nextPendingEvent M m = (x, m0)" for x m0
    using nextPendingEvent_frame [OF that] keyed_cong [of m0 m] routing_ok_cong [of m0 m] k r by simp
  have sched: "keyed_tasks held ok M (m0\<lparr>mScheduler := c\<rparr>) = keyed_tasks held ok M m0"
    "routing_ok (m0\<lparr>mScheduler := c\<rparr>) = routing_ok m0" for m0 c
    by (rule keyed_cong, simp, rule routing_ok_cong, simp_all)
  from s show ?thesis
  proof (cases rule: SendWork_cases)
    case idle
    then show ?thesis using next_ok by blast
  next
    case (stop te m0 wn p)
    then show ?thesis
      using next_ok [OF stop(1)] Manager_stopTask_cases [OF stop(5)] retireTask_effect [of m0 wn "tID (teTask te)"] by auto
  next
    case (ignored te wn p)
    then show ?thesis using next_ok by blast
  next
    case (unplaced te m0 e)
    then show ?thesis using next_ok [OF unplaced(1)] SelectWorker_outcome(1) [OF unplaced(3)] sched by auto
  next
    case (sent te m0 n m1 w1 res)
    have m1: "keyed_tasks held ok M m1" "routing_ok m1" "mWorkerNodes m1 = mWorkerNodes m"
      using next_ok [OF sent(1)] SelectWorker_outcome(1) [OF sent(3)] sched by auto
    have n: "nName n \<in> nName ` set (mWorkerNodes m1)"
      using SelectWorker_outcome [OF sent(3)] by auto
    let ?m2 = "assignTask M (nName n) te m1"
    have "keyed_tasks held ok M ?m2" using m1(1) keyed_cong [of ?m2 m1] by simp
    moreover have "routing_ok ?m2" using m1(2) n by (rule assignTask_routing)
    moreover have "mWorkerNodes (finish_send M te (nName n) res ?m2) = mWorkerNodes ?m2"
    proof -
      have "mWorkerNodes (snd (Manager_putTask M t ?m2)) = mWorkerNodes ?m2" for t
        using Manager_putTask_fields [of M t ?m2] by auto
      then show ?thesis by (simp add: finish_send_def unassignTask_def split: sum.splits)
    qed
    ultimately show ?thesis
      using finish_send_keyed finish_send_routing m1(3) unfolding sent(5) by simp
  qed
qed

end

end
