(* ===== verification/Orch_Manager_Runs.thy ===== *)
theory Orch_Manager_Runs
  imports Orch_Manager_Correct
begin

text \<open>
  Runs of the manager: the loops and the API act on one manager, each step being one
  operation, in any order. The invariants of the routing maps and of the task store hold in
  every state a run reaches from \<open>NewManager\<close>. A concrete environment with the in-memory
  stores interprets the locale and serves the witnesses.
\<close>

section \<open>Steps\<close>

inductive manager_step ::
  "('q, 's, 'e, 'w) menv \<Rightarrow> ('q, 's, 'e) Manager \<times> 'w \<Rightarrow> ('q, 's, 'e) Manager \<times> 'w \<Rightarrow> bool"
  for M :: "('q, 's, 'e, 'w) menv" where
  step_start: "Manager_StartTaskHandler M request m = (reply, m') \<Longrightarrow> manager_step M (m, w) (m', w)"
| step_stop: "Manager_StopTaskHandler M taskID m w = (reply, m', w') \<Longrightarrow> manager_step M (m, w) (m', w')"
| step_send: "SendWork M m w = Inr (m', w') \<Longrightarrow> manager_step M (m, w) (m', w')"
| step_update: "Manager_updateTasks M m w = (m', w') \<Longrightarrow> manager_step M (m, w) (m', w')"
| step_health: "doHealthChecks M m w = Inr (m', w') \<Longrightarrow> manager_step M (m, w) (m', w')"
| step_world: "manager_step M (m, w) (m, w')"

inductive manager_run ::
  "('q, 's, 'e, 'w) menv \<Rightarrow> ('q, 's, 'e) Manager \<times> 'w \<Rightarrow> ('q, 's, 'e) Manager \<times> 'w \<Rightarrow> bool"
  for M :: "('q, 's, 'e, 'w) menv" where
  run_refl: "manager_run M c c"
| run_step: "manager_run M c c1 \<Longrightarrow> manager_step M c1 c2 \<Longrightarrow> manager_run M c c2"

text \<open>
  The background passes alone, task updates and health checks, one after the other. How they run
  beside each other is \<open>Orch_Manager_Passes\<close>.
\<close>

inductive passes ::
  "('q, 's, 'e, 'w) menv \<Rightarrow> ('q, 's, 'e) Manager \<times> 'w \<Rightarrow> ('q, 's, 'e) Manager \<times> 'w \<Rightarrow> bool"
  for M :: "('q, 's, 'e, 'w) menv" where
  passes_refl: "passes M c c"
| passes_update: "passes M c (m, w) \<Longrightarrow> Manager_updateTasks M m w = (m', w') \<Longrightarrow> passes M c (m', w')"
| passes_health: "passes M c (m, w) \<Longrightarrow> doHealthChecks M m w = Inr (m', w') \<Longrightarrow> passes M c (m', w')"
| passes_world: "passes M c (m, w) \<Longrightarrow> passes M c (m, w')"

context manager_env
begin

lemma AddTask_keeps:
  "keyed_tasks held ok M (Manager_AddTask M te m) = keyed_tasks held ok M m"
  "routing_ok (Manager_AddTask M te m) = routing_ok m"
  "mWorkerNodes (Manager_AddTask M te m) = mWorkerNodes m"
  by (simp add: Manager_AddTask_def, unfold Manager_AddTask_def, rule routing_ok_cong, simp_all)

lemma manager_step_keeps:
  assumes "manager_step M (m, w) (m', w')" and "keyed_tasks held ok M m" and "routing_ok m"
  shows "keyed_tasks held ok M m' \<and> routing_ok m' \<and> mWorkerNodes m' = mWorkerNodes m"
  using assms(1)
proof (cases rule: manager_step.cases)
  case step_start
  then show ?thesis
    using assms AddTask_keeps by (auto simp: Manager_StartTaskHandler_def split: sum.splits)
next
  case step_stop
  then show ?thesis
    using assms AddTask_keeps
    by (auto simp: Manager_StopTaskHandler_def Let_def split: sum.splits option.splits if_splits prod.splits)
next
  case step_send
  then show ?thesis using SendWork_keeps assms by blast
next
  case step_update
  then have "pass m m'" using Manager_updateTasks_pass [OF assms(2), of w] by simp
  then show ?thesis using assms(3) by (rule pass_keeps)
next
  case step_health
  then have "pass m m'" using doHealthChecks_pass [OF assms(2)] by simp
  then show ?thesis using assms(3) by (rule pass_keeps)
qed (use assms in simp)

lemma manager_run_keeps:
  assumes "manager_run M c c'" and "keyed_tasks held ok M (fst c)" and "routing_ok (fst c)"
  shows "keyed_tasks held ok M (fst c') \<and> routing_ok (fst c') \<and> mWorkerNodes (fst c') = mWorkerNodes (fst c)"
  using assms
proof (induction rule: manager_run.induct)
  case (run_step c c1 c2)
  then show ?case
    using manager_step_keeps [of "fst c1" "snd c1" "fst c2" "snd c2"] by simp
qed simp

lemma passes_pass:
  assumes "passes M c c'" and "keyed_tasks held ok M (fst c)"
  shows "pass (fst c) (fst c')"
  using assms
proof (induction rule: passes.induct)
  case (passes_update c m w m' w')
  then have "pass (fst c) m" by simp
  moreover have "pass m m'"
    using Manager_updateTasks_pass [of m w] passes_update calculation by (simp add: pass_def)
  ultimately show ?case by (auto intro: pass_trans)
next
  case (passes_health c m w m' w')
  then have "pass (fst c) m" by simp
  moreover have "pass m m'"
    using doHealthChecks_pass [of m w m' w'] passes_health calculation by (simp add: pass_def)
  ultimately show ?case by (auto intro: pass_trans)
qed (simp_all add: pass_refl)

lemma NewManager_keeps:
  assumes "NewManager M workers schedulerType dbType (Inr (taskDb, eventDb)) = Inr m"
    and "ok taskDb" and "\<forall>k t. held taskDb k = Some t \<longrightarrow> k = me_uuid_String M (tID t)"
  shows "keyed_tasks held ok M m" and "routing_ok m"
    and "mWorkerNodes m = map (\<lambda>w. NewNode (wmName w) (wmAddress w) ''worker'') workers"
proof -
  have m: "mTaskDb m = taskDb" "mTaskWorkerMap m = Map.empty"
    "mWorkerTaskMap m = fold (\<lambda>w acc. acc(wmName w \<mapsto> [])) workers Map.empty"
    "mWorkerNodes m = map (\<lambda>w. NewNode (wmName w) (wmAddress w) ''worker'') workers"
    using assms(1) by (auto simp: NewManager_def Let_def split: sum.splits)
  then show "keyed_tasks held ok M m" using assms(2,3) by (simp add: keyed_tasks_def)
  have "dom (fold (\<lambda>w acc. acc(wmName w \<mapsto> [])) ws f) = wmName ` set ws \<union> dom f" for ws :: "WorkerMetadata list" and f :: "string \<rightharpoonup> UUID list"
    by (induction ws arbitrary: f) auto
  then show "routing_ok m" using m by (simp add: routing_ok_def NewNode_def image_image)
  show "mWorkerNodes m = map (\<lambda>w. NewNode (wmName w) (wmAddress w) ''worker'') workers" by (rule m(4))
qed

end

section \<open>A concrete environment\<close>

text \<open>
  In-memory stores, the queue as a list, identifiers in unary, and a world that is the list
  of the outcomes of the coming HTTP calls (a connection error once it is used up).
\<close>

type_synonym script = "(go_error + Response) list"

definition next_outcome :: "script \<Rightarrow> (go_error + Response) \<times> script" where
  "next_outcome w = (case w of [] \<Rightarrow> (Inl (External ''connection refused''), []) | r # rs \<Rightarrow> (r, rs))"

definition mem_menv ::
  "codec \<Rightarrow> (TaskEvent list, Task InMemory, TaskEvent InMemory, script) menv" where
  "mem_menv J =
     \<lparr>me_uuid_String = unary,
      me_uuid_Parse = (\<lambda>s. if set s \<subseteq> {CHR ''x''} then Inr (of_nat (length s)) else Inl (External ''invalid UUID'')),
      me_uuid_New = (\<lambda>w. (9, w)), me_now = (\<lambda>w. (5, w)),
      me_queue = list_collq, me_taskdb = InMemory_store (\<lambda>xs. xs), me_eventdb = InMemory_store (\<lambda>xs. xs),
      me_codec = J, me_decode_TaskEvent = (\<lambda>s. Inl (External ''EOF'')),
      me_url_Parse = (\<lambda>s. Inr \<lparr>urlScheme = ''http'', urlHostname = s\<rparr>),
      me_Get = (\<lambda>url w. next_outcome w), me_Post = (\<lambda>url ct b w. next_outcome w),
      me_NewRequest = (\<lambda>meth url. None), me_Do_Delete = (\<lambda>url w. next_outcome w),
      me_range_first = (\<lambda>w. (0, w)), me_order = (\<lambda>n. [0..<n]),
      me_sched = \<lparr>se_F = exact LIEB, se_codec = J, se_ctx = live_context,
        se_get = (\<lambda>url w. next_outcome w), se_order = (\<lambda>n. [0..<n])\<rparr>\<rparr>"

lemma mem_menv_env: "manager_env (mem_menv J) InMemory_held InMemory_ok (\<lambda>q. inner q)"
proof (rule manager_env.intro)
  have "total_store (InMemory_store (\<lambda>xs. xs :: (string \<times> Task) list)) InMemory_held InMemory_ok"
    by (rule InMemory_total_store) simp
  then show "store_contract (me_taskdb (mem_menv J)) InMemory_held InMemory_ok"
    by (simp add: mem_menv_def total_store_def)
  show "queue (me_queue (mem_menv J)) inner"
    using wrapper_is_queue [OF list_collq_fifo] by (simp add: mem_menv_def)
qed (simp add: mem_menv_def inj_unary)

lemma mem_menv_total: "total_store (me_taskdb (mem_menv J)) InMemory_held InMemory_ok"
  using InMemory_total_store [OF iteration_order_id] by (simp add: mem_menv_def)

interpretation mm: manager_env "mem_menv J" InMemory_held InMemory_ok "\<lambda>q. inner q"
  by (rule mem_menv_env)

text \<open>A manager with the given workers, records, pending events and routes.\<close>

definition manager_with ::
  "Scheduler \<Rightarrow> Node list \<Rightarrow> Task list \<Rightarrow> TaskEvent list \<Rightarrow> (UUID \<times> string) list \<Rightarrow>
   (TaskEvent list, Task InMemory, TaskEvent InMemory) Manager" where
  "manager_with sch nodes db pending routes =
     \<lparr>mPending = \<lparr>inner = pending\<rparr>, mTaskDb = \<lparr>Db = map (\<lambda>t. (unary (tID t), t)) db\<rparr>, mEventDb = \<lparr>Db = []\<rparr>,
      mWorkerTaskMap = (\<lambda>wn. if wn \<in> nName ` set nodes
        then Some (map fst (filter (\<lambda>r. snd r = wn) routes)) else None),
      mTaskWorkerMap = map_of routes, mWorkerNodes = nodes, mScheduler = sch\<rparr>"

lemma manager_with_keyed:
  "distinct (map tID db) \<Longrightarrow> keyed_tasks InMemory_held InMemory_ok (mem_menv J) (manager_with sch nodes db pending routes)"
proof -
  assume d: "distinct (map tID db)"
  have "map fst (map (\<lambda>t. (unary (tID t), t)) db) = map unary (map tID db)" by simp
  then have "distinct (map fst (map (\<lambda>t. (unary (tID t), t)) db))"
    using d inj_unary by (metis distinct_map inj_on_subset subset_UNIV)
  then show ?thesis
    by (auto simp: keyed_tasks_def manager_with_def mem_menv_def InMemory_ok_def InMemory_held_def dest: map_of_SomeD)
qed

lemma manager_with_routing:
  "snd ` set routes \<subseteq> nName ` set nodes \<Longrightarrow> routing_ok (manager_with sch nodes db pending routes)"
proof (rule routing_okI)
  assume r: "snd ` set routes \<subseteq> nName ` set nodes"
  fix i wn
  assume "mTaskWorkerMap (manager_with sch nodes db pending routes) i = Some wn"
  then have "(i, wn) \<in> set routes" by (simp add: manager_with_def map_of_SomeD)
  with r show "\<exists>ts. mWorkerTaskMap (manager_with sch nodes db pending routes) wn = Some ts \<and> i \<in> set ts"
    by (force simp: manager_with_def)
qed (auto simp: manager_with_def dom_def split: if_splits)

text \<open>Evaluation of the model in this environment.\<close>

lemmas manager_eval [manager_defs] =
  mem_menv_def manager_with_def next_outcome_def known_def InMemory_defs list_collq_def
  Enqueue_def Dequeue_def nextPendingEvent_def enqueueEvent_def assignmentFor_def taskLocked_def
  workerForTask_def workerAddress_def requireWorkerAddress_def beginRestart_def restart_event_def
  postTaskEvent_def restartTask_def decideHealthAction_def checkTaskHealth_def doHealthChecks_def
  Manager_GetTasks_def snapshotTasks_def SendWork_def SelectWorker_def pickWorker_def assignTask_def
  finish_send_def Manager_putTask_def Manager_stopTask_def retireTask_def unassignTask_def drop_route_def
  Manager_StopTaskHandler_def Manager_LookupTask_def Manager_AddTask_def mergeTaskUpdate_def
  applyWorkerReport_def updateTasksFromWorker_def Manager_updateTasks_def getHostPort_def
  TaskRestartMax_def unary_def Let_def slices_Delete_def

end
