(* ===== verification/Orch_Manager_Props.thy ===== *)
theory Orch_Manager_Props
  imports Orch_Manager_Runs
begin

text \<open>
  The manager's properties, for every task store that keeps the store contract, every
  first-in first-out queue, and whatever the workers answer.
\<close>

section \<open>Concrete inputs\<close>

definition sample_codec :: "Task \<Rightarrow> codec" where
  "sample_codec t =
     \<lparr>decode_Stats = (\<lambda>s. Inl (External ''EOF'')), decode_Error = (\<lambda>s. Inr \<lparr>erMessage = s, erCode = 400\<rparr>),
      decode_Task = (\<lambda>s. Inr t), decode_Tasks = (\<lambda>s. Inr [t]), encode_TaskEvent = (\<lambda>te. Inr ''{}'')\<rparr>"

definition node_a :: Node where
  "node_a = NewNode ''a'' ''h'' ''worker''"

definition rr0 :: Scheduler where
  "rr0 = RoundRobinS \<lparr>rrName = ''round-robin'', LastWorker = 0\<rparr>"

definition sample_task :: "State \<Rightarrow> int \<Rightarrow> Task" where
  "sample_task s n = zero_Task\<lparr>tID := 1, tState := s, tRestartCount := n\<rparr>"

definition sample_event :: "Task \<Rightarrow> TaskEvent" where
  "sample_event t = \<lparr>teID = 7, teState = tState t, teTimestamp = 0, teTask = t\<rparr>"

lemma sample_fields [simp]:
  "tID (sample_task s n) = 1" "tState (sample_task s n) = s" "tRestartCount (sample_task s n) = n"
  "tDisk (sample_task s n) = 0" "teTask (sample_event t) = t" "teID (sample_event t) = 7"
  "nName node_a = ''a''" "nAPI node_a = ''h''"
  by (simp_all add: sample_task_def sample_event_def node_a_def NewNode_def zero_Task_def)

section \<open>Invariants of every run\<close>

text \<open>
  C10. In every state the manager reaches from \<open>NewManager\<close>, through any sequence of API
  requests, scheduling rounds, update passes and health check passes: every record of the
  task store is under its own identifier; the workers with a task list are exactly the
  configured ones; and every routed task is on the list of its worker, which is a
  configured worker with a known address.
\<close>

theorem routing_invariant:
  assumes env: "manager_env M held ok contents"
    and new: "NewManager M workers schedulerType dbType (Inr (taskDb, eventDb)) = Inr m0"
    and db: "ok taskDb" "\<forall>k t. held taskDb k = Some t \<longrightarrow> k = me_uuid_String M (tID t)"
    and run: "manager_run M (m0, w0) (m, w)"
  shows "keyed_tasks held ok M m \<and> dom (mWorkerTaskMap m) = wmName ` set workers \<and>
    (\<forall>i wn. mTaskWorkerMap m i = Some wn \<longrightarrow>
       wn \<in> wmName ` set workers \<and> (\<exists>ts. mWorkerTaskMap m wn = Some ts \<and> i \<in> set ts) \<and>
       (\<exists>a. workerAddress wn m = Some a))"
proof -
  note N = manager_env.NewManager_keeps [OF env new db]
  have m: "keyed_tasks held ok M m" "routing_ok m" "mWorkerNodes m = mWorkerNodes m0"
    using manager_env.manager_run_keeps [OF env run] N by auto
  have names: "nName ` set (mWorkerNodes m) = wmName ` set workers"
    using m(3) N(3) by (simp add: image_image NewNode_def)
  have "wn \<in> wmName ` set workers \<and> (\<exists>ts. mWorkerTaskMap m wn = Some ts \<and> i \<in> set ts) \<and>
      (\<exists>a. workerAddress wn m = Some a)" if r: "mTaskWorkerMap m i = Some wn" for i wn
  proof -
    obtain ts where ts: "mWorkerTaskMap m wn = Some ts" "i \<in> set ts" using routing_okD(2) [OF m(2) r] by blast
    then have "wn \<in> nName ` set (mWorkerNodes m)" using routing_okD(1) [OF m(2)] by blast
    then show ?thesis using ts names workerAddress_exists [of wn m] by auto
  qed
  then show ?thesis using m(1) routing_okD(1) [OF m(2)] names by auto
qed

theorem routing_invariant_witness:
  "\<exists>m0. NewManager (mem_menv (sample_codec zero_Task)) [\<lparr>wmName = ''a'', wmAddress = ''h''\<rparr>] ''round-robin'' ''memory''
       (Inr (NewInMemory, NewInMemory)) = Inr m0 \<and>
     dom (mWorkerTaskMap (fst (Manager_updateTasks (mem_menv (sample_codec zero_Task)) m0 []))) = {''a''}"
proof -
  let ?M = "mem_menv (sample_codec zero_Task)" and ?ws = "[\<lparr>wmName = ''a'', wmAddress = ''h''\<rparr>]"
  obtain m0 where new: "NewManager ?M ?ws ''round-robin'' ''memory'' (Inr (NewInMemory, NewInMemory)) = Inr m0"
    by (simp add: NewManager_def GetScheduler_def RoundRobin_name_def MarginalCost_name_def Let_def)
  obtain m w where u: "Manager_updateTasks ?M m0 [] = (m, w)" by fastforce
  then have run: "manager_run ?M (m0, []) (m, w)"
    by (blast intro: run_step [OF run_refl] step_update)
  have "dom (mWorkerTaskMap m) = wmName ` set ?ws"
    using routing_invariant [OF mem_menv_env new _ _ run] by simp
  with new u show ?thesis by simp
qed

section \<open>The update pass and the health check pass\<close>

text \<open>
  What background passes that do not overlap do to the records, in any number and order and for
  whatever the workers answer (\<open>Orch_Manager_Passes\<close> is about passes that do overlap): no record appears or goes away; a record moves along valid
  edges of the state machine only; what the client asked for (name, image, memory, disk,
  restart policy, health check) stays; a \<open>Completed\<close> record stays \<open>Completed\<close> and is not
  restarted again. Routing and placement state do not change, and pending events keep their
  places.
\<close>

theorem passes_respect_records:
  assumes env: "manager_env M held ok contents" and k: "keyed_tasks held ok M m"
    and p: "passes M (m, w) (m', w')"
  shows "(\<forall>i. case known held M m i of
            None \<Rightarrow> known held M m' i = None
          | Some p \<Rightarrow> \<exists>p'. known held M m' i = Some p' \<and> walk (tState p) (tState p') \<and>
              tID p' = tID p \<and> tName p' = tName p \<and> tImage p' = tImage p \<and> tMemory p' = tMemory p \<and>
              tDisk p' = tDisk p \<and> tRestartPolicy p' = tRestartPolicy p \<and> tHealthCheck p' = tHealthCheck p \<and>
              (tState p = Completed \<longrightarrow> tState p' = Completed \<and> tRestartCount p' = tRestartCount p)) \<and>
    mTaskWorkerMap m' = mTaskWorkerMap m \<and> mWorkerTaskMap m' = mWorkerTaskMap m \<and>
    mWorkerNodes m' = mWorkerNodes m \<and> mScheduler m' = mScheduler m \<and>
    (\<exists>es. contents (mPending m') = contents (mPending m) @ es)"
proof -
  have P: "manager_env.pass M held ok contents m m'"
    using manager_env.passes_pass [OF env p] k by simp
  then have mv: "moves (known held M m) (known held M m')" by (simp add: manager_env.pass_def [OF env])
  have "case known held M m i of
            None \<Rightarrow> known held M m' i = None
          | Some p \<Rightarrow> \<exists>p'. known held M m' i = Some p' \<and> walk (tState p) (tState p') \<and>
              tID p' = tID p \<and> tName p' = tName p \<and> tImage p' = tImage p \<and> tMemory p' = tMemory p \<and>
              tDisk p' = tDisk p \<and> tRestartPolicy p' = tRestartPolicy p \<and> tHealthCheck p' = tHealthCheck p \<and>
              (tState p = Completed \<longrightarrow> tState p' = Completed \<and> tRestartCount p' = tRestartCount p)" for i
    using mv [unfolded moves_def, THEN spec, of i] record_move_walk record_move_owned record_move_Completed
    by (cases "known held M m i") (simp, simp, blast)
  then show ?thesis using P by (simp add: manager_env.pass_def [OF env])
qed

theorem passes_respect_records_witness:
  "\<exists>m' w' p'. doHealthChecks (mem_menv (sample_codec zero_Task))
       (manager_with rr0 [node_a] [sample_task Failed 2] [] [(1, ''a'')]) [] = Inr (m', w') \<and>
     known InMemory_held (mem_menv (sample_codec zero_Task)) m' 1 = Some p' \<and> walk Failed (tState p')"
proof -
  let ?M = "mem_menv (sample_codec zero_Task)"
  let ?m = "manager_with rr0 [node_a] [sample_task Failed 2] [] [(1, ''a'')]"
  obtain m' w' where h: "doHealthChecks ?M ?m [] = Inr (m', w')"
    by (simp add: manager_defs sample_codec_def)
  then have p: "passes ?M (?m, []) (m', w')" by (rule passes_health [OF passes_refl])
  have k: "keyed_tasks InMemory_held InMemory_ok ?M ?m" by (rule manager_with_keyed) simp
  have "known InMemory_held ?M ?m 1 = Some (sample_task Failed 2)" by (simp add: manager_defs)
  with passes_respect_records [OF mem_menv_env k p, THEN conjunct1, THEN spec, of 1] h show ?thesis by auto
qed

text \<open>
  C14. The restart budget: however often the background passes run, one after the other, a record's
  restart count never decreases and never exceeds the larger of \<open>TaskRestartMax\<close> and the count it
  started with, so a task submitted with count 0 is restarted at most three times.
\<close>

theorem restart_budget:
  assumes env: "manager_env M held ok contents" and k: "keyed_tasks held ok M m"
    and p: "passes M (m, w) (m', w')"
    and t: "known held M m i = Some t" "in64 (tRestartCount t)"
  shows "\<exists>t'. known held M m' i = Some t' \<and> tRestartCount t \<le> tRestartCount t' \<and>
    tRestartCount t' \<le> max TaskRestartMax (tRestartCount t)"
proof -
  have "moves (known held M m) (known held M m')"
    using manager_env.passes_pass [OF env p] k by (simp add: manager_env.pass_def [OF env])
  then obtain t' where "known held M m' i = Some t'" "record_move t t'"
    using t(1) movesD by blast
  then show ?thesis using record_move_budget t(2) by blast
qed

theorem restart_budget_witness:
  "\<exists>m' w' t'. doHealthChecks (mem_menv (sample_codec zero_Task))
       (manager_with rr0 [node_a] [sample_task Failed 2] [] [(1, ''a'')]) [] = Inr (m', w') \<and>
     known InMemory_held (mem_menv (sample_codec zero_Task)) m' 1 = Some t' \<and> tRestartCount t' \<le> 3"
proof -
  let ?M = "mem_menv (sample_codec zero_Task)"
  let ?m = "manager_with rr0 [node_a] [sample_task Failed 2] [] [(1, ''a'')]"
  obtain m' w' where h: "doHealthChecks ?M ?m [] = Inr (m', w')"
    by (simp add: manager_defs sample_codec_def)
  then have p: "passes ?M (?m, []) (m', w')" by (rule passes_health [OF passes_refl])
  have k: "keyed_tasks InMemory_held InMemory_ok ?M ?m" by (rule manager_with_keyed) simp
  have "known InMemory_held ?M ?m 1 = Some (sample_task Failed 2)" by (simp add: manager_defs)
  from restart_budget [OF mem_menv_env k p this] h show ?thesis
    by (auto simp: in64_def TaskRestartMax_def)
qed

section \<open>Merging a worker's report\<close>

text \<open>
  Who owns which field: a report that follows an edge of the state machine, or repeats
  the state, brings in the six fields of the worker and nothing else; any other report
  changes nothing, in particular no report changes the state of a \<open>Completed\<close> record. The
  restart count is never the worker's. Applying the same report again changes nothing.
\<close>

theorem mergeTaskUpdate_contract:
  "(mergeTaskUpdate p r =
      (if tState r = tState p \<or> valid_edge (tState p) (tState r)
       then r\<lparr>tName := tName p, tID := tID p, tImage := tImage p, tMemory := tMemory p, tDisk := tDisk p,
              tRestartPolicy := tRestartPolicy p, tHealthCheck := tHealthCheck p, tRestartCount := tRestartCount p\<rparr>
       else p)) \<and>
   (tState (mergeTaskUpdate p r) = Completed \<longleftrightarrow>
      tState p = Completed \<or> tState p = Running \<and> tState r = Completed) \<and>
   mergeTaskUpdate (mergeTaskUpdate p r) r = mergeTaskUpdate p r"
proof (intro conjI)
  show "tState (mergeTaskUpdate p r) = Completed \<longleftrightarrow>
      tState p = Completed \<or> tState p = Running \<and> tState r = Completed"
    by (auto simp: merge_state)
qed (auto simp: mergeTaskUpdate_def)

section \<open>Health checks and panics\<close>

text \<open>No binding list of a record is empty.\<close>

definition bound_map :: "PortMap \<Rightarrow> bool" where
  "bound_map h \<longleftrightarrow> (case h of None \<Rightarrow> True | Some es \<Rightarrow> \<forall>e \<in> set es. snd e \<noteq> [])"

definition bound_ports :: "Task \<Rightarrow> bool" where
  "bound_ports t \<longleftrightarrow> bound_map (tHostPorts t)"

lemma getHostPort_no_panic: "bound_ports t \<Longrightarrow> \<exists>r. getHostPort i (tHostPorts t) = Inr r"
proof (cases "tHostPorts t")
  case (Some es)
  moreover assume "bound_ports t"
  moreover have "es \<noteq> [] \<Longrightarrow> es ! (i mod length es) \<in> set es" by simp
  ultimately show ?thesis by (fastforce simp: getHostPort_def bound_ports_def bound_map_def split: list.splits)
qed (simp add: getHostPort_def)

lemma checkTaskHealth_no_panic: "bound_ports t \<Longrightarrow> \<exists>r. checkTaskHealth M t m w = Inr r"
  using getHostPort_no_panic [of t "fst (me_range_first M w)"]
  by (auto simp: checkTaskHealth_def Let_def split: option.splits sum.splits prod.splits)

lemma healthChecks_loop_no_panic: "\<forall>t \<in> set ts. bound_ports t \<Longrightarrow> \<exists>r. healthChecks_loop M ts m w = Inr r"
proof (induction ts arbitrary: m w)
  case (Cons t ts)
  obtain e w1 where "checkTaskHealth M t m w = Inr (e, w1)"
    using checkTaskHealth_no_panic [of t M m w] Cons.prems by auto
  with Cons show ?case
    by (auto split: healthAction.splits option.splits prod.splits)
qed simp

lemma doHealthChecks_no_panic:
  assumes env: "manager_env M held ok contents" and k: "keyed_tasks held ok M m"
    and b: "\<And>i t. known held M m i = Some t \<Longrightarrow> bound_ports t"
  shows "\<exists>r. doHealthChecks M m w = Inr r"
proof (cases "List (me_taskdb M) (mTaskDb m)")
  case (Inr ts)
  have "bound_ports t" if t: "t \<in> set ts" for t
  proof -
    have "ok (mTaskDb m)" using k by (simp add: keyed_tasks_def)
    from store_contract.List_held [OF manager_env.store [OF env] this Inr t]
    obtain key where "held (mTaskDb m) key = Some t" by blast
    with k have "known held M m (tID t) = Some t" by (auto simp: keyed_tasks_def known_def)
    then show ?thesis by (rule b)
  qed
  then show ?thesis
    using healthChecks_loop_no_panic [of ts M m w] Inr
    by (simp add: doHealthChecks_def Manager_GetTasks_def snapshotTasks_def)
qed (simp add: doHealthChecks_def Manager_GetTasks_def snapshotTasks_def)

text \<open>
  C32. The health check pass ends the manager only through an empty list of port bindings:
  when no record has one, the pass never panics; a \<open>Running\<close> task with restarts left, routed
  to a worker, whose only published port has no binding, makes the check panic.
\<close>

theorem doHealthChecks_panic:
  assumes env: "manager_env M held ok contents" and k: "keyed_tasks held ok M m"
  shows "((\<forall>i t. known held M m i = Some t \<longrightarrow> bound_ports t) \<longrightarrow> (\<exists>r. doHealthChecks M m w = Inr r)) \<and>
    (\<forall>t wn port. Manager_GetTasks M m = Inr [t] \<and> tState t = Running \<and> tRestartCount t < TaskRestartMax \<and>
       mTaskWorkerMap m (tID t) = Some wn \<and> tHostPorts t = Some [(port, [])] \<longrightarrow>
       doHealthChecks M m w = Inl IndexOutOfRange)"
proof (intro conjI impI allI)
  assume b: "\<forall>i t. known held M m i = Some t \<longrightarrow> bound_ports t"
  then show "\<exists>r. doHealthChecks M m w = Inr r" by (intro doHealthChecks_no_panic [OF env k]) blast
next
  fix t wn port
  assume "Manager_GetTasks M m = Inr [t] \<and> tState t = Running \<and> tRestartCount t < TaskRestartMax \<and>
       mTaskWorkerMap m (tID t) = Some wn \<and> tHostPorts t = Some [(port, [])]"
  then show "doHealthChecks M m w = Inl IndexOutOfRange"
    by (simp add: doHealthChecks_def decideHealthAction_def checkTaskHealth_def workerForTask_def
        getHostPort_def Let_def split: prod.splits)
qed

theorem doHealthChecks_panic_witness:
  "doHealthChecks (mem_menv (sample_codec zero_Task))
     (manager_with rr0 [node_a] [sample_task Running 0\<lparr>tHostPorts := Some [(''80/tcp'', [])]\<rparr>] [] [(1, ''a'')]) [] =
     Inl IndexOutOfRange"
proof -
  let ?M = "mem_menv (sample_codec zero_Task)"
  let ?t = "sample_task Running 0\<lparr>tHostPorts := Some [(''80/tcp'', [])]\<rparr>"
  let ?m = "manager_with rr0 [node_a] [?t] [] [(1, ''a'')]"
  have k: "keyed_tasks InMemory_held InMemory_ok ?M ?m" by (rule manager_with_keyed) simp
  have "Manager_GetTasks ?M ?m = Inr [?t]" "mTaskWorkerMap ?m (tID ?t) = Some ''a''"
    by (simp_all add: manager_defs)
  then show ?thesis
    using doHealthChecks_panic [OF mem_menv_env k, of "[]", THEN conjunct2, rule_format, of ?t "''a''" "''80/tcp''"]
    by (simp add: TaskRestartMax_def)
qed

end
