(* ===== verification/Orch_Manager_Send.thy ===== *)
theory Orch_Manager_Send
  imports Orch_Manager_Props
begin

text \<open>
  One round of \<open>SendWork\<close> on every outcome of the send, stops and restarts, and what
  becomes of an event afterwards.
\<close>

section \<open>The pending queue\<close>

context manager_env
begin

lemma next_head:
  assumes "contents (mPending m) = te # es"
  shows "\<exists>q. nextPendingEvent M m = (Some te, m\<lparr>mPending := q\<rparr>) \<and> contents q = es"
proof -
  have "fst (Dequeue (me_queue M) (mPending m)) = Some te" using assms tq.Dequeue_front by blast
  moreover have "contents (snd (Dequeue (me_queue M) (mPending m))) = es" using assms by simp
  ultimately show ?thesis
    by (intro exI [of _ "snd (Dequeue (me_queue M) (mPending m))"]) (simp add: nextPendingEvent_def split_beta)
qed

end

text \<open>Choosing a worker does not look at the queue.\<close>

lemma SelectWorker_pending:
  "SelectWorker M t (m\<lparr>mPending := q\<rparr>) w =
     (case SelectWorker M t m w of Inl p \<Rightarrow> Inl p | Inr (r, m1, w1) \<Rightarrow> Inr (r, m1\<lparr>mPending := q\<rparr>, w1))"
  by (auto simp: SelectWorker_def pickWorker_def Let_def split: sum.splits option.splits prod.splits)

lemma unrouted_unassigned: "mTaskWorkerMap m i = None \<Longrightarrow> assignmentFor M i m = None"
  by (simp add: assignmentFor_def)

context manager_env
begin

text \<open>The state in which the send happens, and the round from there.\<close>

lemma SendWork_sends:
  assumes q: "contents (mPending m) = te # es" and un: "assignmentFor M (tID (teTask te)) m = None"
    and sel: "SelectWorker M (teTask te) m w = Inr (Inr n, m1, w1)"
    and post: "postTaskEvent M ''manager.SendWork'' (nName n) (nAPI n) te w1 = (r, w2)"
  shows "\<exists>q' c. contents q' = es \<and> n \<in> set (mWorkerNodes m) \<and>
    SendWork M m w = Inr (finish_send M te (nName n) r
      (assignTask M (nName n) te (m\<lparr>mPending := q', mScheduler := c\<rparr>)), w2)"
proof -
  obtain q' where nx: "nextPendingEvent M m = (Some te, m\<lparr>mPending := q'\<rparr>)" "contents q' = es"
    using next_head [OF q] by blast
  obtain c where m1: "m1 = m\<lparr>mScheduler := c\<rparr>" using SelectWorker_outcome(1) [OF sel] by blast
  have "SelectWorker M (teTask te) (m\<lparr>mPending := q'\<rparr>) w = Inr (Inr n, m\<lparr>mPending := q', mScheduler := c\<rparr>, w1)"
    using sel m1 by (simp add: SelectWorker_pending)
  moreover have "assignmentFor M (tID (teTask te)) (m\<lparr>mPending := q'\<rparr>) = None"
    using un by (simp add: assignmentFor_def taskLocked_def split: option.splits sum.splits)
  ultimately have "SendWork M m w = Inr (finish_send M te (nName n) r
      (assignTask M (nName n) te (m\<lparr>mPending := q', mScheduler := c\<rparr>)), w2)"
    using nx post by (simp add: SendWork_def Let_def)
  with nx(2) SelectWorker_outcome(2) [OF sel] show ?thesis by blast
qed

end

section \<open>The outcome of the send\<close>

lemma mset_remove1_snoc: "mset (remove1 x (xs @ [x])) = mset xs"
  by simp

text \<open>
  C15. A worker that cannot be reached costs nothing: when the connection for the event at the
  head of the queue fails, the round rolls the assignment back and puts the event at the end
  of the queue. Afterwards the routes are what they were, every worker lists the same tasks,
  the task store is untouched, and no event is lost.
\<close>

theorem SendWork_unreachable_requeues:
  assumes env: "manager_env M held ok contents" and r: "routing_ok m"
    and q: "contents (mPending m) = te # es" and un: "mTaskWorkerMap m (tID (teTask te)) = None"
    and sel: "SelectWorker M (teTask te) m w = Inr (Inr n, m1, w1)"
    and enc: "encode_TaskEvent (me_codec M) te = Inr data"
    and post: "me_Post M (WorkerTasksURL (nAPI n)) ''application/json'' data w1 = (Inl err, w2)"
  shows "\<exists>m'. SendWork M m w = Inr (m', w2) \<and> contents (mPending m') = es @ [te] \<and>
    mTaskDb m' = mTaskDb m \<and> mTaskWorkerMap m' = mTaskWorkerMap m \<and>
    (\<forall>wn. map_option mset (mWorkerTaskMap m' wn) = map_option mset (mWorkerTaskMap m wn))"
proof -
  let ?i = "tID (teTask te)"
  have p: "postTaskEvent M ''manager.SendWork'' (nName n) (nAPI n) te w1 =
      (Inl (manager_E ''manager.SendWork'' (''connecting to worker '' @ nName n) (Some (Joined [errWorkerUnreachable, err]))), w2)"
    using enc post by (simp add: postTaskEvent_def)
  obtain q' c where s: "contents q' = es" "n \<in> set (mWorkerNodes m)"
    "SendWork M m w = Inr (finish_send M te (nName n)
      (Inl (manager_E ''manager.SendWork'' (''connecting to worker '' @ nName n) (Some (Joined [errWorkerUnreachable, err]))))
      (assignTask M (nName n) te (m\<lparr>mPending := q', mScheduler := c\<rparr>)), w2)"
    using manager_env.SendWork_sends [OF env q unrouted_unassigned [OF un] sel p] by blast
  let ?m' = "enqueueEvent M te (drop_route (nName n) ?i (assignTask M (nName n) te (m\<lparr>mPending := q', mScheduler := c\<rparr>)))"
  have "SendWork M m w = Inr (?m', w2)"
    using s(3) by (simp add: finish_send_def unassignTask_def error_defs errWorkerUnreachable_def)
  moreover have "contents (mPending ?m') = es @ [te]"
    using s(1) queue.contents_Enqueue [OF manager_env.que [OF env]] by simp
  moreover have "mTaskWorkerMap ?m' = mTaskWorkerMap m" using un by (auto simp: fun_eq_iff)
  moreover obtain ts where "mWorkerTaskMap m (nName n) = Some ts"
    using routing_okD(1) [OF r] s(2) by blast
  then have "map_option mset (mWorkerTaskMap ?m' wn) = map_option mset (mWorkerTaskMap m wn)" for wn
    by (simp add: assignTask_def mset_remove1_snoc del: mset_remove1)
  ultimately show ?thesis by (intro exI [of _ ?m']) simp
qed

theorem SendWork_unreachable_requeues_witness:
  "\<exists>m'. SendWork (mem_menv (sample_codec zero_Task))
      (manager_with rr0 [node_a] [] [sample_event (sample_task Scheduled 0)] []) [] = Inr (m', []) \<and>
    inner (mPending m') = [sample_event (sample_task Scheduled 0)] \<and> mTaskWorkerMap m' = Map.empty"
proof -
  let ?M = "mem_menv (sample_codec zero_Task)" and ?te = "sample_event (sample_task Scheduled 0)"
  let ?m = "manager_with rr0 [node_a] [] [?te] []"
  have r: "routing_ok ?m" by (rule manager_with_routing) simp
  have sel: "SelectWorker ?M (teTask ?te) ?m [] = Inr (Inr node_a, ?m, [])"
    by (simp add: manager_defs rr0_def RoundRobin_SelectCandidateNodes_def RoundRobin_Score_def
        nextWorkerIndex_def scoreNodes_def RoundRobin_Pick_def highestScoringNode_def go_rem_def)
  have "\<exists>m'. SendWork ?M ?m [] = Inr (m', []) \<and> inner (mPending m') = [] @ [?te] \<and>
    mTaskDb m' = mTaskDb ?m \<and> mTaskWorkerMap m' = mTaskWorkerMap ?m \<and>
    (\<forall>wn. map_option mset (mWorkerTaskMap m' wn) = map_option mset (mWorkerTaskMap ?m wn))"
    by (rule SendWork_unreachable_requeues [OF mem_menv_env r _ _ sel])
      (simp_all add: mem_menv_def manager_with_def sample_codec_def next_outcome_def)
  then show ?thesis by (auto simp: manager_with_def)
qed

text \<open>
  C16. What a worker's answer does: the event has left the queue and is in the event log, the
  task is routed to the chosen worker, one of the configured ones, and on its list. If the
  worker answered 201 with a task that decodes, that task is written to the task store; after
  any other answer the task store is untouched, so a rejected task stays routed to a worker
  although the manager has no record of it.
\<close>

theorem SendWork_answered:
  assumes env: "manager_env M held ok contents"
    and q: "contents (mPending m) = te # es" and un: "assignmentFor M (tID (teTask te)) m = None"
    and sel: "SelectWorker M (teTask te) m w = Inr (Inr n, m1, w1)"
    and enc: "encode_TaskEvent (me_codec M) te = Inr data"
    and post: "me_Post M (WorkerTasksURL (nAPI n)) ''application/json'' data w1 = (Inr resp, w2)"
    and json: "\<And>e. decode_Error (me_codec M) (Body resp) = Inl e \<Longrightarrow> \<not> errors_Is e errWorkerUnreachable"
      "\<And>e. decode_Task (me_codec M) (Body resp) = Inl e \<Longrightarrow> \<not> errors_Is e errWorkerUnreachable"
  shows "\<exists>m'. SendWork M m w = Inr (m', w2) \<and> contents (mPending m') = es \<and> n \<in> set (mWorkerNodes m) \<and>
    mTaskWorkerMap m' = (mTaskWorkerMap m)(tID (teTask te) \<mapsto> nName n) \<and>
    (\<exists>ts. mWorkerTaskMap m' (nName n) = Some ts \<and> tID (teTask te) \<in> set ts) \<and>
    mEventDb m' = snd (Put (me_eventdb M) (me_uuid_String M (teID te)) te (mEventDb m)) \<and>
    mTaskDb m' = (if StatusCode resp = StatusCreated then
                    (case decode_Task (me_codec M) (Body resp) of
                       Inr t \<Rightarrow> snd (Put (me_taskdb M) (me_uuid_String M (tID t)) t (mTaskDb m))
                     | Inl e \<Rightarrow> mTaskDb m)
                  else mTaskDb m)"
proof -
  obtain r w2' where p: "postTaskEvent M ''manager.SendWork'' (nName n) (nAPI n) te w1 = (r, w2')" by fastforce
  have w2': "w2' = w2" using p enc post by (auto simp: postTaskEvent_def split: if_splits sum.splits)
  obtain q' c where s: "contents q' = es" "n \<in> set (mWorkerNodes m)"
    "SendWork M m w = Inr (finish_send M te (nName n) r (assignTask M (nName n) te (m\<lparr>mPending := q', mScheduler := c\<rparr>)), w2)"
    using manager_env.SendWork_sends [OF env q un sel p] w2' by blast
  let ?m2 = "assignTask M (nName n) te (m\<lparr>mPending := q', mScheduler := c\<rparr>)"
  have out: "finish_send M te (nName n) r ?m2 = ?m2\<lparr>mTaskDb :=
      (if StatusCode resp = StatusCreated then
         (case decode_Task (me_codec M) (Body resp) of
            Inr t \<Rightarrow> snd (Put (me_taskdb M) (me_uuid_String M (tID t)) t (mTaskDb m))
          | Inl e \<Rightarrow> mTaskDb m)
       else mTaskDb m)\<rparr>"
    using p enc post json
    by (auto simp: postTaskEvent_def finish_send_def Manager_putTask_def error_defs assignTask_def
        split: if_splits sum.splits option.splits prod.splits)
  then show ?thesis using s by (simp add: assignTask_def)
qed

theorem SendWork_answered_witness:
  "\<exists>m'. SendWork (mem_menv (sample_codec (sample_task Scheduled 0)))
      (manager_with rr0 [node_a] [] [sample_event (sample_task Scheduled 0)] [])
      [Inr \<lparr>StatusCode = 201, Body = ''{}''\<rparr>] = Inr (m', []) \<and>
    mTaskWorkerMap m' 1 = Some ''a'' \<and> Db (mTaskDb m') = [(''x'', sample_task Scheduled 0)]"
proof -
  let ?M = "mem_menv (sample_codec (sample_task Scheduled 0))" and ?te = "sample_event (sample_task Scheduled 0)"
  let ?m = "manager_with rr0 [node_a] [] [?te] []" and ?resp = "\<lparr>StatusCode = 201, Body = ''{}''\<rparr>"
  have sel: "SelectWorker ?M (teTask ?te) ?m [Inr ?resp] = Inr (Inr node_a, ?m, [Inr ?resp])"
    by (simp add: manager_defs rr0_def RoundRobin_SelectCandidateNodes_def RoundRobin_Score_def
        nextWorkerIndex_def scoreNodes_def RoundRobin_Pick_def highestScoringNode_def go_rem_def)
  obtain m' where "SendWork ?M ?m [Inr ?resp] = Inr (m', [])"
    "mTaskWorkerMap m' = (mTaskWorkerMap ?m)(tID (teTask ?te) \<mapsto> nName node_a)"
    "mTaskDb m' = (if StatusCode ?resp = StatusCreated then
                    (case decode_Task (me_codec ?M) (Body ?resp) of
                       Inr t \<Rightarrow> snd (Put (me_taskdb ?M) (me_uuid_String ?M (tID t)) t (mTaskDb ?m))
                     | Inl e \<Rightarrow> mTaskDb ?m)
                  else mTaskDb ?m)"
    using SendWork_answered [OF mem_menv_env _ _ sel, of "[]" "''{}''" ?resp "[]"]
    by (auto simp: mem_menv_def manager_with_def sample_codec_def next_outcome_def assignmentFor_def)
  then show ?thesis by (auto simp: status_defs manager_defs sample_codec_def)
qed

text \<open>
  The requeue decision is exact: the error of a send matches \<open>errWorkerUnreachable\<close>
  exactly when the request was made and the HTTP client returned no response, given that the
  JSON package does not return the manager's own sentinel.
\<close>

theorem postTaskEvent_unreachable_iff:
  assumes "\<And>e. encode_TaskEvent (me_codec M) te = Inl e \<Longrightarrow> \<not> errors_Is e errWorkerUnreachable"
    and "\<And>s e. decode_Error (me_codec M) s = Inl e \<Longrightarrow> \<not> errors_Is e errWorkerUnreachable"
    and "\<And>s e. decode_Task (me_codec M) s = Inl e \<Longrightarrow> \<not> errors_Is e errWorkerUnreachable"
  shows "(\<exists>e. fst (postTaskEvent M op wn addr te w) = Inl e \<and> errors_Is e errWorkerUnreachable) \<longleftrightarrow>
    (\<exists>data e. encode_TaskEvent (me_codec M) te = Inr data \<and>
       fst (me_Post M (WorkerTasksURL addr) ''application/json'' data w) = Inl e)"
proof (cases "encode_TaskEvent (me_codec M) te")
  case (Inl e)
  then show ?thesis using assms(1) by (simp add: postTaskEvent_def error_defs)
next
  case (Inr data)
  obtain r w1 where post: "me_Post M (WorkerTasksURL addr) ''application/json'' data w = (r, w1)" by fastforce
  show ?thesis
  proof (cases r)
    case (Inl e)
    with Inr post show ?thesis
      by (simp add: postTaskEvent_def error_defs errWorkerUnreachable_def)
  next
    case resp: (Inr resp)
    with Inr post assms(2,3) show ?thesis
      by (auto simp: postTaskEvent_def error_defs split: sum.splits)
  qed
qed

theorem postTaskEvent_unreachable_iff_witness:
  "(\<exists>e. fst (postTaskEvent (mem_menv (sample_codec zero_Task)) ''op'' ''a'' ''h'' (sample_event zero_Task) []) = Inl e \<and>
     errors_Is e errWorkerUnreachable)"
  using postTaskEvent_unreachable_iff [of "mem_menv (sample_codec zero_Task)" "sample_event zero_Task" "''op''" "''a''" "''h''" "[]"]
  by (simp add: mem_menv_def sample_codec_def next_outcome_def)

section \<open>Stopping a task\<close>

lemma taskLocked_op: "taskLocked M op i m = Inr t \<Longrightarrow> taskLocked M op' i m = Inr t"
  by (auto simp: taskLocked_def split: sum.splits)

lemma assignmentFor_taskLocked:
  "assignmentFor M i m = Some (wn, p) \<Longrightarrow> mTaskWorkerMap m i = Some wn \<and> taskLocked M op i m = Inr p"
  by (auto simp: assignmentFor_def split: option.splits sum.splits dest: taskLocked_op)

lemma assignmentFor_pending [simp]: "assignmentFor M i (m\<lparr>mPending := q\<rparr>) = assignmentFor M i m"
  by (simp add: assignmentFor_def taskLocked_def split: option.splits sum.splits)

text \<open>
  C17. A stop that the worker accepts is final: when the event at the head of the queue asks
  to complete a routed \<open>Running\<close> task and the worker answers the delete with 204, the round
  takes the task off its route and records it as \<open>Completed\<close>; and whatever the workers
  report afterwards, no number of update and health check passes takes it out of
  \<open>Completed\<close> or restarts it.
\<close>

theorem stop_is_final:
  assumes env: "manager_env M held ok contents" and k: "keyed_tasks held ok M m"
    and q: "contents (mPending m) = te # es" and te: "tState (teTask te) = Completed" "tID (teTask te) = i"
    and a: "assignmentFor M i m = Some (wn, p)" "tState p = Running" and addr: "workerAddress wn m = Some url"
    and req: "me_NewRequest M ''DELETE'' (WorkerTasksURL url @ ''/'' @ me_uuid_String M i) = None"
    and del: "me_Do_Delete M (WorkerTasksURL url @ ''/'' @ me_uuid_String M i) w = (Inr resp, w1)"
      "StatusCode resp = StatusNoContent"
    and put: "Put (me_taskdb M) (me_uuid_String M i) (p\<lparr>tState := Completed\<rparr>) (mTaskDb m) = (None, s')"
  shows "\<exists>m'. SendWork M m w = Inr (m', w1) \<and> contents (mPending m') = es \<and>
    mTaskWorkerMap m' = (mTaskWorkerMap m)(i := None) \<and>
    known held M m' = (known held M m)(i \<mapsto> p\<lparr>tState := Completed\<rparr>) \<and>
    (\<forall>w' m'' w''. passes M (m', w') (m'', w'') \<longrightarrow>
       (\<exists>p''. known held M m'' i = Some p'' \<and> tState p'' = Completed \<and> tRestartCount p'' = tRestartCount p))"
proof -
  obtain q' where nx: "nextPendingEvent M m = (Some te, m\<lparr>mPending := q'\<rparr>)" "contents q' = es"
    using manager_env.next_head [OF env q] by blast
  let ?m0 = "m\<lparr>mPending := q'\<rparr>"
  let ?m' = "drop_route wn i (?m0\<lparr>mTaskDb := s'\<rparr>)"
  have "taskLocked M ''manager.retireTask'' i ?m0 = Inr p"
    using a(1) assignmentFor_taskLocked [of M i ?m0] by simp
  then have "retireTask M wn i ?m0 = ?m'" using put by (simp add: retireTask_def)
  then have s: "SendWork M m w = Inr (?m', w1)"
    using nx te a addr req del
    by (simp add: SendWork_def Let_def Manager_stopTask_def requireWorkerAddress_def workerAddress_def)
  have p: "known held M m i = Some p"
    using manager_env.assignmentFor_Some [OF env k a(1)] by simp
  have i: "tID (p\<lparr>tState := Completed\<rparr>) = i" using manager_env.known_ID [OF env k p] by simp
  have db: "mTaskDb ?m' = mTaskDb (m\<lparr>mTaskDb := s'\<rparr>)" by simp
  have kn: "keyed_tasks held ok M ?m'" "known held M ?m' = (known held M m)(i \<mapsto> p\<lparr>tState := Completed\<rparr>)"
    using manager_env.Put_known [OF env k, of "p\<lparr>tState := Completed\<rparr>" None s'] put i
      manager_env.keyed_cong [OF env db] manager_env.known_cong [OF env db] by simp_all
  have "\<exists>p''. known held M m'' i = Some p'' \<and> tState p'' = Completed \<and> tRestartCount p'' = tRestartCount p"
    if ps: "passes M (?m', w') (m'', w'')" for w' m'' w''
  proof -
    have "moves (known held M ?m') (known held M m'')"
      using manager_env.passes_pass [OF env ps] kn(1) by (simp add: manager_env.pass_def [OF env])
    then obtain p'' where "known held M m'' i = Some p''" "record_move (p\<lparr>tState := Completed\<rparr>) p''"
      using kn(2) movesD [of _ _ i] by fastforce
    then show ?thesis using record_move_Completed by fastforce
  qed
  with s nx(2) kn(2) show ?thesis by (intro exI [of _ ?m']) simp
qed

theorem stop_is_final_witness:
  "\<exists>m' p''. SendWork (mem_menv (sample_codec (sample_task Running 0)))
      (manager_with rr0 [node_a] [sample_task Running 0] [sample_event (sample_task Completed 0)] [(1, ''a'')])
      [Inr \<lparr>StatusCode = 204, Body = ''''\<rparr>] = Inr (m', []) \<and>
    known InMemory_held (mem_menv (sample_codec (sample_task Running 0)))
      (fst (Manager_updateTasks (mem_menv (sample_codec (sample_task Running 0))) m'
         [Inr \<lparr>StatusCode = 200, Body = ''[{}]''\<rparr>])) 1 = Some p'' \<and> tState p'' = Completed"
proof -
  let ?M = "mem_menv (sample_codec (sample_task Running 0))"
  let ?m = "manager_with rr0 [node_a] [sample_task Running 0] [sample_event (sample_task Completed 0)] [(1, ''a'')]"
  let ?resp = "\<lparr>StatusCode = 204, Body = ''''\<rparr>"
  have k: "keyed_tasks InMemory_held InMemory_ok ?M ?m" by (rule manager_with_keyed) simp
  have "\<exists>m'. SendWork ?M ?m [Inr ?resp] = Inr (m', []) \<and> inner (mPending m') = [] \<and>
    mTaskWorkerMap m' = (mTaskWorkerMap ?m)(1 := None) \<and>
    known InMemory_held ?M m' = (known InMemory_held ?M ?m)(1 \<mapsto> (sample_task Running 0)\<lparr>tState := Completed\<rparr>) \<and>
    (\<forall>w' m'' w''. passes ?M (m', w') (m'', w'') \<longrightarrow>
       (\<exists>p''. known InMemory_held ?M m'' 1 = Some p'' \<and> tState p'' = Completed \<and>
          tRestartCount p'' = tRestartCount (sample_task Running 0)))"
    by (rule stop_is_final [OF mem_menv_env k, where url = "''h''" and te = "sample_event (sample_task Completed 0)"
          and wn = "''a''" and resp = ?resp])
      (simp_all add: manager_defs status_defs sample_codec_def)
  then obtain m' where m': "SendWork ?M ?m [Inr ?resp] = Inr (m', [])"
    "\<And>w' m'' w''. passes ?M (m', w') (m'', w'') \<Longrightarrow> \<exists>p''. known InMemory_held ?M m'' 1 = Some p'' \<and> tState p'' = Completed"
    by blast
  obtain m2 w2 where u: "Manager_updateTasks ?M m' [Inr \<lparr>StatusCode = 200, Body = ''[{}]''\<rparr>] = (m2, w2)" by fastforce
  have "passes ?M (m', [Inr \<lparr>StatusCode = 200, Body = ''[{}]''\<rparr>]) (m2, w2)"
    by (rule passes_update [OF passes_refl u])
  from m'(2) [OF this] m'(1) u show ?thesis by auto
qed

section \<open>Events that are lost\<close>

context manager_env
begin

lemma taskLocked_total:
  assumes "total_store (me_taskdb M) held ok" and "keyed_tasks held ok M m" and "known held M m i = Some t"
  shows "taskLocked M op i m = Inr t"
  using total_store.Get_total [OF assms(1) keyed_ok [OF assms(2)]] assms(3)
  by (simp add: taskLocked_def known_def)

lemma beginRestart_total:
  assumes "total_store (me_taskdb M) held ok" and "keyed_tasks held ok M m" and "known held M m i = Some t"
  shows "\<exists>s. beginRestart M i m = (Some (restarted t), m\<lparr>mTaskDb := s\<rparr>) \<and>
    known held M (m\<lparr>mTaskDb := s\<rparr>) = (known held M m)(i \<mapsto> restarted t) \<and> keyed_tasks held ok M (m\<lparr>mTaskDb := s\<rparr>)"
proof -
  obtain e s where put: "Put (me_taskdb M) (me_uuid_String M i) (restarted t) (mTaskDb m) = (e, s)" by fastforce
  then have "e = None" using total_store.Put_total [OF assms(1)] by (metis fst_conv)
  moreover have "tID (restarted t) = i" using known_ID [OF assms(2,3)] by (simp add: restarted_def)
  ultimately show ?thesis
    using put taskLocked_total [OF assms] Put_known [OF assms(2), of "restarted t" e s]
    by (auto simp: beginRestart_def Let_def restarted_def)
qed

lemma retireTask_total:
  assumes tot: "total_store (me_taskdb M) held ok" and k: "keyed_tasks held ok M m" and t: "known held M m i = Some t"
  shows "known held M (retireTask M wn i m) = (known held M m)(i \<mapsto> t\<lparr>tState := Completed\<rparr>)"
proof -
  obtain e s where put: "Put (me_taskdb M) (me_uuid_String M i) (t\<lparr>tState := Completed\<rparr>) (mTaskDb m) = (e, s)" by fastforce
  then have e: "e = None" using total_store.Put_total [OF tot] by (metis fst_conv)
  have "tID (t\<lparr>tState := Completed\<rparr>) = i" using known_ID [OF k t] by simp
  then have "known held M (m\<lparr>mTaskDb := s\<rparr>) = (known held M m)(i \<mapsto> t\<lparr>tState := Completed\<rparr>)"
    using Put_known [OF k, of "t\<lparr>tState := Completed\<rparr>" e s] put e by simp
  moreover have "retireTask M wn i m = drop_route wn i (m\<lparr>mTaskDb := s\<rparr>)"
    using put taskLocked_total [OF tot k t] by (simp add: retireTask_def)
  ultimately show ?thesis using known_cong [of "retireTask M wn i m" "m\<lparr>mTaskDb := s\<rparr>"] by simp
qed

end

text \<open>
  C29. A restart whose worker is unreachable is lost: \<open>restartTask\<close> puts its event on the
  queue, but the task is still routed, so when the event comes up \<open>SendWork\<close> drops it
  without a request. The record stays \<open>Scheduled\<close> with one restart used up, and the health
  check passes skip it.
\<close>

theorem restart_unreachable_is_lost:
  assumes env: "manager_env M held ok contents" and tot: "total_store (me_taskdb M) held ok"
    and k: "keyed_tasks held ok M m" and q: "contents (mPending m) = []"
    and t: "known held M m (tID t) = Some t" and route: "mTaskWorkerMap m (tID t) = Some wn"
    and addr: "workerAddress wn m = Some a"
    and te: "restart_event M (restarted t) w = (te, w1)" and enc: "encode_TaskEvent (me_codec M) te = Inr data"
    and down: "me_Post M (WorkerTasksURL a) ''application/json'' data w1 = (Inl err, w2)"
  shows "\<exists>m1 m2. restartTask M t m w = (m1, w2) \<and> contents (mPending m1) = [te] \<and> teTask te = restarted t \<and>
    SendWork M m1 w2 = Inr (m2, w2) \<and> contents (mPending m2) = [] \<and>
    known held M m2 = (known held M m)(tID t \<mapsto> restarted t) \<and> mTaskWorkerMap m2 = mTaskWorkerMap m \<and>
    decideHealthAction (restarted t) = healthSkipNotEligible"
proof -
  obtain s where b: "beginRestart M (tID t) m = (Some (restarted t), m\<lparr>mTaskDb := s\<rparr>)"
    "known held M (m\<lparr>mTaskDb := s\<rparr>) = (known held M m)(tID t \<mapsto> restarted t)"
    "keyed_tasks held ok M (m\<lparr>mTaskDb := s\<rparr>)"
    using manager_env.beginRestart_total [OF env tot k t] by blast
  have te_t: "teTask te = restarted t" using te by (auto simp: restart_event_def split: prod.splits)
  let ?m1 = "enqueueEvent M te (m\<lparr>mTaskDb := s\<rparr>)"
  have r: "restartTask M t m w = (?m1, w2)"
    using route addr b(1) te enc down
    by (simp add: restartTask_def workerForTask_def requireWorkerAddress_def postTaskEvent_def
        error_defs errWorkerUnreachable_def)
  have c: "contents (mPending ?m1) = te # []"
    using q queue.contents_Enqueue [OF manager_env.que [OF env]] by simp
  obtain q' where nx: "nextPendingEvent M ?m1 = (Some te, ?m1\<lparr>mPending := q'\<rparr>)" "contents q' = []"
    using manager_env.next_head [OF env c] by blast
  have k1: "keyed_tasks held ok M ?m1" "known held M ?m1 = (known held M m)(tID t \<mapsto> restarted t)"
    using b(2,3) manager_env.enqueue_known [OF env] by simp_all
  then have "assignmentFor M (tID t) ?m1 = Some (wn, restarted t)"
    using manager_env.taskLocked_total [OF env tot k1(1), of "tID t"] route by (simp add: assignmentFor_def)
  moreover have "tID (restarted t) = tID t" "tState (restarted t) = Scheduled" by (simp_all add: restarted_def)
  ultimately have s2: "SendWork M ?m1 w2 = Inr (?m1\<lparr>mPending := q'\<rparr>, w2)"
    using nx te_t by (simp add: SendWork_def Let_def)
  have "known held M (?m1\<lparr>mPending := q'\<rparr>) = known held M ?m1"
    by (rule manager_env.known_cong [OF env]) simp
  then show ?thesis
    using r c te_t s2 nx(2) k1(2)
    by (intro exI [of _ ?m1] exI [of _ "?m1\<lparr>mPending := q'\<rparr>"] conjI)
      (simp_all add: decideHealthAction_def restarted_def)
qed

theorem restart_unreachable_is_lost_witness:
  "\<exists>te m1 m2. restartTask (mem_menv (sample_codec zero_Task)) (sample_task Failed 0)
      (manager_with rr0 [node_a] [sample_task Failed 0] [] [(1, ''a'')]) [] = (m1, []) \<and>
    inner (mPending m1) = [te] \<and>
    SendWork (mem_menv (sample_codec zero_Task)) m1 [] = Inr (m2, []) \<and> inner (mPending m2) = []"
proof -
  let ?M = "mem_menv (sample_codec zero_Task)" and ?t = "sample_task Failed 0"
  let ?m = "manager_with rr0 [node_a] [?t] [] [(1, ''a'')]"
  have k: "keyed_tasks InMemory_held InMemory_ok ?M ?m" by (rule manager_with_keyed) simp
  obtain te where te: "restart_event ?M (restarted ?t) [] = (te, [])"
    by (simp add: restart_event_def mem_menv_def)
  from restart_unreachable_is_lost [OF mem_menv_env mem_menv_total k, of ?t "''a''" "''h''" "[]" te "[]" "''{}''"]
  show ?thesis using te
    by (simp add: mem_menv_def manager_with_def sample_codec_def next_outcome_def workerAddress_def known_def
        InMemory_held_def unary_def) blast
qed

text \<open>
  C30. A second stop of a finished task starts it over: a task that was retired is
  \<open>Completed\<close> in the task store and has no route. A stop request for it is answered 204, and
  when its event comes up \<open>SendWork\<close> does not see a stop but a task to place: it selects a
  worker, posts the task to it, and, unless the worker is unreachable, routes the task there.
\<close>

theorem stop_of_retired_is_sent:
  assumes env: "manager_env M held ok contents" and tot: "total_store (me_taskdb M) held ok"
    and k: "keyed_tasks held ok M m" and q: "contents (mPending m) = []"
    and t: "known held M m i = Some t" "tState t = Completed" and route: "mTaskWorkerMap m i = None"
    and req: "taskID \<noteq> ''''" "me_uuid_Parse M taskID = Inr i"
    and h: "Manager_StopTaskHandler M taskID m w = (reply, m1, w1)"
    and sel: "SelectWorker M t m w1 = Inr (Inr n, mx, w2)"
  shows "rStatus reply = StatusNoContent \<and>
    (\<exists>te r w3 m2. teTask te = t \<and> contents (mPending m1) = [te] \<and>
       postTaskEvent M ''manager.SendWork'' (nName n) (nAPI n) te w2 = (r, w3) \<and>
       SendWork M m1 w1 = Inr (m2, w3) \<and>
       (case r of Inl e \<Rightarrow> \<not> errors_Is e errWorkerUnreachable \<longrightarrow> mTaskWorkerMap m2 i = Some (nName n)
        | Inr t' \<Rightarrow> mTaskWorkerMap m2 i = Some (nName n)))"
proof -
  have i: "tID t = i" using manager_env.known_ID [OF env k t(1)] .
  have "Manager_LookupTask M i m = Some t"
    using manager_env.taskLocked_total [OF env tot k t(1)] by (simp add: Manager_LookupTask_def)
  moreover have "t\<lparr>tState := Completed\<rparr> = t" using t(2) by simp
  moreover obtain u wa now wb where "me_uuid_New M w = (u, wa)" "me_now M wa = (now, wb)" by fastforce
  moreover define te where "te = \<lparr>teID = u, teState = Completed, teTimestamp = now, teTask = t\<rparr>"
  ultimately have te: "teTask te = t" "m1 = enqueueEvent M te m" and rep: "reply = WriteHeader StatusNoContent"
    using h req by (auto simp: Manager_StopTaskHandler_def Manager_AddTask_def)
  have c: "contents (mPending m1) = te # []"
    using q te(2) queue.contents_Enqueue [OF manager_env.que [OF env]] by simp
  have un: "assignmentFor M (tID (teTask te)) m1 = None"
    using te i route by (simp add: assignmentFor_def)
  have m1: "m1 = m\<lparr>mPending := mPending m1\<rparr>" by (simp add: te(2) enqueueEvent_def)
  then have sel1: "SelectWorker M (teTask te) m1 w1 = Inr (Inr n, mx\<lparr>mPending := mPending m1\<rparr>, w2)"
    using SelectWorker_pending [where m = m and q = "mPending m1" and M = M and t = t and w = w1] sel te(1) by simp
  obtain r w3 where post: "postTaskEvent M ''manager.SendWork'' (nName n) (nAPI n) te w2 = (r, w3)" by fastforce
  obtain q' cu where s: "SendWork M m1 w1 = Inr (finish_send M te (nName n) r
      (assignTask M (nName n) te (m1\<lparr>mPending := q', mScheduler := cu\<rparr>)), w3)"
    using manager_env.SendWork_sends [OF env c un sel1 post] by blast
  let ?m2 = "finish_send M te (nName n) r (assignTask M (nName n) te (m1\<lparr>mPending := q', mScheduler := cu\<rparr>))"
  have "case r of Inl e \<Rightarrow> \<not> errors_Is e errWorkerUnreachable \<longrightarrow> mTaskWorkerMap ?m2 i = Some (nName n)
        | Inr t' \<Rightarrow> mTaskWorkerMap ?m2 i = Some (nName n)"
    using te(1) i by (auto simp: finish_send_def Manager_putTask_def split: sum.splits prod.splits option.splits)
  with te(1) c post s rep show ?thesis by (auto simp: reply_defs)
qed

theorem stop_of_retired_is_sent_witness:
  "\<exists>te m1 m2 w3. Manager_StopTaskHandler (mem_menv (sample_codec (sample_task Completed 0))) ''x''
      (manager_with rr0 [node_a] [sample_task Completed 0] [] []) [Inr \<lparr>StatusCode = 201, Body = ''{}''\<rparr>] =
      (WriteHeader 204, m1, [Inr \<lparr>StatusCode = 201, Body = ''{}''\<rparr>]) \<and>
    inner (mPending m1) = [te] \<and> teTask te = sample_task Completed 0 \<and>
    SendWork (mem_menv (sample_codec (sample_task Completed 0))) m1 [Inr \<lparr>StatusCode = 201, Body = ''{}''\<rparr>] = Inr (m2, w3) \<and>
    mTaskWorkerMap m2 1 = Some ''a''"
proof -
  let ?t = "sample_task Completed 0" and ?resp = "Inr \<lparr>StatusCode = 201, Body = ''{}''\<rparr> :: go_error + Response"
  let ?M = "mem_menv (sample_codec ?t)" and ?m = "manager_with rr0 [node_a] [sample_task Completed 0] [] []"
  have k: "keyed_tasks InMemory_held InMemory_ok ?M ?m" by (rule manager_with_keyed) simp
  obtain m1 where h: "Manager_StopTaskHandler ?M ''x'' ?m [?resp] = (WriteHeader 204, m1, [?resp])"
    by (simp add: manager_defs status_defs)
  have sel: "SelectWorker ?M ?t ?m [?resp] = Inr (Inr node_a, ?m, [?resp])"
    by (simp add: manager_defs rr0_def RoundRobin_SelectCandidateNodes_def RoundRobin_Score_def
        nextWorkerIndex_def scoreNodes_def RoundRobin_Pick_def highestScoringNode_def go_rem_def)
  have hyps: "inner (mPending ?m) = []" "known InMemory_held ?M ?m 1 = Some ?t" "mTaskWorkerMap ?m 1 = None"
    "me_uuid_Parse ?M ''x'' = Inr 1" "tState ?t = Completed" "''x'' \<noteq> ''''"
    by (simp_all add: manager_defs)
  have "fst (postTaskEvent ?M op wn a te [?resp]) = Inr ?t" for op wn a te
    by (simp add: postTaskEvent_def mem_menv_def sample_codec_def next_outcome_def status_defs)
  then have post: "r = Inr ?t" if "postTaskEvent ?M op wn a te [?resp] = (r, w3)" for op wn a te r w3
    using that by (metis fst_conv)
  obtain te r w3 m2 where X: "teTask te = ?t" "inner (mPending m1) = [te]"
       "postTaskEvent ?M ''manager.SendWork'' (nName node_a) (nAPI node_a) te [?resp] = (r, w3)"
       "SendWork ?M m1 [?resp] = Inr (m2, w3)"
       "case r of Inl e \<Rightarrow> \<not> errors_Is e errWorkerUnreachable \<longrightarrow> mTaskWorkerMap m2 1 = Some (nName node_a)
        | Inr t' \<Rightarrow> mTaskWorkerMap m2 1 = Some (nName node_a)"
    using stop_of_retired_is_sent [OF mem_menv_env mem_menv_total k hyps(1,2,5,3,6,4) h sel]
    by (elim conjE exE) (rule that)
  have "mTaskWorkerMap m2 1 = Some ''a''" using X(5) post [OF X(3)] by simp
  then show ?thesis using h X(1,2,4) by (intro exI conjI)
qed

section \<open>Disk requests\<close>

lemma Score_MarginalCost: "Score env t nodes (MarginalCostS e) w = Inr (r, s, w1) \<Longrightarrow> s = MarginalCostS e"
  by (auto split: sum.splits)

lemma SelectWorker_MarginalCost:
  "SelectWorker M t m w = Inr (r, m1, w1) \<Longrightarrow> mScheduler m = MarginalCostS e \<Longrightarrow> mScheduler m1 = MarginalCostS e"
  by (auto simp: SelectWorker_def pickWorker_def Let_def
      split: sum.splits option.splits prod.splits if_splits dest: Score_MarginalCost simp del: Score.simps)

lemma finish_send_scheduler: "mScheduler (finish_send M te wn r m) = mScheduler m"
  by (auto simp: finish_send_def unassignTask_def Manager_putTask_def split: sum.splits prod.splits option.splits)

lemma SendWork_MarginalCost:
  assumes "SendWork M m w = Inr (m', w')" and "mScheduler m = MarginalCostS e"
  shows "mScheduler m' = MarginalCostS e"
  using assms(1)
proof (cases rule: SendWork_cases)
  case (stop te m0 wn p)
  then show ?thesis
    using Manager_stopTask_cases [OF stop(5)] nextPendingEvent_frame [OF stop(1)] assms(2)
    by (auto simp: retireTask_def split: sum.splits)
next
  case (unplaced te m0 e')
  then show ?thesis
    using nextPendingEvent_frame [OF unplaced(1)] assms(2) SelectWorker_MarginalCost [OF unplaced(3)] by simp
next
  case (sent te m0 n m1 w1 r)
  then show ?thesis
    using nextPendingEvent_frame [OF sent(1)] assms(2) SelectWorker_MarginalCost [OF sent(3)]
    by (simp add: finish_send_scheduler)
next
  case idle
  then show ?thesis using nextPendingEvent_frame(5) assms(2) by metis
next
  case (ignored te wn p)
  then show ?thesis using nextPendingEvent_frame(5) assms(2) by metis
qed

lemma manager_step_MarginalCost:
  assumes env: "manager_env M held ok contents" and s: "manager_step M (m, w) (m', w')"
    and k: "keyed_tasks held ok M m" and c: "mScheduler m = MarginalCostS e"
  shows "mScheduler m' = MarginalCostS e"
  using s
proof (cases rule: manager_step.cases)
  case step_start
  then show ?thesis using c by (auto simp: Manager_StartTaskHandler_def Manager_AddTask_def split: sum.splits)
next
  case step_stop
  then show ?thesis
    using c by (auto simp: Manager_StopTaskHandler_def Manager_AddTask_def Let_def
        split: sum.splits option.splits if_splits prod.splits)
next
  case step_send
  then show ?thesis using SendWork_MarginalCost [of M m w m' w' e] c by simp
next
  case step_update
  then have "manager_env.pass M held ok contents m m'"
    using manager_env.Manager_updateTasks_pass [OF env k, of w] by simp
  then show ?thesis using c by (simp add: manager_env.pass_def [OF env])
next
  case step_health
  then have "manager_env.pass M held ok contents m m'"
    using manager_env.doHealthChecks_pass [OF env k] by simp
  then show ?thesis using c by (simp add: manager_env.pass_def [OF env])
qed (use c in simp)

lemma manager_run_MarginalCost:
  assumes env: "manager_env M held ok contents" and s: "manager_run M c c'"
    and k: "keyed_tasks held ok M (fst c)" "routing_ok (fst c)" and c: "mScheduler (fst c) = MarginalCostS e"
  shows "mScheduler (fst c') = MarginalCostS e"
  using s k c
proof (induction rule: manager_run.induct)
  case (run_step c c1 c2)
  have "keyed_tasks held ok M (fst c1)"
    using manager_env.manager_run_keeps [OF env run_step.hyps(1)] run_step.prems by blast
  then show ?case
    using manager_step_MarginalCost [OF env, of "fst c1" "snd c1" "fst c2" "snd c2"] run_step by simp
qed simp

text \<open>
  C31. With the default scheduler a task that asks for disk is never placed: \<open>NewManager\<close> gives
  its nodes no disk and nothing ever sets it, so in every state a run reaches, an event for an
  unassigned task with a positive disk request is taken off the queue and dropped without any
  request to a worker, and nothing else changes.
\<close>

theorem disk_request_is_dropped:
  assumes env: "manager_env M held ok contents"
    and new: "NewManager M workers ''marginal-cost'' dbType (Inr (taskDb, eventDb)) = Inr m0"
    and db: "ok taskDb" "\<forall>k t. held taskDb k = Some t \<longrightarrow> k = me_uuid_String M (tID t)"
    and run: "manager_run M (m0, w0) (m, w)"
    and q: "contents (mPending m) = te # es" and un: "assignmentFor M (tID (teTask te)) m = None"
    and disk: "0 < tDisk (teTask te)"
  shows "\<exists>q. SendWork M m w = Inr (m\<lparr>mPending := q\<rparr>, w) \<and> contents q = es"
proof -
  note N = manager_env.NewManager_keeps [OF env new db]
  obtain e where "mScheduler m0 = MarginalCostS e"
    using new by (auto simp: NewManager_def GetScheduler_def MarginalCost_name_def Let_def)
  then have sch: "mScheduler m = MarginalCostS e"
    using manager_run_MarginalCost [OF env run] N by simp
  have "mWorkerNodes m = mWorkerNodes m0"
    using manager_env.manager_run_keeps [OF env run] N by simp
  then have "\<forall>n \<in> set (mWorkerNodes m). nDisk n = 0 \<and> nDiskAllocated n = 0"
    using N(3) by (auto simp: NewNode_def zero_Node_def)
  then have none: "SelectCandidateNodes (mScheduler m) (teTask te) (mWorkerNodes m) = []"
    using sch disk by (simp add: MarginalCost_Select_filter filter_empty_conv hasDiskRoom_def)
  obtain q' where nx: "nextPendingEvent M m = (Some te, m\<lparr>mPending := q'\<rparr>)" "contents q' = es"
    using manager_env.next_head [OF env q] by blast
  then have "SendWork M m w = Inr (m\<lparr>mPending := q'\<rparr>, w)"
    using none un by (simp add: SendWork_def SelectWorker_def pickWorker_def Let_def)
  with nx(2) show ?thesis by blast
qed

definition accepting :: "TaskEvent \<Rightarrow> (TaskEvent list, Task InMemory, TaskEvent InMemory, script) menv" where
  "accepting te = mem_menv (sample_codec zero_Task)\<lparr>me_decode_TaskEvent := \<lambda>s. Inr te\<rparr>"

lemma accepting_env: "manager_env (accepting te) InMemory_held InMemory_ok inner"
  using mem_menv_env [of "sample_codec zero_Task"] by (simp add: manager_env_def accepting_def)

theorem disk_request_is_dropped_witness:
  "let te = sample_event (zero_Task\<lparr>tDisk := 1\<rparr>); M = accepting te in
   \<exists>m q. NewManager M [\<lparr>wmName = ''a'', wmAddress = ''h''\<rparr>] ''marginal-cost'' ''memory''
       (Inr (NewInMemory, NewInMemory)) = Inr m \<and>
     SendWork M (Manager_AddTask M te m) [] = Inr (Manager_AddTask M te m\<lparr>mPending := q\<rparr>, []) \<and> inner q = []"
proof -
  let ?te = "sample_event (zero_Task\<lparr>tDisk := 1\<rparr>)"
  let ?M = "accepting ?te" and ?ws = "[\<lparr>wmName = ''a'', wmAddress = ''h''\<rparr>]"
  obtain m where new: "NewManager ?M ?ws ''marginal-cost'' ''memory'' (Inr (NewInMemory, NewInMemory)) = Inr m"
    by (simp add: NewManager_def GetScheduler_def MarginalCost_name_def Let_def)
  let ?m1 = "Manager_AddTask ?M ?te m"
  have "Manager_StartTaskHandler ?M ''{}'' m = (WriteJSON StatusCreated (PayloadBody (EventPayload ?te)), ?m1)"
    by (simp add: Manager_StartTaskHandler_def accepting_def)
  then have run: "manager_run ?M (m, []) (?m1, [])"
    by (blast intro: run_step [OF run_refl] step_start)
  have m: "m = \<lparr>mPending = \<lparr>inner = []\<rparr>, mTaskDb = NewInMemory, mEventDb = NewInMemory,
      mWorkerTaskMap = [''a'' \<mapsto> []], mTaskWorkerMap = Map.empty,
      mWorkerNodes = [NewNode ''a'' ''h'' ''worker''], mScheduler = MarginalCostS \<lparr>mcName = MarginalCost_name\<rparr>\<rparr>"
    using new by (simp add: NewManager_def GetScheduler_def MarginalCost_name_def Let_def accepting_def
        mem_menv_def New_def list_collq_def)
  have "\<exists>q. SendWork ?M ?m1 [] = Inr (?m1\<lparr>mPending := q\<rparr>, []) \<and> inner q = []"
    by (rule disk_request_is_dropped [OF accepting_env new _ _ run, of ?te])
      (simp_all add: m accepting_def manager_defs NewInMemory_def)
  with new show ?thesis unfolding Let_def by blast
qed

end
