(* ===== verification/Orch_Manager_Interleaving.thy ===== *)
theory Orch_Manager_Interleaving
  imports Orch_Manager_Send
begin

text \<open>
  The manager's goroutines interleaved at the granularity of its critical sections: each
  step is one call of a helper of \<open>state.go\<close>, which holds the mutex, or one request outside
  it, whose outcome is arbitrary. The scheduling loop and the health check loop are threads
  with a program counter; API requests and worker reports can happen at any moment.
\<close>

section \<open>Threads\<close>

text \<open>
  Where \<open>SendWork\<close> stands. \<open>s_not_stopped\<close> below stands for every way in which a stop
  fails: no address, no request, no connection, or an answer other than 204.
\<close>

text \<open>Program counters of \<open>SendWork\<close>.\<close>

datatype send_pc =
    SIdle
  | SGot TaskEvent
  | SPlace TaskEvent
  | SChosen TaskEvent Node
  | SSending TaskEvent Node
  | SRollback TaskEvent string
  | SRequeue TaskEvent
  | SRecord Task
  | SStopping string UUID
  | SRetire string UUID

text \<open>Where \<open>doHealthChecks\<close> stands, with the tasks of its snapshot still to do.\<close>

datatype health_pc =
    HPass "Task list"
  | HRestart Task "Task list"
  | HRouted Task string "Task list"
  | HSend Task string "Task list"

type_synonym ('q, 's, 'e) conc = "('q, 's, 'e) Manager \<times> send_pc \<times> health_pc"

text \<open>
  The steps of the two loops. The answer to a request is any that the network can give in some
  state of the world.
\<close>

inductive thread_step ::
  "('q, 's, 'e, 'w) menv \<Rightarrow> ('q, 's, 'e) conc \<Rightarrow> ('q, 's, 'e) conc \<Rightarrow> bool"
  for M :: "('q, 's, 'e, 'w) menv" where
  ts_none: "nextPendingEvent M m = (None, m') \<Longrightarrow> thread_step M (m, SIdle, h) (m', SIdle, h)"
| ts_next: "nextPendingEvent M m = (Some te, m') \<Longrightarrow> thread_step M (m, SIdle, h) (m', SGot te, h)"
| ts_stop: "assignmentFor M (tID (teTask te)) m = Some (wn, p) \<Longrightarrow> tState (teTask te) = Completed \<Longrightarrow>
    IsValidTransition NewStateMachine (tState p) (tState (teTask te)) \<Longrightarrow>
    thread_step M (m, SGot te, h) (m, SStopping wn (tID (teTask te)), h)"
| ts_ignore: "assignmentFor M (tID (teTask te)) m = Some (wn, p) \<Longrightarrow>
    \<not> (tState (teTask te) = Completed \<and> IsValidTransition NewStateMachine (tState p) (tState (teTask te))) \<Longrightarrow>
    thread_step M (m, SGot te, h) (m, SIdle, h)"
| ts_unassigned: "assignmentFor M (tID (teTask te)) m = None \<Longrightarrow> thread_step M (m, SGot te, h) (m, SPlace te, h)"
| ts_unplaced: "SelectWorker M (teTask te) m w = Inr (Inl e, m', w') \<Longrightarrow> thread_step M (m, SPlace te, h) (m', SIdle, h)"
| ts_choose: "SelectWorker M (teTask te) m w = Inr (Inr n, m', w') \<Longrightarrow>
    thread_step M (m, SPlace te, h) (m', SChosen te n, h)"
| ts_assign: "thread_step M (m, SChosen te n, h) (assignTask M (nName n) te m, SSending te n, h)"
| ts_unreachable: "postTaskEvent M ''manager.SendWork'' (nName n) (nAPI n) te w = (Inl e, w') \<Longrightarrow>
    errors_Is e errWorkerUnreachable \<Longrightarrow> thread_step M (m, SSending te n, h) (m, SRollback te (nName n), h)"
| ts_rejected: "postTaskEvent M ''manager.SendWork'' (nName n) (nAPI n) te w = (Inl e, w') \<Longrightarrow>
    \<not> errors_Is e errWorkerUnreachable \<Longrightarrow> thread_step M (m, SSending te n, h) (m, SIdle, h)"
| ts_accepted: "postTaskEvent M ''manager.SendWork'' (nName n) (nAPI n) te w = (Inr t, w') \<Longrightarrow>
    thread_step M (m, SSending te n, h) (m, SRecord t, h)"
| ts_rollback: "thread_step M (m, SRollback te wn, h) (unassignTask wn (tID (teTask te)) m, SRequeue te, h)"
| ts_requeue: "thread_step M (m, SRequeue te, h) (enqueueEvent M te m, SIdle, h)"
| ts_record: "thread_step M (m, SRecord t, h) (snd (Manager_putTask M t m), SIdle, h)"
| ts_not_stopped: "thread_step M (m, SStopping wn i, h) (m, SIdle, h)"
| ts_stopped: "requireWorkerAddress ''manager.stopTask'' wn m = Inr a \<Longrightarrow>
    me_Do_Delete M (WorkerTasksURL a @ ''/'' @ me_uuid_String M i) w = (Inr resp, w') \<Longrightarrow>
    StatusCode resp = StatusNoContent \<Longrightarrow> thread_step M (m, SStopping wn i, h) (m, SRetire wn i, h)"
| ts_retire: "thread_step M (m, SRetire wn i, h) (retireTask M wn i m, SIdle, h)"
| th_start: "Manager_GetTasks M m = Inr ts \<Longrightarrow> thread_step M (m, s, HPass []) (m, s, HPass ts)"
| th_skip: "decideHealthAction t \<in> {healthSkipNotEligible, healthSkipRestartMax} \<Longrightarrow>
    thread_step M (m, s, HPass (t # ts)) (m, s, HPass ts)"
| th_healthy: "decideHealthAction t = healthActionCheck \<Longrightarrow> checkTaskHealth M t m w = Inr (None, w') \<Longrightarrow>
    thread_step M (m, s, HPass (t # ts)) (m, s, HPass ts)"
| th_unhealthy: "decideHealthAction t = healthActionCheck \<Longrightarrow> checkTaskHealth M t m w = Inr (Some e, w') \<Longrightarrow>
    thread_step M (m, s, HPass (t # ts)) (m, s, HRestart t ts)"
| th_failed: "decideHealthAction t = healthActionRestart \<Longrightarrow>
    thread_step M (m, s, HPass (t # ts)) (m, s, HRestart t ts)"
| th_unrouted: "workerForTask (tID t) m = None \<Longrightarrow> thread_step M (m, s, HRestart t ts) (m, s, HPass ts)"
| th_routed: "workerForTask (tID t) m = Some wn \<Longrightarrow> thread_step M (m, s, HRestart t ts) (m, s, HRouted t wn ts)"
| th_no_address: "requireWorkerAddress ''manager.restartTask'' wn m = Inl e \<Longrightarrow>
    thread_step M (m, s, HRouted t wn ts) (m, s, HPass ts)"
| th_no_begin: "requireWorkerAddress ''manager.restartTask'' wn m = Inr a \<Longrightarrow>
    beginRestart M (tID t) m = (None, m') \<Longrightarrow> thread_step M (m, s, HRouted t wn ts) (m', s, HPass ts)"
| th_begin: "requireWorkerAddress ''manager.restartTask'' wn m = Inr a \<Longrightarrow>
    beginRestart M (tID t) m = (Some t', m') \<Longrightarrow>
    thread_step M (m, s, HRouted t wn ts) (m', s, HSend t' wn ts)"
| th_sent: "thread_step M (m, s, HSend t' wn ts) (m, s, HPass ts)"
| th_requeue: "teTask te = t' \<Longrightarrow> thread_step M (m, s, HSend t' wn ts) (enqueueEvent M te m, s, HPass ts)"

text \<open>With the API and the worker reports of the update fan-out, which come at any moment.\<close>

inductive conc_step ::
  "('q, 's, 'e, 'w) menv \<Rightarrow> ('q, 's, 'e) conc \<Rightarrow> ('q, 's, 'e) conc \<Rightarrow> bool"
  for M :: "('q, 's, 'e, 'w) menv" where
  c_add: "conc_step M (m, s, h) (Manager_AddTask M te m, s, h)"
| c_report: "conc_step M (m, s, h) (snd (applyWorkerReport M r m), s, h)"
| c_thread: "thread_step M c c' \<Longrightarrow> conc_step M c c'"

lemmas s_none = ts_none [THEN c_thread]
lemmas s_next = ts_next [THEN c_thread]
lemmas s_stop = ts_stop [THEN c_thread]
lemmas s_ignore = ts_ignore [THEN c_thread]
lemmas s_unassigned = ts_unassigned [THEN c_thread]
lemmas s_unplaced = ts_unplaced [THEN c_thread]
lemmas s_choose = ts_choose [THEN c_thread]
lemmas s_assign = ts_assign [THEN c_thread]
lemmas s_unreachable = ts_unreachable [THEN c_thread]
lemmas s_rejected = ts_rejected [THEN c_thread]
lemmas s_accepted = ts_accepted [THEN c_thread]
lemmas s_rollback = ts_rollback [THEN c_thread]
lemmas s_requeue = ts_requeue [THEN c_thread]
lemmas s_record = ts_record [THEN c_thread]
lemmas s_not_stopped = ts_not_stopped [THEN c_thread]
lemmas s_stopped = ts_stopped [THEN c_thread]
lemmas s_retire = ts_retire [THEN c_thread]
lemmas h_start = th_start [THEN c_thread]
lemmas h_skip = th_skip [THEN c_thread]
lemmas h_healthy = th_healthy [THEN c_thread]
lemmas h_unhealthy = th_unhealthy [THEN c_thread]
lemmas h_failed = th_failed [THEN c_thread]
lemmas h_unrouted = th_unrouted [THEN c_thread]
lemmas h_routed = th_routed [THEN c_thread]
lemmas h_no_address = th_no_address [THEN c_thread]
lemmas h_no_begin = th_no_begin [THEN c_thread]
lemmas h_begin = th_begin [THEN c_thread]
lemmas h_sent = th_sent [THEN c_thread]
lemmas h_requeue = th_requeue [THEN c_thread]

inductive conc_run ::
  "('q, 's, 'e, 'w) menv \<Rightarrow> ('q, 's, 'e) conc \<Rightarrow> ('q, 's, 'e) conc \<Rightarrow> bool"
  for M :: "('q, 's, 'e, 'w) menv" where
  conc_refl: "conc_run M c c"
| conc_snoc: "conc_run M c c1 \<Longrightarrow> conc_step M c1 c2 \<Longrightarrow> conc_run M c c2"

section \<open>The invariant\<close>

text \<open>A chosen node is one of the configured ones.\<close>

fun pc_ok :: "Node list \<Rightarrow> send_pc \<Rightarrow> bool" where
  "pc_ok nodes (SChosen te n) = (n \<in> set nodes)"
| "pc_ok nodes _ = True"

definition conc_ok ::
  "('s \<Rightarrow> string \<rightharpoonup> Task) \<Rightarrow> ('s \<Rightarrow> bool) \<Rightarrow> ('q, 's, 'e, 'w) menv \<Rightarrow> Node list \<Rightarrow> ('q, 's, 'e) conc \<Rightarrow> bool" where
  "conc_ok held ok M nodes c \<longleftrightarrow> (case c of (m, s, h) \<Rightarrow>
     keyed_tasks held ok M m \<and> routing_ok m \<and> mWorkerNodes m = nodes \<and> pc_ok nodes s)"

context manager_env
begin

text \<open>A helper that changes only the queue, the stores or the scheduler.\<close>

lemma conc_okI:
  assumes "conc_ok held ok M nodes (m, s, h)" and "keyed_tasks held ok M m'" and "pc_ok nodes s'"
    and "mWorkerTaskMap m' = mWorkerTaskMap m" and "mTaskWorkerMap m' = mTaskWorkerMap m"
    and "mWorkerNodes m' = mWorkerNodes m"
  shows "conc_ok held ok M nodes (m', s', h')"
  using assms routing_ok_cong [of m' m] by (simp add: conc_ok_def)

lemma conc_ok_frame:
  assumes "conc_ok held ok M nodes (m, s, h)" and "mTaskDb m' = mTaskDb m" and "pc_ok nodes s'"
    and "mWorkerTaskMap m' = mWorkerTaskMap m" and "mTaskWorkerMap m' = mTaskWorkerMap m"
    and "mWorkerNodes m' = mWorkerNodes m"
  shows "conc_ok held ok M nodes (m', s', h')"
  using assms keyed_cong [of m' m] by (intro conc_okI [OF assms(1)]) (simp_all add: conc_ok_def)

lemma thread_step_keeps:
  assumes "thread_step M c c'" and "conc_ok held ok M nodes c"
  shows "conc_ok held ok M nodes c'"
  using assms
proof (induction rule: thread_step.induct)
  case (ts_none m m' h)
  then show ?case using nextPendingEvent_frame [OF ts_none(1)] by (intro conc_ok_frame [OF ts_none(2)]) simp_all
next
  case (ts_next m te m' h)
  then show ?case using nextPendingEvent_frame [OF ts_next(1)] by (intro conc_ok_frame [OF ts_next(2)]) simp_all
next
  case (ts_unplaced te m w e m' w' h)
  then show ?case
    using SelectWorker_outcome(1) [OF ts_unplaced(1)] by (intro conc_ok_frame [OF ts_unplaced(2)]) auto
next
  case (ts_choose te m w n m' w' h)
  have "n \<in> set nodes" using SelectWorker_outcome(2) [OF ts_choose(1)] ts_choose(2) by (auto simp: conc_ok_def)
  then show ?case
    using SelectWorker_outcome(1) [OF ts_choose(1)] by (intro conc_ok_frame [OF ts_choose(2)]) auto
next
  case (ts_assign m te n h)
  then have "nName n \<in> nName ` set (mWorkerNodes m)" by (auto simp: conc_ok_def)
  then show ?case
    using ts_assign assignTask_routing [of m "nName n" M te] keyed_cong [of "assignTask M (nName n) te m" m] by (simp add: conc_ok_def)
next
  case (ts_rollback m te wn h)
  then show ?case
    using drop_route_routing [of m wn "tID (teTask te)"] keyed_cong [of "drop_route wn (tID (teTask te)) m" m]
    by (simp add: conc_ok_def unassignTask_def)
next
  case (ts_requeue m te h)
  then show ?case by (intro conc_ok_frame [OF ts_requeue]) simp_all
next
  case (ts_record m t h)
  have "keyed_tasks held ok M (snd (Manager_putTask M t m))"
    using ts_record by (intro Manager_putTask_keyed) (simp add: conc_ok_def)
  then show ?case using Manager_putTask_fields [of M t m] by (intro conc_okI [OF ts_record]) auto
next
  case (ts_retire m wn i h)
  then show ?case using retireTask_effect [of m wn i] by (simp add: conc_ok_def)
next
  case (th_no_begin wn m a t m' s ts)
  have k: "keyed_tasks held ok M m" using th_no_begin(3) by (simp add: conc_ok_def)
  show ?case using beginRestart_effect(1,2) [OF k th_no_begin(2)] th_no_begin(3)
    by (intro conc_okI [OF th_no_begin(3)]) (auto simp: conc_ok_def)
next
  case (th_begin wn m a t t' m' s ts)
  have k: "keyed_tasks held ok M m" using th_begin(3) by (simp add: conc_ok_def)
  show ?case using beginRestart_effect(1,2) [OF k th_begin(2)] th_begin(3)
    by (intro conc_okI [OF th_begin(3)]) (auto simp: conc_ok_def)
next
  case (th_requeue te t' m s wn ts)
  then show ?case by (intro conc_ok_frame [OF th_requeue(2)]) (simp_all add: conc_ok_def)
qed (simp_all add: conc_ok_def)

lemma conc_step_keeps:
  assumes "conc_step M c c'" and "conc_ok held ok M nodes c"
  shows "conc_ok held ok M nodes c'"
  using assms
proof (induction rule: conc_step.induct)
  case (c_add m s h te)
  then show ?case by (rule conc_ok_frame) (use c_add in \<open>simp_all add: Manager_AddTask_def conc_ok_def\<close>)
next
  case (c_report m s h r)
  have k: "keyed_tasks held ok M m" using c_report by (simp add: conc_ok_def)
  from applyWorkerReport_effect(1,2) [OF k, of r] show ?case
    using c_report by (intro conc_okI [OF c_report]) (auto simp: conc_ok_def)
qed (rule thread_step_keeps)

lemma conc_run_keeps:
  "conc_run M c c' \<Longrightarrow> conc_ok held ok M nodes c \<Longrightarrow> conc_ok held ok M nodes c'"
  by (induction rule: conc_run.induct) (blast intro: conc_step_keeps)+

end

section \<open>Properties\<close>

text \<open>
  C12. The routing maps agree under every interleaving: whenever the goroutines of the
  scheduling loop, the health check loop, the API and the update fan-out are suspended
  between two critical sections, every routed task is on the list of its worker, a
  configured one, and every record is under its own identifier.
\<close>

theorem interleaving_invariant:
  assumes env: "manager_env M held ok contents"
    and new: "NewManager M workers schedulerType dbType (Inr (taskDb, eventDb)) = Inr m0"
    and db: "ok taskDb" "\<forall>k t. held taskDb k = Some t \<longrightarrow> k = me_uuid_String M (tID t)"
    and run: "conc_run M (m0, SIdle, HPass []) (m, s, h)"
  shows "keyed_tasks held ok M m \<and>
    (\<forall>i wn. mTaskWorkerMap m i = Some wn \<longrightarrow>
       wn \<in> wmName ` set workers \<and> (\<exists>ts. mWorkerTaskMap m wn = Some ts \<and> i \<in> set ts))"
proof -
  note N = manager_env.NewManager_keeps [OF env new db]
  have "conc_ok held ok M (mWorkerNodes m0) (m, s, h)"
    using N by (intro manager_env.conc_run_keeps [OF env run]) (simp add: conc_ok_def)
  then have c: "keyed_tasks held ok M m" "routing_ok m" "mWorkerNodes m = mWorkerNodes m0"
    by (simp_all add: conc_ok_def)
  have "nName ` set (mWorkerNodes m) = wmName ` set workers"
    using c(3) N(3) by (simp add: image_image NewNode_def)
  then have "wn \<in> wmName ` set workers" if "mWorkerTaskMap m wn = Some ts" for wn ts
    using routing_okD(1) [OF c(2)] that by blast
  then show ?thesis using c(1) routing_okD(2) [OF c(2)] by blast
qed

theorem interleaving_invariant_witness:
  "let te = sample_event (sample_task Scheduled 0); M = accepting te in
   \<exists>m0. NewManager M [\<lparr>wmName = ''a'', wmAddress = ''h''\<rparr>] ''round-robin'' ''memory''
       (Inr (NewInMemory, NewInMemory)) = Inr m0 \<and>
     keyed_tasks InMemory_held InMemory_ok M (Manager_AddTask M te m0)"
proof -
  let ?te = "sample_event (sample_task Scheduled 0)"
  let ?M = "accepting ?te"
  obtain m0 where new: "NewManager ?M [\<lparr>wmName = ''a'', wmAddress = ''h''\<rparr>] ''round-robin'' ''memory''
      (Inr (NewInMemory, NewInMemory)) = Inr m0"
    by (simp add: NewManager_def GetScheduler_def RoundRobin_name_def MarginalCost_name_def Let_def)
  have "conc_run ?M (m0, SIdle, HPass []) (Manager_AddTask ?M ?te m0, SIdle, HPass [])"
    by (rule conc_snoc [OF conc_refl c_add])
  from interleaving_invariant [OF accepting_env new _ _ this] new show ?thesis
    by (simp add: NewInMemory_def InMemory_defs Let_def)
qed

text \<open>
  C28. A stop and a restart race: the health check loop reads the route of a task before
  \<open>beginRestart\<close> takes the lock again, and \<open>beginRestart\<close> looks at no state. When the task
  is retired in between, it is \<open>Completed\<close> and without a route, and the pending restart puts
  it back to \<open>Scheduled\<close> and goes on to send it to the worker.
\<close>

theorem restart_undoes_stop:
  assumes env: "manager_env M held ok contents" and tot: "total_store (me_taskdb M) held ok"
    and k: "keyed_tasks held ok M m" and p: "known held M m (tID t) = Some p"
    and addr: "workerAddress wn m = Some a"
  shows "\<exists>m2 m3 t'. conc_step M (m, SRetire wn (tID t), HRouted t wn ts) (m2, SIdle, HRouted t wn ts) \<and>
    known held M m2 (tID t) = Some (p\<lparr>tState := Completed\<rparr>) \<and> mTaskWorkerMap m2 (tID t) = None \<and>
    conc_step M (m2, SIdle, HRouted t wn ts) (m3, SIdle, HSend t' wn ts) \<and>
    known held M m3 (tID t) = Some t' \<and> tState t' = Scheduled \<and> mTaskWorkerMap m3 (tID t) = None"
proof -
  let ?m2 = "retireTask M wn (tID t) m" and ?c = "p\<lparr>tState := Completed\<rparr>"
  have k2: "keyed_tasks held ok M ?m2" by (rule manager_env.retireTask_effect(1) [OF env k])
  have kn: "known held M ?m2 (tID t) = Some ?c"
    using manager_env.retireTask_total [OF env tot k p] by simp
  obtain s where b: "beginRestart M (tID t) ?m2 = (Some (restarted ?c), ?m2\<lparr>mTaskDb := s\<rparr>)"
    "known held M (?m2\<lparr>mTaskDb := s\<rparr>) = (known held M ?m2)(tID t \<mapsto> restarted ?c)"
    using manager_env.beginRestart_total [OF env tot k2 kn] by blast
  have "requireWorkerAddress ''manager.restartTask'' wn ?m2 = Inr a"
    using addr manager_env.retireTask_effect(5) [OF env k, of wn "tID t"]
    by (simp add: requireWorkerAddress_def workerAddress_def)
  note st = h_begin [OF this b(1), of SIdle ts] s_retire [of M m wn "tID t" "HRouted t wn ts"]
  have "mTaskWorkerMap ?m2 (tID t) = None" using manager_env.retireTask_effect(4) [OF env k] by simp
  with st kn b(2) have "conc_step M (m, SRetire wn (tID t), HRouted t wn ts) (?m2, SIdle, HRouted t wn ts) \<and>
    known held M ?m2 (tID t) = Some ?c \<and> mTaskWorkerMap ?m2 (tID t) = None \<and>
    conc_step M (?m2, SIdle, HRouted t wn ts) (?m2\<lparr>mTaskDb := s\<rparr>, SIdle, HSend (restarted ?c) wn ts) \<and>
    known held M (?m2\<lparr>mTaskDb := s\<rparr>) (tID t) = Some (restarted ?c) \<and> tState (restarted ?c) = Scheduled \<and>
    mTaskWorkerMap (?m2\<lparr>mTaskDb := s\<rparr>) (tID t) = None"
    by (simp add: restarted_def)
  then show ?thesis by blast
qed

text \<open>The race is reached from a manager with one running task and a pending stop.\<close>

theorem restart_undoes_stop_witness:
  "let M = mem_menv (sample_codec zero_Task); t = sample_task Running 0; te = sample_event (sample_task Completed 0);
       m0 = manager_with rr0 [node_a] [t] [te] [(1, ''a'')]
   in \<exists>m m2 m3 t'. conc_run M (m0, SIdle, HPass []) (m, SRetire ''a'' 1, HRouted t ''a'' []) \<and>
      conc_step M (m, SRetire ''a'' 1, HRouted t ''a'' []) (m2, SIdle, HRouted t ''a'' []) \<and>
      conc_step M (m2, SIdle, HRouted t ''a'' []) (m3, SIdle, HSend t' ''a'' []) \<and>
      known InMemory_held M m3 1 = Some t' \<and> tState t' = Scheduled"
proof -
  let ?M = "mem_menv (sample_codec zero_Task)" and ?t = "sample_task Running 0"
  let ?te = "sample_event (sample_task Completed 0)"
  let ?ms = "manager_with rr0 [node_a] [?t] [?te] [(1, ''a'')]" and ?m = "manager_with rr0 [node_a] [?t] [] [(1, ''a'')]"
  have "Manager_GetTasks ?M ?ms = Inr [?t]" by (simp add: manager_defs)
  note r1 = conc_snoc [OF conc_refl h_start [OF this, of SIdle]]
  obtain e where "checkTaskHealth ?M ?t ?ms [] = Inr (Some e, [])"
    by (simp add: manager_defs sample_task_def zero_Task_def)
  then have r2: "conc_run ?M (?ms, SIdle, HPass []) (?ms, SIdle, HRestart ?t [])"
    using conc_snoc [OF r1 h_unhealthy] by (simp add: decideHealthAction_def TaskRestartMax_def)
  have r3: "conc_run ?M (?ms, SIdle, HPass []) (?ms, SIdle, HRouted ?t ''a'' [])"
    by (rule conc_snoc [OF r2 h_routed]) (simp add: manager_defs)
  have "nextPendingEvent ?M ?ms = (Some ?te, ?m)" by (simp only: manager_defs) simp
  note r4 = conc_snoc [OF r3 s_next [OF this]]
  have "conc_step ?M (?m, SGot ?te, HRouted ?t ''a'' []) (?m, SStopping ''a'' (tID (teTask ?te)), HRouted ?t ''a'' [])"
    by (rule s_stop [where p = ?t]) (simp_all add: manager_defs)
  then have r5: "conc_run ?M (?ms, SIdle, HPass []) (?m, SStopping ''a'' 1, HRouted ?t ''a'' [])"
    using conc_snoc [OF r4] by simp
  have "conc_step ?M (?m, SStopping ''a'' 1, HRouted ?t ''a'' []) (?m, SRetire ''a'' 1, HRouted ?t ''a'' [])"
    by (rule s_stopped [where a = "''h''" and w = "[Inr \<lparr>StatusCode = 204, Body = ''''\<rparr>]"
          and resp = "\<lparr>StatusCode = 204, Body = ''''\<rparr>" and w' = "[]"])
      (simp_all add: manager_defs status_defs)
  note r6 = conc_snoc [OF r5 this]
  have k: "keyed_tasks InMemory_held InMemory_ok ?M ?m" by (rule manager_with_keyed) simp
  have "known InMemory_held ?M ?m (tID ?t) = Some ?t" "workerAddress ''a'' ?m = Some ''h''" by (simp_all add: manager_defs)
  from restart_undoes_stop [OF mem_menv_env mem_menv_total k this, of "[]"] r6 show ?thesis
    unfolding Let_def by (simp del: conc_step.simps) blast
qed

end
