(* ===== verification/Orch_Manager_Loops.thy ===== *)
theory Orch_Manager_Loops
  imports Orch_Manager_Interleaving "HOL-Library.Sublist"
begin

text \<open>
  The three background loops of \<open>manager.go\<close> and what they make of the queue of pending
  events. A loop is a \<open>for\<close> around a \<open>select\<close> between the channel \<open>done\<close> and a timer; how
  each \<open>select\<close> comes out is an argument, a list of \<open>select_case\<close>. At the end of the list the
  goroutine is still waiting.

  Two facts follow: every run of whole operations is an interleaving of critical sections
  (so what holds of the interleavings of \<open>Orch_Manager_Interleaving\<close> holds of the sequential
  runs of \<open>Orch_Manager_Runs\<close>), and the scheduling loop starves no event.
\<close>

section \<open>Loops\<close>

datatype select_case = Closed | Elapsed

fun ProcessTasks ::
  "('q, 's, 'e, 'w) menv \<Rightarrow> select_case list \<Rightarrow> ('q, 's, 'e) Manager \<Rightarrow> 'w \<Rightarrow> panic + ('q, 's, 'e) Manager \<times> 'w" where
  "ProcessTasks M [] m w = Inr (m, w)"
| "ProcessTasks M (Closed # cs) m w = Inr (m, w)"
| "ProcessTasks M (Elapsed # cs) m w =
     (case SendWork M m w of
        Inl p \<Rightarrow> Inl p
      | Inr (m1, w1) \<Rightarrow> ProcessTasks M cs m1 w1)"

fun Manager_UpdateTasks ::
  "('q, 's, 'e, 'w) menv \<Rightarrow> select_case list \<Rightarrow> ('q, 's, 'e) Manager \<Rightarrow> 'w \<Rightarrow> ('q, 's, 'e) Manager \<times> 'w" where
  "Manager_UpdateTasks M [] m w = (m, w)"
| "Manager_UpdateTasks M (Closed # cs) m w = (m, w)"
| "Manager_UpdateTasks M (Elapsed # cs) m w =
     (let (m1, w1) = Manager_updateTasks M m w in Manager_UpdateTasks M cs m1 w1)"

fun DoHealthChecks_loop ::
  "('q, 's, 'e, 'w) menv \<Rightarrow> select_case list \<Rightarrow> ('q, 's, 'e) Manager \<Rightarrow> 'w \<Rightarrow> panic + ('q, 's, 'e) Manager \<times> 'w" where
  "DoHealthChecks_loop M [] m w = Inr (m, w)"
| "DoHealthChecks_loop M (Closed # cs) m w = Inr (m, w)"
| "DoHealthChecks_loop M (Elapsed # cs) m w =
     (case doHealthChecks M m w of
        Inl p \<Rightarrow> Inl p
      | Inr (m1, w1) \<Rightarrow> DoHealthChecks_loop M cs m1 w1)"

text \<open>
  The first pass does not wait: a \<open>select\<close> with a \<open>default\<close> skips it when \<open>done\<close> is already
  closed, which \<open>isClosed\<close> says.
\<close>

definition DoHealthChecks ::
  "('q, 's, 'e, 'w) menv \<Rightarrow> bool \<Rightarrow> select_case list \<Rightarrow> ('q, 's, 'e) Manager \<Rightarrow> 'w \<Rightarrow> panic + ('q, 's, 'e) Manager \<times> 'w" where
  "DoHealthChecks M isClosed cs m w =
     (if isClosed then DoHealthChecks_loop M cs m w
      else
        (case doHealthChecks M m w of
           Inl p \<Rightarrow> Inl p
         | Inr (m1, w1) \<Rightarrow> DoHealthChecks_loop M cs m1 w1))"

section \<open>Operations as interleavings\<close>

lemma conc_step_run: "conc_step M c c' \<Longrightarrow> conc_run M c c'"
  by (rule conc_snoc [OF conc_refl])

lemma conc_trans: "conc_run M c1 c2 \<Longrightarrow> conc_run M c c1 \<Longrightarrow> conc_run M c c2"
  by (induction rule: conc_run.induct) (auto intro: conc_snoc)

lemma conc_cons: "conc_step M c c1 \<Longrightarrow> conc_run M c1 c2 \<Longrightarrow> conc_run M c c2"
  by (rule conc_trans [OF _ conc_step_run])

text \<open>Runs of the two loops alone.\<close>

abbreviation loops_run :: "('q, 's, 'e, 'w) menv \<Rightarrow> ('q, 's, 'e) conc \<Rightarrow> ('q, 's, 'e) conc \<Rightarrow> bool" where
  "loops_run M \<equiv> rtranclp (thread_step M)"

lemmas loops_refl = rtranclp.rtrancl_refl [where r = "thread_step M" for M]
lemmas loops_step = r_into_rtranclp [where r = "thread_step M" for M]
lemmas loops_cons = converse_rtranclp_into_rtranclp [where r = "thread_step M" for M]
lemmas loops_snoc = rtranclp.rtrancl_into_rtrancl [where r = "thread_step M" for M]

lemma loops_trans: "loops_run M c1 c2 \<Longrightarrow> loops_run M c c1 \<Longrightarrow> loops_run M c c2"
  by (rule rtranclp_trans)

lemma loops_conc: "loops_run M c c' \<Longrightarrow> conc_run M c c'"
  by (induction rule: rtranclp_induct) (auto intro: conc_refl conc_snoc c_thread)

lemma stopTask_loops:
  assumes "Manager_stopTask M wn i m w = (m', w')"
  shows "loops_run M (m, SStopping wn i, h) (m', SIdle, h)"
proof -
  have quit: "loops_run M (m, SStopping wn i, h) (m, SIdle, h)"
    by (rule loops_step [OF ts_not_stopped])
  have "m' = m \<or> (\<exists>a resp w1. requireWorkerAddress ''manager.stopTask'' wn m = Inr a \<and>
      me_Do_Delete M (WorkerTasksURL a @ ''/'' @ me_uuid_String M i) w = (Inr resp, w1) \<and>
      StatusCode resp = StatusNoContent \<and> m' = retireTask M wn i m)"
    using assms by (auto simp: Manager_stopTask_def Let_def split: sum.splits option.splits prod.splits if_splits)
  then show ?thesis
  proof (elim disjE exE conjE)
    fix a resp w1
    assume *: "requireWorkerAddress ''manager.stopTask'' wn m = Inr a"
      "me_Do_Delete M (WorkerTasksURL a @ ''/'' @ me_uuid_String M i) w = (Inr resp, w1)"
      "StatusCode resp = StatusNoContent" "m' = retireTask M wn i m"
    have "loops_run M (m, SRetire wn i, h) (m', SIdle, h)" unfolding *(4) by (rule loops_step [OF ts_retire])
    then show ?thesis by (rule loops_cons [OF ts_stopped [OF *(1-3)]])
  qed (use quit in simp)
qed

lemma finish_send_loops:
  assumes "postTaskEvent M ''manager.SendWork'' (nName n) (nAPI n) te w = (r, w')"
  shows "loops_run M (m, SSending te n, h) (finish_send M te (nName n) r m, SIdle, h)"
proof (cases r)
  case (Inl e)
  show ?thesis
  proof (cases "errors_Is e errWorkerUnreachable")
    case True
    have "finish_send M te (nName n) r m = enqueueEvent M te (unassignTask (nName n) (tID (teTask te)) m)"
      using Inl True by (simp add: finish_send_def)
    moreover have "loops_run M (m, SSending te n, h) (m, SRollback te (nName n), h)"
      using assms Inl True by (intro loops_step ts_unreachable) auto
    ultimately show ?thesis using loops_snoc [OF loops_snoc [OF _ ts_rollback] ts_requeue] by simp
  next
    case False
    then show ?thesis using assms Inl loops_step [OF ts_rejected] by (simp add: finish_send_def)
  qed
next
  case (Inr t)
  then have "loops_run M (m, SSending te n, h) (m, SRecord t, h)"
    using assms by (intro loops_step ts_accepted) auto
  with Inr show ?thesis using loops_snoc [OF _ ts_record] by (simp add: finish_send_def)
qed

lemma SendWork_sending:
  assumes "nextPendingEvent M m = (Some te, m0)" and "assignmentFor M (tID (teTask te)) m0 = None"
    and "SelectWorker M (teTask te) m0 w = Inr (Inr n, m1, w1)"
  shows "loops_run M (m, SIdle, h) (assignTask M (nName n) te m1, SSending te n, h)"
  by (rule loops_cons [OF ts_next [OF assms(1)] loops_cons [OF ts_unassigned [OF assms(2)]
        loops_cons [OF ts_choose [OF assms(3)] loops_step [OF ts_assign]]]])

lemma SendWork_loops:
  assumes "SendWork M m w = Inr (m', w')"
  shows "loops_run M (m, SIdle, h) (m', SIdle, h)"
  using assms
proof (cases rule: SendWork_cases)
  case idle
  then show ?thesis by (intro loops_step ts_none)
next
  case (stop te m0 wn p)
  have "thread_step M (m0, SGot te, h) (m0, SStopping wn (tID (teTask te)), h)"
    using stop by (intro ts_stop [OF stop(2)]) simp_all
  then show ?thesis using stopTask_loops [OF stop(5)] by (blast intro: loops_cons ts_next [OF stop(1)])
next
  case (ignored te wn p)
  have "thread_step M (m', SGot te, h) (m', SIdle, h)"
    using ignored by (intro ts_ignore [OF ignored(2)]) auto
  then show ?thesis by (blast intro: loops_cons loops_step ts_next [OF ignored(1)])
next
  case (unplaced te m0 e)
  then show ?thesis by (blast intro: loops_cons loops_step ts_next ts_unassigned ts_unplaced)
next
  case (sent te m0 n m1 w1 r)
  have "loops_run M (assignTask M (nName n) te m1, SSending te n, h) (m', SIdle, h)"
    unfolding sent(5) by (rule finish_send_loops [OF sent(4)])
  then show ?thesis by (rule loops_trans [OF _ SendWork_sending [OF sent(1-3)]])
qed

lemma restart_sending:
  assumes "workerForTask (tID t) m = Some wn" and "requireWorkerAddress ''manager.restartTask'' wn m = Inr a"
    and "beginRestart M (tID t) m = (Some t', m1)"
  shows "loops_run M (m, s, HRestart t ts) (m1, s, HSend t' wn ts)"
  by (rule loops_cons [OF th_routed [OF assms(1)] loops_step [OF th_begin [OF assms(2,3)]]])

lemma restart_sent:
  "m' = m \<or> (\<exists>te. teTask te = t \<and> m' = enqueueEvent M te m) \<Longrightarrow> loops_run M (m, s, HSend t wn ts) (m', s, HPass ts)"
  by (auto intro: loops_step th_sent th_requeue)

lemma restartTask_quits:
  assumes "restartTask M t m w = (m', w')"
    and "\<not> (\<exists>wn a t' m1. workerForTask (tID t) m = Some wn \<and> requireWorkerAddress ''manager.restartTask'' wn m = Inr a \<and>
      beginRestart M (tID t) m = (Some t', m1))"
  shows "loops_run M (m, s, HRestart t ts) (m', s, HPass ts) \<and> w' = w"
proof (cases "workerForTask (tID t) m")
  case None
  then show ?thesis using assms(1) by (auto simp: restartTask_def intro: loops_step th_unrouted)
next
  case (Some wn)
  show ?thesis
  proof (cases "requireWorkerAddress ''manager.restartTask'' wn m")
    case (Inl e)
    then show ?thesis
      using assms(1) Some loops_cons [OF th_routed [OF Some] loops_step [OF th_no_address [OF Inl]]]
      by (simp add: restartTask_def)
  next
    case (Inr a)
    then obtain m1 where b: "beginRestart M (tID t) m = (None, m1)"
      using assms(2) Some by (cases "beginRestart M (tID t) m"; cases "fst (beginRestart M (tID t) m)") auto
    then show ?thesis
      using assms(1) Some Inr loops_cons [OF th_routed [OF Some] loops_step [OF th_no_begin [OF Inr b]]]
      by (simp add: restartTask_def)
  qed
qed

text \<open>The send of a restart, and what comes of it.\<close>

lemma restartTask_sends:
  assumes "restartTask M t m w = (m', w')"
    and "workerForTask (tID t) m = Some wn" and "requireWorkerAddress ''manager.restartTask'' wn m = Inr a"
    and "beginRestart M (tID t) m = (Some t', m1)"
  shows "\<exists>te w1 r. restart_event M t' w = (te, w1) \<and> teTask te = t' \<and>
    postTaskEvent M ''manager.restartTask'' wn a te w1 = (r, w') \<and> (m' = m1 \<or> m' = enqueueEvent M te m1)"
proof -
  obtain te w1 where te: "restart_event M t' w = (te, w1)" by fastforce
  then have "teTask te = t'" by (auto simp: restart_event_def Let_def split: prod.splits)
  with te show ?thesis
    using assms by (auto simp: restartTask_def Let_def split: sum.splits prod.splits if_splits)
qed

lemma restartTask_loops:
  assumes "restartTask M t m w = (m', w')"
  shows "loops_run M (m, s, HRestart t ts) (m', s, HPass ts)"
proof (cases "\<exists>wn a t' m1. workerForTask (tID t) m = Some wn \<and> requireWorkerAddress ''manager.restartTask'' wn m = Inr a \<and>
    beginRestart M (tID t) m = (Some t', m1)")
  case True
  then obtain wn a t' m1 where *: "workerForTask (tID t) m = Some wn"
    "requireWorkerAddress ''manager.restartTask'' wn m = Inr a" "beginRestart M (tID t) m = (Some t', m1)" by blast
  have "m' = m1 \<or> (\<exists>te. teTask te = t' \<and> m' = enqueueEvent M te m1)" using restartTask_sends [OF assms *] by blast
  from restart_sent [OF this] show ?thesis by (rule loops_trans [OF _ restart_sending [OF *]])
qed (use restartTask_quits [OF assms] in blast)

lemma healthChecks_loop_loops:
  assumes "healthChecks_loop M ts m w = Inr (m', w')"
  shows "loops_run M (m, s, HPass ts) (m', s, HPass [])"
  using assms
proof (induction ts arbitrary: m w)
  case Nil
  then show ?case by (simp add: loops_refl)
next
  case (Cons t ts)
  have restart: ?case if "restartTask M t m v = (m1, w1)" "healthChecks_loop M ts m1 w1 = Inr (m', w')"
      "thread_step M (m, s, HPass (t # ts)) (m, s, HRestart t ts)" for v m1 w1
    by (rule loops_cons [OF that(3)], rule loops_trans [OF Cons.IH [OF that(2)] restartTask_loops [OF that(1)]])
  show ?case
  proof (cases "decideHealthAction t")
    case healthActionCheck
    then obtain r w1 where c: "checkTaskHealth M t m w = Inr (r, w1)"
      using Cons.prems by (auto split: sum.splits)
    show ?thesis
    proof (cases r)
      case None
      then have "healthChecks_loop M ts m w1 = Inr (m', w')" using Cons.prems healthActionCheck c by simp
      from Cons.IH [OF this] show ?thesis
        using None c by (blast intro: loops_cons th_healthy [OF healthActionCheck])
    next
      case (Some e)
      obtain m1 w2 where r: "restartTask M t m w1 = (m1, w2)" by fastforce
      have "healthChecks_loop M ts m1 w2 = Inr (m', w')" using Cons.prems healthActionCheck c Some r by simp
      then show ?thesis using c Some by (intro restart [OF r] th_unhealthy [OF healthActionCheck]) simp_all
    qed
  next
    case healthActionRestart
    obtain m1 w1 where r: "restartTask M t m w = (m1, w1)" by fastforce
    have "healthChecks_loop M ts m1 w1 = Inr (m', w')" using Cons.prems healthActionRestart r by simp
    then show ?thesis by (intro restart [OF r] th_failed [OF healthActionRestart])
  qed (use Cons in \<open>auto intro: loops_cons th_skip\<close>)
qed

lemma doHealthChecks_loops:
  assumes "doHealthChecks M m w = Inr (m', w')"
  shows "loops_run M (m, s, HPass []) (m', s, HPass [])"
proof (cases "Manager_GetTasks M m")
  case (Inl e)
  then show ?thesis using assms by (simp add: doHealthChecks_def loops_refl)
next
  case (Inr ts)
  then have "healthChecks_loop M ts m w = Inr (m', w')" using assms by (simp add: doHealthChecks_def)
  from healthChecks_loop_loops [OF this] show ?thesis by (rule loops_cons [OF th_start [OF Inr]])
qed

lemma apply_reports_conc: "conc_run M (m, s, h) (apply_reports M ts m, s, h)"
  by (induction ts arbitrary: m) (auto intro: conc_refl conc_cons c_report)

lemma update_goroutines_conc:
  "update_goroutines M js m w = (m', w') \<Longrightarrow> conc_run M (m, s, h) (m', s, h)"
proof (induction js arbitrary: m w)
  case (Cons i js)
  obtain m1 w1 where u: "updateTasksFromWorker M (nName (mWorkerNodes m ! i)) m w = (m1, w1)" by fastforce
  then have "conc_run M (m, s, h) (m1, s, h)"
    by (auto simp: updateTasksFromWorker_def split: option.splits sum.splits prod.splits if_splits
        intro: conc_refl apply_reports_conc)
  moreover have "conc_run M (m1, s, h) (m', s, h)" using Cons u by simp
  ultimately show ?case by (blast intro: conc_trans)
qed (simp add: conc_refl)

lemma manager_step_conc:
  assumes "manager_step M (m, w) (m', w')"
  shows "conc_run M (m, SIdle, HPass []) (m', SIdle, HPass [])"
  using assms
proof (cases rule: manager_step.cases)
  case step_start
  then show ?thesis
    by (auto simp: Manager_StartTaskHandler_def split: sum.splits intro: conc_refl conc_step_run c_add)
next
  case step_stop
  then show ?thesis
    by (auto simp: Manager_StopTaskHandler_def Let_def split: sum.splits option.splits if_splits prod.splits
        intro: conc_refl conc_step_run c_add)
next
  case step_update
  then show ?thesis by (auto simp: Manager_updateTasks_def intro: update_goroutines_conc)
qed (auto intro: loops_conc SendWork_loops doHealthChecks_loops conc_refl)

lemma manager_run_conc:
  assumes "manager_run M c c'"
  shows "conc_run M (fst c, SIdle, HPass []) (fst c', SIdle, HPass [])"
  using assms
proof (induction rule: manager_run.induct)
  case (run_step c c1 c2)
  then show ?case using manager_step_conc [of M "fst c1" "snd c1" "fst c2" "snd c2"] by (simp add: conc_trans)
qed (rule conc_refl)

section \<open>The queue of pending events\<close>

lemma pending_frames:
  "mPending (drop_route wn i m) = mPending m" "mPending (assignTask M wn te m) = mPending m"
  "mPending (retireTask M wn i m) = mPending m" "mPending (snd (Manager_putTask M t m)) = mPending m"
  by (simp_all add: drop_route_def assignTask_def retireTask_def Manager_putTask_def Let_def
      split: option.splits sum.splits prod.splits)

lemma ProcessTasks_append:
  "ProcessTasks M (replicate j Elapsed @ cs) m w =
     (case ProcessTasks M (replicate j Elapsed) m w of Inl p \<Rightarrow> Inl p | Inr (m1, w1) \<Rightarrow> ProcessTasks M cs m1 w1)"
  by (induction j arbitrary: m w) (auto split: sum.splits)

context manager_env
begin

text \<open>A round takes the first event off the queue, or moves it to the end.\<close>

lemma SendWork_pending:
  assumes "SendWork M m w = Inr (m', w')"
  shows "contents (mPending m') = tl (contents (mPending m)) \<or>
    (\<exists>te es. contents (mPending m) = te # es \<and> contents (mPending m') = es @ [te])"
proof -
  have hd: "contents (mPending m) = te # contents (mPending m0)" if "nextPendingEvent M m = (Some te, m0)" for te m0
    using that tq.Dequeue_SomeD by (auto simp: nextPendingEvent_def Let_def split: prod.splits)
  from assms show ?thesis
  proof (cases rule: SendWork_cases)
    case idle
    then show ?thesis
      using tq.Dequeue_NoneD by (auto simp: nextPendingEvent_def Let_def split: prod.splits)
  next
    case (stop te m0 wn p)
    then show ?thesis using hd [OF stop(1)] Manager_stopTask_cases [OF stop(5)] by (auto simp: pending_frames)
  next
    case (ignored te wn p)
    then show ?thesis using hd [OF ignored(1)] by simp
  next
    case (unplaced te m0 e)
    then show ?thesis using hd [OF unplaced(1)] SelectWorker_outcome(1) [OF unplaced(3)] by auto
  next
    case (sent te m0 n m1 w1 r)
    have q: "mPending m1 = mPending m0" using SelectWorker_outcome(1) [OF sent(3)] by auto
    have "contents (mPending m') = contents (mPending m0) \<or> contents (mPending m') = contents (mPending m0) @ [te]"
      using q
      by (auto simp: sent(5) finish_send_def pending_frames enqueueEvent_def unassignTask_def split: sum.splits)
    then show ?thesis using hd [OF sent(1)] by auto
  qed
qed

lemma ProcessTasks_pending:
  assumes "ProcessTasks M (replicate k Elapsed) m w = Inr (m', w')" and "k \<le> length (contents (mPending m))"
  shows "\<exists>rs. contents (mPending m') = drop k (contents (mPending m)) @ rs \<and> subseq rs (take k (contents (mPending m)))"
  using assms
proof (induction k arbitrary: m' w')
  case (Suc k)
  obtain m1 w1 where p: "ProcessTasks M (replicate k Elapsed) m w = Inr (m1, w1)" and s: "SendWork M m1 w1 = Inr (m', w')"
    using Suc.prems(1) ProcessTasks_append [of M k "[Elapsed]" m w]
    by (auto simp: replicate_append_same split: sum.splits)
  obtain rs where rs: "contents (mPending m1) = drop k (contents (mPending m)) @ rs"
    "subseq rs (take k (contents (mPending m)))"
    using Suc.IH [OF p] Suc.prems(2) by auto
  let ?e = "contents (mPending m) ! k"
  have k: "drop k (contents (mPending m)) = ?e # drop (Suc k) (contents (mPending m))"
    "take (Suc k) (contents (mPending m)) = take k (contents (mPending m)) @ [?e]"
    using Suc.prems(2) by (simp_all add: Cons_nth_drop_Suc take_Suc_conv_app_nth)
  from SendWork_pending [OF s] have "contents (mPending m') = drop (Suc k) (contents (mPending m)) @ rs \<or>
      contents (mPending m') = drop (Suc k) (contents (mPending m)) @ rs @ [?e]"
    by (auto simp: rs(1) k(1))
  moreover have "subseq rs (take (Suc k) (contents (mPending m)))"
    "subseq (rs @ [?e]) (take (Suc k) (contents (mPending m)))"
    using list_emb_append_mono [OF rs(2) list_emb_Nil [of _ "[?e]"]] list_emb_append_mono [OF rs(2) subseq_order.order_refl [of "[?e]"]]
    by (simp_all add: k(2))
  ultimately show ?case by blast
qed simp

end

text \<open>Round robin never panics, and the manager stays on it.\<close>

lemma SelectWorker_RoundRobin:
  assumes "mScheduler m = RoundRobinS r"
  shows "\<exists>res m1 w1 r'. SelectWorker M t m w = Inr (res, m1, w1) \<and> mScheduler m1 = RoundRobinS r'"
  using assms
  by (auto simp: SelectWorker_def pickWorker_def Let_def split: option.splits prod.splits sum.splits)

lemma nextPendingEvent_scheduler: "nextPendingEvent M m = (r, m0) \<Longrightarrow> mScheduler m0 = mScheduler m"
  by (auto simp: nextPendingEvent_def Let_def split: prod.splits)

lemma SendWork_RoundRobin:
  assumes "mScheduler m = RoundRobinS r"
  shows "\<exists>m' w' r'. SendWork M m w = Inr (m', w') \<and> mScheduler m' = RoundRobinS r'"
proof -
  obtain e m0 where n: "nextPendingEvent M m = (e, m0)" by fastforce
  have sch: "mScheduler m0 = RoundRobinS r" using nextPendingEvent_scheduler [OF n] assms by simp
  show ?thesis
  proof (cases e)
    case None
    then show ?thesis using n sch by (simp add: SendWork_def)
  next
    case (Some te)
    show ?thesis
    proof (cases "assignmentFor M (tID (teTask te)) m0")
      case None
      obtain res m1 w1 r' where "SelectWorker M (teTask te) m0 w = Inr (res, m1, w1)" "mScheduler m1 = RoundRobinS r'"
        using SelectWorker_RoundRobin [OF sch, of M "teTask te" w] by (elim exE conjE) (rule that)
      then show ?thesis
        using n Some None
        by (cases res) (auto simp: SendWork_def Let_def finish_send_scheduler assignTask_def split: prod.splits)
    next
      case a: (Some x)
      have "mScheduler (fst (Manager_stopTask M wn i m0 v)) = RoundRobinS r" for wn i v
        using Manager_stopTask_cases [of M wn i m0 v] sch
        by (cases "Manager_stopTask M wn i m0 v")
          (auto simp: retireTask_def drop_route_def Let_def split: option.splits sum.splits)
      then have "\<exists>m' w'. Manager_stopTask M wn i m0 v = (m', w') \<and> (\<exists>r'. mScheduler m' = RoundRobinS r')" for wn i v
        by (metis prod.collapse)
      then show ?thesis using n Some a sch by (cases x) (auto simp: SendWork_def Let_def)
    qed
  qed
qed

lemma ProcessTasks_RoundRobin:
  "mScheduler m = RoundRobinS r \<Longrightarrow> \<exists>m' w'. ProcessTasks M cs m w = Inr (m', w')"
proof (induction M cs m w arbitrary: r rule: ProcessTasks.induct)
  case (3 M cs m w)
  then show ?case using SendWork_RoundRobin [of m r M w] by fastforce
qed simp_all

section \<open>Properties\<close>

text \<open>
  Whole operations are interleavings: whatever sequence of handlers, scheduling rounds,
  update passes and health check passes takes the manager from one state to another, the
  threads of the fine-grained model, each starting and ending idle, can do the same one
  critical section at a time. So every invariant of the interleavings is one of the
  sequential runs.
\<close>

theorem sequential_runs_are_interleavings:
  assumes "manager_run M (m, w) (m', w')"
  shows "conc_run M (m, SIdle, HPass []) (m', SIdle, HPass [])"
  using manager_run_conc [OF assms] by simp

theorem sequential_runs_are_interleavings_witness:
  "let M = mem_menv (sample_codec zero_Task); t = sample_task Running 0;
       m = manager_with rr0 [node_a] [t] [sample_event (sample_task Completed 0)] [(1, ''a'')]
   in \<exists>m' w'. SendWork M m [Inr \<lparr>StatusCode = 204, Body = ''''\<rparr>] = Inr (m', w') \<and>
        mTaskWorkerMap m' 1 = None \<and> conc_run M (m, SIdle, HPass []) (m', SIdle, HPass [])"
proof -
  let ?M = "mem_menv (sample_codec zero_Task)" and ?w = "[Inr \<lparr>StatusCode = 204, Body = ''''\<rparr>]"
  let ?m = "manager_with rr0 [node_a] [sample_task Running 0] [sample_event (sample_task Completed 0)] [(1, ''a'')]"
  have "\<exists>m' w'. SendWork ?M ?m ?w = Inr (m', w') \<and> mTaskWorkerMap m' 1 = None"
    by (simp only: manager_defs) (simp add: manager_defs status_defs)
  then obtain m' w' where s: "SendWork ?M ?m ?w = Inr (m', w')" "mTaskWorkerMap m' 1 = None" by blast
  have "manager_run ?M (?m, ?w) (m', w')" by (rule run_step [OF run_refl step_send [OF s(1)]])
  from sequential_runs_are_interleavings [OF this] s show ?thesis unfolding Let_def by blast
qed

text \<open>
  No pending event starves: after as many rounds of the scheduling loop as there are
  events in front of it, an event is the next one taken, whatever the workers answered in
  between and however often the events before it had to be requeued; those are behind it, in
  their order, each at most once. Only a panic of the marginal-cost scheduler can prevent it.
\<close>

theorem ProcessTasks_no_starvation:
  assumes env: "manager_env M held ok contents" and k: "k < length (contents (mPending m))"
  shows "case ProcessTasks M (replicate k Elapsed) m w of
      Inl p \<Rightarrow> (\<exists>e. mScheduler m = MarginalCostS e)
    | Inr (m', w') \<Rightarrow>
        (\<exists>rs m''. contents (mPending m') = drop k (contents (mPending m)) @ rs \<and>
           subseq rs (take k (contents (mPending m))) \<and>
           nextPendingEvent M m' = (Some (contents (mPending m) ! k), m''))"
proof (cases "ProcessTasks M (replicate k Elapsed) m w")
  case (Inl p)
  then show ?thesis using ProcessTasks_RoundRobin [of m _ M "replicate k Elapsed" w] by (cases "mScheduler m") auto
next
  case (Inr c)
  obtain m' w' where c: "c = (m', w')" by (cases c)
  obtain rs where rs: "contents (mPending m') = drop k (contents (mPending m)) @ rs"
    "subseq rs (take k (contents (mPending m)))"
    using manager_env.ProcessTasks_pending [OF env] Inr c k by (metis less_imp_le)
  then have "contents (mPending m') = contents (mPending m) ! k # (drop (Suc k) (contents (mPending m)) @ rs)"
    using k by (simp add: Cons_nth_drop_Suc [symmetric])
  from manager_env.next_head [OF env this] rs Inr c show ?thesis by auto
qed

text \<open>Two events for different tasks; the first one's worker is down.\<close>

theorem ProcessTasks_no_starvation_witness:
  "let M = mem_menv (sample_codec zero_Task); te = sample_event (sample_task Scheduled 0);
       te2 = sample_event ((sample_task Scheduled 0)\<lparr>tID := 2\<rparr>);
       m = manager_with rr0 [node_a] [] [te, te2] []
   in \<exists>m' w' m''. ProcessTasks M [Elapsed] m [] = Inr (m', w') \<and> nextPendingEvent M m' = (Some te2, m'')"
proof -
  let ?M = "mem_menv (sample_codec zero_Task)" and ?te = "sample_event (sample_task Scheduled 0)"
  let ?te2 = "sample_event ((sample_task Scheduled 0)\<lparr>tID := 2\<rparr>)"
  let ?m = "manager_with rr0 [node_a] [] [?te, ?te2] []"
  have q: "inner (mPending ?m) = [?te, ?te2]" by (simp add: manager_with_def)
  have "mScheduler ?m = rr0" by (simp add: manager_with_def)
  then have no: "mScheduler ?m \<noteq> MarginalCostS e" for e by (simp add: rr0_def)
  have "1 < length (inner (mPending ?m))" by (simp add: q)
  note live = ProcessTasks_no_starvation [OF mem_menv_env [of "sample_codec zero_Task"] this, where w = "[]"]
  show ?thesis
  proof (cases "ProcessTasks ?M (replicate 1 Elapsed) ?m []")
    case (Inl p)
    show ?thesis using live no unfolding Inl by simp
  next
    case (Inr c)
    have "ProcessTasks ?M [Elapsed] ?m [] = Inr c" using Inr by (simp only: One_nat_def replicate.simps)
    moreover have "case c of (m', w') \<Rightarrow> \<exists>m''. nextPendingEvent ?M m' = (Some ?te2, m'')"
      using live unfolding Inr q by (cases c) auto
    ultimately show ?thesis unfolding Let_def by (cases c) blast
  qed
qed

end
