(* ===== verification/Orch_Docker.thy ===== *)
theory Orch_Docker
  imports Complex_Main Orch_Task
begin

text \<open>
  Package \<open>internal/task\<close>, file \<open>docker.go\<close>: the calls a worker makes to the
  Docker daemon to start, stop and inspect a container.

  The Docker client library is not part of the program. It is the parameter
  \<open>docker_client\<close>, a record of the calls the code makes; each call takes the state
  of the world outside the worker (the daemon, the clock) and returns the next one. The
  text that \<open>Run\<close> copies to the worker's standard output is not modelled.
\<close>

section \<open>Configuration of a container\<close>

text \<open>
  \<open>Cpu\<close> is a \<open>float64\<close> that no code sets: \<open>NewConfig\<close> leaves it at zero, so
  \<open>NanoCPUs\<close>, which \<open>Run\<close> computes as \<open>int64(Cpu * 10^9)\<close>, is zero. The field
  holds a \<open>real\<close>: the rounding of a product with zero is not at issue. The conversion
  to \<open>int64\<close> truncates towards zero.
\<close>

record Config =
  cName :: string
  cAttachStdin :: bool
  cAttachStdout :: bool
  cAttachStderr :: bool
  cExposedPorts :: PortSet
  cContainerID :: string
  cCmd :: "string list"
  cImage :: string
  cCpu :: real
  cMemory :: int
  cDisk :: int
  cEnv :: "string list"
  cRestartPolicy :: string

definition zero_Config :: Config where
  "zero_Config =
     \<lparr>cName = '''', cAttachStdin = False, cAttachStdout = False, cAttachStderr = False,
      cExposedPorts = None, cContainerID = '''', cCmd = [], cImage = '''', cCpu = 0,
      cMemory = 0, cDisk = 0, cEnv = [], cRestartPolicy = ''''\<rparr>"

definition NewConfig :: "Task \<Rightarrow> Config" where
  "NewConfig t =
     (let config = zero_Config
            \<lparr>cName := tName t, cImage := tImage t, cMemory := wrap64 (tMemory t),
             cDisk := wrap64 (tDisk t), cRestartPolicy := tRestartPolicy t\<rparr>
      in if tExposedPorts t \<noteq> None then config\<lparr>cExposedPorts := tExposedPorts t\<rparr> else config)"

section \<open>The Docker client, a parameter\<close>

text \<open>What \<open>Run\<close> passes to \<open>ContainerCreate\<close>.\<close>

record CreateOptions =
  coImage :: string
  coTty :: bool
  coEnv :: "string list"
  coExposedPorts :: PortSet
  coRestartPolicy :: string
  coMemory :: int
  coNanoCPUs :: int
  coPublishAllPorts :: bool
  coName :: string

text \<open>The two parts of an inspect reply the worker reads.\<close>

record InspectResult =
  irStatus :: string
  irPorts :: PortMap

record 'd docker_client =
  client_New :: "'d \<Rightarrow> go_error option \<times> 'd"
  ImagePull :: "string \<Rightarrow> 'd \<Rightarrow> go_error option \<times> 'd"
  ContainerCreate :: "CreateOptions \<Rightarrow> 'd \<Rightarrow> (go_error + string) \<times> 'd"
  ContainerStart :: "string \<Rightarrow> 'd \<Rightarrow> go_error option \<times> 'd"
  ContainerLogs :: "string \<Rightarrow> 'd \<Rightarrow> go_error option \<times> 'd"
  ContainerStop :: "string \<Rightarrow> 'd \<Rightarrow> go_error option \<times> 'd"
  ContainerRemove :: "string \<Rightarrow> 'd \<Rightarrow> go_error option \<times> 'd"
  ContainerInspect :: "string \<Rightarrow> 'd \<Rightarrow> (go_error + InspectResult) \<times> 'd"

section \<open>Operations\<close>

record DockerResult =
  drError :: "go_error option"
  drAction :: string
  drContainerId :: string
  drResult :: string

definition NewDockerResult :: "go_error option \<Rightarrow> string \<Rightarrow> string \<Rightarrow> string \<Rightarrow> DockerResult" where
  "NewDockerResult err action containerId result =
     \<lparr>drError = err, drAction = action, drContainerId = containerId, drResult = result\<rparr>"

definition failed_result :: "go_error \<Rightarrow> DockerResult" where
  "failed_result e = NewDockerResult (Some e) '''' '''' ''''"

record DockerInspectResponse =
  diError :: "go_error option"
  diContainer :: "InspectResult option"

definition NewDocker :: "'d docker_client \<Rightarrow> Config \<Rightarrow> 'd \<Rightarrow> (go_error + Config) \<times> 'd" where
  "NewDocker dc config d =
     (case client_New dc d of
        (Some err, d1) \<Rightarrow> (Inl (task_E ''task.NewDocker'' ''creating docker client'' (Some err)), d1)
      | (None, d1) \<Rightarrow> (Inr config, d1))"

definition int64_of :: "real \<Rightarrow> int" where
  "int64_of x = (if 0 \<le> x then \<lfloor>x\<rfloor> else \<lceil>x\<rceil>)"

definition create_options :: "Config \<Rightarrow> CreateOptions" where
  "create_options c =
     \<lparr>coImage = cImage c, coTty = False, coEnv = cEnv c, coExposedPorts = cExposedPorts c,
      coRestartPolicy = cRestartPolicy c, coMemory = cMemory c,
      coNanoCPUs = wrap64 (int64_of (cCpu c * 10 ^ 9)), coPublishAllPorts = True, coName = cName c\<rparr>"

definition Docker_Run :: "'d docker_client \<Rightarrow> Config \<Rightarrow> 'd \<Rightarrow> DockerResult \<times> Config \<times> 'd" where
  "Docker_Run dc c d =
     (case ImagePull dc (cImage c) d of
        (Some err, d1) \<Rightarrow>
          (failed_result (task_E ''task.Docker.Run'' (''pulling image '' @ cImage c) (Some err)), c, d1)
      | (None, d1) \<Rightarrow>
     (case ContainerCreate dc (create_options c) d1 of
        (Inl err, d2) \<Rightarrow>
          (failed_result (task_E ''task.Docker.Run''
             (''creating container using image '' @ cImage c) (Some err)), c, d2)
      | (Inr i, d2) \<Rightarrow>
     (case ContainerStart dc i d2 of
        (Some err, d3) \<Rightarrow>
          (failed_result (task_E ''task.Docker.Run'' (''starting container with id '' @ i) (Some err)), c, d3)
      | (None, d3) \<Rightarrow>
     (let c' = c\<lparr>cContainerID := i\<rparr> in
      case ContainerLogs dc i d3 of
        (Some err, d4) \<Rightarrow>
          (failed_result (task_E ''task.Docker.Run''
             (''getting logs from container with id '' @ i) (Some err)), c', d4)
      | (None, d4) \<Rightarrow> (NewDockerResult None ''start'' i ''success'', c', d4)))))"

definition Docker_Stop :: "'d docker_client \<Rightarrow> string \<Rightarrow> 'd \<Rightarrow> DockerResult \<times> 'd" where
  "Docker_Stop dc i d =
     (case ContainerStop dc i d of
        (Some err, d1) \<Rightarrow>
          (failed_result (task_E ''task.Docker.Stop'' (''stopping container with id '' @ i) (Some err)), d1)
      | (None, d1) \<Rightarrow>
     (case ContainerRemove dc i d1 of
        (Some err, d2) \<Rightarrow>
          (failed_result (task_E ''task.Docker.Stop'' (''removing container with id '' @ i) (Some err)), d2)
      | (None, d2) \<Rightarrow> (NewDockerResult None ''stop'' i ''success'', d2)))"

definition Docker_Inspect :: "'d docker_client \<Rightarrow> string \<Rightarrow> 'd \<Rightarrow> DockerInspectResponse \<times> 'd" where
  "Docker_Inspect dc containerID d =
     (case ContainerInspect dc containerID d of
        (Inl err, d1) \<Rightarrow>
          (\<lparr>diError = Some (task_E ''task.Docker.Inspect'' (''inspecting container '' @ containerID) (Some err)),
            diContainer = None\<rparr>, d1)
      | (Inr resp, d1) \<Rightarrow> (\<lparr>diError = None, diContainer = Some resp\<rparr>, d1))"

lemmas docker_result_defs = NewDockerResult_def failed_result_def

section \<open>Properties\<close>

lemma Docker_Run_result:
  "Docker_Run dc c d = (r, c', d') \<Longrightarrow>
     (if drError r = None then drResult r = ''success'' \<and> drAction r = ''start'' \<and> cContainerID c' = drContainerId r
      else drResult r = '''' \<and> drContainerId r = '''')"
  by (auto simp: Docker_Run_def docker_result_defs Let_def split: prod.splits option.splits sum.splits)

lemma Docker_Stop_result:
  "Docker_Stop dc i d = (r, d') \<Longrightarrow>
     (if drError r = None then drResult r = ''success'' \<and> drContainerId r = i else drContainerId r = '''')"
  by (auto simp: Docker_Stop_def docker_result_defs split: prod.splits option.splits)

text \<open>
  An inspect reply has an error or a container, never neither and never both.
\<close>

lemma Docker_Inspect_result:
  "Docker_Inspect dc i d = (r, d') \<Longrightarrow> (diError r = None) \<longleftrightarrow> (diContainer r \<noteq> None)"
  by (auto simp: Docker_Inspect_def split: prod.splits sum.splits)

text \<open>
  Container \<open>i\<close> was launched for task \<open>t\<close>: some run of the configuration built from \<open>t\<close> pulled
  its image, created \<open>i\<close> with its options, started it and opened its logs.
\<close>

definition launched :: "'d docker_client \<Rightarrow> Task \<Rightarrow> string \<Rightarrow> bool" where
  "launched dc t i \<longleftrightarrow> (\<exists>d r c d'. Docker_Run dc (NewConfig t) d = (r, c, d') \<and> drError r = None \<and> drContainerId r = i)"

lemma NewDocker_config: "NewDocker dc config d = (Inr config', d') \<Longrightarrow> config' = config"
  by (auto simp: NewDocker_def split: prod.splits option.splits)

lemma Docker_Run_launched:
  "Docker_Run dc (NewConfig t) d = (r, c, d') \<Longrightarrow> drError r = None \<Longrightarrow> launched dc t (drContainerId r)"
  by (auto simp: launched_def)

text \<open>The port maps that a daemon may report.\<close>

definition reported :: "'d docker_client \<Rightarrow> PortMap \<Rightarrow> bool" where
  "reported dc h \<longleftrightarrow> (\<exists>i d1 c d2. ContainerInspect dc i d1 = (Inr c, d2) \<and> h = irPorts c)"

lemma Docker_Inspect_reported:
  "Docker_Inspect dc i d = (r, d') \<Longrightarrow> diContainer r = Some c \<Longrightarrow> reported dc (irPorts c)"
  by (fastforce simp: Docker_Inspect_def reported_def split: prod.splits sum.splits)

lemma Docker_Inspect_reported_Some:
  "Docker_Inspect dc i d = (r, d') \<Longrightarrow> diContainer r = Some c \<Longrightarrow> irPorts c = Some h \<Longrightarrow> reported dc (Some h)"
  using Docker_Inspect_reported [of dc i d r d' c] by simp

text \<open>
  \<open>Docker.Run\<close> succeeds exactly when the four calls it makes succeed in turn: pull,
  create with the options built from the configuration, start and logs of the created
  container. Then it reports that container's id.
\<close>

theorem Docker_Run_success_iff:
  "(\<exists>c' d'. Docker_Run dc c d = (NewDockerResult None ''start'' i ''success'', c', d')) \<longleftrightarrow>
   (\<exists>d1 d2 d3 d4. ImagePull dc (cImage c) d = (None, d1) \<and>
      ContainerCreate dc (create_options c) d1 = (Inr i, d2) \<and>
      ContainerStart dc i d2 = (None, d3) \<and> ContainerLogs dc i d3 = (None, d4))"
  by (auto simp: Docker_Run_def docker_result_defs Let_def split: prod.splits option.splits sum.splits)

text \<open>
  A container that was created but did not start is left behind: when
  \<open>ContainerStart\<close> fails, \<open>Run\<close> makes no further call to the daemon (no stop, no
  remove), and its result carries an error and no container id, so the caller cannot
  remove the container either.
\<close>

theorem Docker_Run_start_failure_leaks:
  assumes "ImagePull dc (cImage c) d = (None, d1)"
    and "ContainerCreate dc (create_options c) d1 = (Inr i, d2)"
    and "ContainerStart dc i d2 = (Some err, d3)"
  shows "\<exists>r. Docker_Run dc c d = (r, c, d3) \<and> drError r \<noteq> None \<and> drContainerId r = ''''"
  using assms by (simp add: Docker_Run_def docker_result_defs)

text \<open>
  A daemon that records the calls made to it, with the calls that are to fail, for
  concrete runs.
\<close>

definition logging_client :: "(string \<Rightarrow> bool) \<Rightarrow> InspectResult \<Rightarrow> string list docker_client" where
  "logging_client fails ir =
     (let call = (\<lambda>name d. (if fails name then Some (External name) else None, d @ [name]))
      in \<lparr>client_New = call ''new'',
          ImagePull = (\<lambda>_. call ''pull''),
          ContainerCreate = (\<lambda>_ d. (if fails ''create'' then Inl (External ''create'') else Inr ''c1'', d @ [''create''])),
          ContainerStart = (\<lambda>_. call ''start''),
          ContainerLogs = (\<lambda>_. call ''logs''),
          ContainerStop = (\<lambda>_. call ''stop''),
          ContainerRemove = (\<lambda>_. call ''remove''),
          ContainerInspect = (\<lambda>_ d. (if fails ''inspect'' then Inl (External ''inspect'') else Inr ir, d @ [''inspect'']))\<rparr>)"

theorem Docker_Run_start_failure_leaks_witness:
  "\<exists>r. Docker_Run (logging_client (\<lambda>s. s = ''start'') \<lparr>irStatus = '''', irPorts = None\<rparr>) (NewConfig zero_Task) [] =
     (r, NewConfig zero_Task, [''pull'', ''create'', ''start'']) \<and> drError r \<noteq> None \<and> drContainerId r = ''''"
  by (rule Docker_Run_start_failure_leaks
        [where ?d1.0 = "[''pull'']" and ?d2.0 = "[''pull'', ''create'']" and i = "''c1''" and err = "External ''start''"])
    (simp_all add: logging_client_def Let_def)

end
