(* ===== verification/Orch_Worker.thy ===== *)
theory Orch_Worker
  imports Orch_Docker Orch_Queue Orch_Store Orch_Stats
begin

text \<open>
  Package \<open>internal/worker\<close>: the worker's state and its guarded helpers
  (\<open>state.go\<close>), its operations (\<open>worker.go\<close>) and its HTTP handlers (\<open>api.go\<close>).

  What the worker is built over is the record \<open>wenv\<close>: the third-party uuid package, the
  third-party queue, the store backend, the Docker client, the clock and the decoding of
  a request body. Each helper of \<open>state.go\<close> holds the worker's mutex for its whole
  body, so it is one function on the worker's state. An operation that does I/O takes and
  returns the outside world \<open>'d\<close>. Log lines are not modelled.
\<close>

section \<open>State\<close>

record ('q, 's) Worker =
  wName :: string
  wID :: int
  wDb :: 's
  wQueue :: "'q Queue"
  wStats :: "Stats option"

record ('q, 's, 'd) wenv =
  we_uuid_String :: "UUID \<Rightarrow> string"
  we_uuid_Parse :: "string \<Rightarrow> go_error + UUID"
  we_queue :: "(Task, 'q) collq"
  we_store :: "('s, Task) Store"
  we_docker :: "'d docker_client"
  we_now :: "'d \<Rightarrow> Time \<times> 'd"
  we_decode_TaskEvent :: "string \<Rightarrow> go_error + TaskEvent"

text \<open>\<open>dbs\<close> is what \<open>store.GetDBs\<close> returned, of which the worker keeps the task store.\<close>

definition NewWorker ::
  "('q, 's, 'd) wenv \<Rightarrow> (go_error + 's) \<Rightarrow> string \<Rightarrow> int \<Rightarrow> go_error + ('q, 's) Worker" where
  "NewWorker W dbs name i =
     (case dbs of
        Inl err \<Rightarrow> Inl (worker_Wrap ''worker.NewWorker''
          (''creating worker with name '' @ name @ '' and id '' @ itoa i) err)
      | Inr db \<Rightarrow> Inr \<lparr>wName = name, wID = i, wDb = db, wQueue = New (we_queue W), wStats = None\<rparr>)"

section \<open>Guarded helpers\<close>

text \<open>\<open>ErrNotFound\<close> and any other read error both come back as \<open>(Task{}, false)\<close>.\<close>

definition lookupTaskLocked :: "('q, 's, 'd) wenv \<Rightarrow> UUID \<Rightarrow> ('q, 's) Worker \<Rightarrow> Task option" where
  "lookupTaskLocked W i w =
     (case Get (we_store W) (we_uuid_String W i) (wDb w) of Inl err \<Rightarrow> None | Inr t \<Rightarrow> Some t)"

definition lookupTask :: "('q, 's, 'd) wenv \<Rightarrow> UUID \<Rightarrow> ('q, 's) Worker \<Rightarrow> Task option" where
  "lookupTask W i w = lookupTaskLocked W i w"

definition listTasks :: "('q, 's, 'd) wenv \<Rightarrow> ('q, 's) Worker \<Rightarrow> go_error + Task list" where
  "listTasks W w =
     (case List (we_store W) (wDb w) of
        Inl err \<Rightarrow> Inl (worker_Wrap ''worker.listTasks'' ''listing tasks'' err)
      | Inr tasks \<Rightarrow> Inr tasks)"

definition putTaskLocked :: "('q, 's, 'd) wenv \<Rightarrow> Task \<Rightarrow> ('q, 's) Worker \<Rightarrow> ('q, 's) Worker" where
  "putTaskLocked W t w = w\<lparr>wDb := snd (Put (we_store W) (we_uuid_String W (tID t)) t (wDb w))\<rparr>"

definition putTask :: "('q, 's, 'd) wenv \<Rightarrow> Task \<Rightarrow> ('q, 's) Worker \<Rightarrow> ('q, 's) Worker" where
  "putTask W t w = putTaskLocked W t w"

definition upsertTask ::
  "('q, 's, 'd) wenv \<Rightarrow> Task \<Rightarrow> (Task \<Rightarrow> Task) \<Rightarrow> ('q, 's) Worker \<Rightarrow> ('q, 's) Worker" where
  "upsertTask W base apply_fn w =
     (let t = (case lookupTaskLocked W (tID base) w of None \<Rightarrow> base | Some t \<Rightarrow> t)
      in putTaskLocked W (apply_fn t) w)"

definition enqueueTask :: "('q, 's, 'd) wenv \<Rightarrow> Task \<Rightarrow> ('q, 's) Worker \<Rightarrow> ('q, 's) Worker" where
  "enqueueTask W t w = w\<lparr>wQueue := Enqueue (we_queue W) t (wQueue w)\<rparr>"

definition dequeueTask :: "('q, 's, 'd) wenv \<Rightarrow> ('q, 's) Worker \<Rightarrow> Task option \<times> ('q, 's) Worker" where
  "dequeueTask W w = (let (r, q) = Dequeue (we_queue W) (wQueue w) in (r, w\<lparr>wQueue := q\<rparr>))"

definition queueLen :: "('q, 's, 'd) wenv \<Rightarrow> ('q, 's) Worker \<Rightarrow> int" where
  "queueLen W w = Len (we_queue W) (wQueue w)"

definition setStats :: "Stats \<Rightarrow> ('q, 's) Worker \<Rightarrow> ('q, 's) Worker" where
  "setStats s w = w\<lparr>wStats := Some s\<rparr>"

definition SnapshotStats :: "('q, 's) Worker \<Rightarrow> Stats option" where
  "SnapshotStats w = wStats w"

definition taskCount :: "('q, 's, 'd) wenv \<Rightarrow> ('q, 's) Worker \<Rightarrow> int" where
  "taskCount W w = (case Count (we_store W) (wDb w) of Inl err \<Rightarrow> 0 | Inr n \<Rightarrow> n)"

section \<open>Operations\<close>

definition Worker_Close :: "('q, 's, 'd) wenv \<Rightarrow> ('q, 's) Worker \<Rightarrow> go_error option \<times> ('q, 's) Worker" where
  "Worker_Close W w =
     (case Close (we_store W) (wDb w) of
        (Some err, s) \<Rightarrow> (Some (worker_Wrap ''worker.Close'' ''unable to close task store'' err), w\<lparr>wDb := s\<rparr>)
      | (None, s) \<Rightarrow> (None, w\<lparr>wDb := s\<rparr>))"

definition LookupTask :: "('q, 's, 'd) wenv \<Rightarrow> UUID \<Rightarrow> ('q, 's) Worker \<Rightarrow> Task option" where
  "LookupTask W i w = lookupTask W i w"

text \<open>One round of the loop of \<open>CollectStats\<close>.\<close>

definition CollectStats_round :: "('q, 's, 'd) wenv \<Rightarrow> probes \<Rightarrow> ('q, 's) Worker \<Rightarrow> ('q, 's) Worker" where
  "CollectStats_round W pr w = setStats ((NewStats pr)\<lparr>TaskCount := taskCount W w\<rparr>) w"

text \<open>The changes that the operations make to the stored task under the lock.\<close>

definition start_failed :: "Time \<Rightarrow> Task \<Rightarrow> Task" where
  "start_failed startTime p = p\<lparr>tStartTime := startTime, tState := Failed\<rparr>"

definition start_succeeded :: "Time \<Rightarrow> string \<Rightarrow> PortMap \<Rightarrow> Task \<Rightarrow> Task" where
  "start_succeeded startTime containerId hostPorts p =
     p\<lparr>tStartTime := startTime, tContainerID := containerId, tHostPorts := hostPorts, tState := Running\<rparr>"

definition stop_succeeded :: "Time \<Rightarrow> Task \<Rightarrow> Task" where
  "stop_succeeded finishTime p = p\<lparr>tFinishTime := finishTime, tState := Completed\<rparr>"

definition mark_failed :: "Task \<Rightarrow> Task" where
  "mark_failed p = p\<lparr>tState := Failed\<rparr>"

definition refresh :: "PortMap \<Rightarrow> bool \<Rightarrow> Task \<Rightarrow> Task" where
  "refresh hostPorts exited p =
     (if tState p \<noteq> Running then p
      else let p' = p\<lparr>tHostPorts := hostPorts\<rparr> in if exited then p'\<lparr>tState := Failed\<rparr> else p')"

definition StartTask ::
  "('q, 's, 'd) wenv \<Rightarrow> Task \<Rightarrow> ('q, 's) Worker \<Rightarrow> 'd \<Rightarrow> DockerResult \<times> ('q, 's) Worker \<times> 'd" where
  "StartTask W t w d =
     (let dc = we_docker W;
          (startTime, d0) = we_now W d;
          fail = upsertTask W t (start_failed startTime);
          run = (\<lambda>config d2.
            case Docker_Run dc config d2 of
              (result, _, d3) \<Rightarrow>
                (case drError result of
                   Some e \<Rightarrow>
                     (result\<lparr>drError := Some (worker_Wrap ''worker.StartTask'' (''starting task '' @ we_uuid_String W (tID t)) e)\<rparr>,
                      fail w, d3)
                 | None \<Rightarrow>
                     (if drResult result = ''success'' then
                        (case Docker_Inspect dc (drContainerId result) d3 of
                           (inspectResult, d4) \<Rightarrow>
                             (case diError inspectResult of
                                Some e \<Rightarrow>
                                  (result\<lparr>drError := Some (worker_Wrap ''worker.StartTask''
                                     (''inspecting container '' @ drContainerId result @ '' for task '' @ we_uuid_String W (tID t)) e)\<rparr>,
                                   fail w, d4)
                              | None \<Rightarrow>
                                  (let hostPorts = (case diContainer inspectResult of
                                         None \<Rightarrow> tHostPorts t
                                       | Some c \<Rightarrow> if irPorts c \<noteq> None then irPorts c else tHostPorts t)
                                   in (result, upsertTask W t (start_succeeded startTime (drContainerId result) hostPorts) w, d4))))
                      else (result, upsertTask W t (start_succeeded startTime (drContainerId result) (tHostPorts t)) w, d3))))
      in case NewDocker dc (NewConfig t) d0 of
           (Inl err, d1) \<Rightarrow>
             (failed_result (worker_Wrap ''worker.StartTask'' ''creating docker handler'' err), fail w, d1)
         | (Inr config, d1) \<Rightarrow>
             (if tContainerID t \<noteq> '''' then
                (case Docker_Stop dc (tContainerID t) d1 of
                   (dockerResult, d2) \<Rightarrow>
                     (case drError dockerResult of
                        Some e \<Rightarrow>
                          (failed_result (worker_Wrap ''worker.StartTask''
                             (''stopping existing container '' @ tContainerID t @ '' for task '' @ we_uuid_String W (tID t)) e),
                           fail w, d2)
                      | None \<Rightarrow> run config d2))
              else run config d1))"

definition StopTask ::
  "('q, 's, 'd) wenv \<Rightarrow> Task \<Rightarrow> ('q, 's) Worker \<Rightarrow> 'd \<Rightarrow> DockerResult \<times> ('q, 's) Worker \<times> 'd" where
  "StopTask W t w d =
     (case NewDocker (we_docker W) (NewConfig t) d of
        (Inl err, d1) \<Rightarrow> (failed_result (worker_Wrap ''worker.StopTask'' ''creating docker handler'' err), w, d1)
      | (Inr config, d1) \<Rightarrow>
          (case Docker_Stop (we_docker W) (tContainerID t) d1 of
             (result, d2) \<Rightarrow>
               (case drError result of
                  Some e \<Rightarrow>
                    (result\<lparr>drError := Some (worker_Wrap ''worker.StopTask'' (''stopping task '' @ we_uuid_String W (tID t)) e)\<rparr>,
                     w, d2)
                | None \<Rightarrow>
                    (let (finishTime, d3) = we_now W d2
                     in (result, upsertTask W t (stop_succeeded finishTime) w, d3)))))"

definition RunTask ::
  "('q, 's, 'd) wenv \<Rightarrow> ('q, 's) Worker \<Rightarrow> 'd \<Rightarrow> DockerResult \<times> ('q, 's) Worker \<times> 'd" where
  "RunTask W w d =
     (case dequeueTask W w of
        (None, w1) \<Rightarrow> (failed_result (worker_E ''worker.RunTask'' ''no tasks in the queue'' None), w1, d)
      | (Some taskQueued, w1) \<Rightarrow>
          (let (taskPersisted, w2) =
                 (case lookupTask W (tID taskQueued) w1 of
                    Some t \<Rightarrow> (t, w1)
                  | None \<Rightarrow> (taskQueued, putTask W taskQueued w1))
           in if \<not> IsValidTransition NewStateMachine (tState taskPersisted) (tState taskQueued) then
                (failed_result (worker_E ''worker.RunTask''
                   (''invalid state transition '' @ State_String (tState taskPersisted) @ '' to '' @
                    State_String (tState taskQueued)) None), w2, d)
              else if tState taskQueued = Scheduled then StartTask W taskQueued w2 d
              else if tState taskQueued = Completed then StopTask W taskQueued w2 d
              else (failed_result (worker_E ''worker.RunTask''
                      (''invalid state '' @ State_String (tState taskQueued)) None), w2, d)))"

definition Worker_AddTask :: "('q, 's, 'd) wenv \<Rightarrow> Task \<Rightarrow> ('q, 's) Worker \<Rightarrow> ('q, 's) Worker" where
  "Worker_AddTask W t w = enqueueTask W t w"

definition Worker_GetTasks :: "('q, 's, 'd) wenv \<Rightarrow> ('q, 's) Worker \<Rightarrow> go_error + Task list" where
  "Worker_GetTasks W w = listTasks W w"

text \<open>One round of the loop of \<open>RunTasks\<close>.\<close>

definition RunTasks_round :: "('q, 's, 'd) wenv \<Rightarrow> ('q, 's) Worker \<Rightarrow> 'd \<Rightarrow> ('q, 's) Worker \<times> 'd" where
  "RunTasks_round W w d =
     (if queueLen W w \<noteq> 0 then (let (result, w1, d1) = RunTask W w d in (w1, d1)) else (w, d))"

definition InspectTask :: "('q, 's, 'd) wenv \<Rightarrow> Task \<Rightarrow> 'd \<Rightarrow> DockerInspectResponse \<times> 'd" where
  "InspectTask W t d =
     (case NewDocker (we_docker W) (NewConfig t) d of
        (Inl err, d1) \<Rightarrow>
          (\<lparr>diError = Some (worker_Wrap ''worker.InspectTask'' ''creating docker handler'' err), diContainer = None\<rparr>, d1)
      | (Inr config, d1) \<Rightarrow> Docker_Inspect (we_docker W) (tContainerID t) d1)"

text \<open>The body of the loop of \<open>updateTasks\<close> once the inspection has answered, then the loop.\<close>

definition update_inspected ::
  "('q, 's, 'd) wenv \<Rightarrow> Task \<Rightarrow> DockerInspectResponse \<Rightarrow> ('q, 's) Worker \<Rightarrow> ('q, 's) Worker" where
  "update_inspected W t resp w =
     (case diError resp of
        Some e \<Rightarrow> w
      | None \<Rightarrow>
          (case diContainer resp of
             None \<Rightarrow> upsertTask W t mark_failed w
           | Some c \<Rightarrow> upsertTask W t (refresh (irPorts c) (irStatus c = ''exited'')) w))"

fun updateTasks_loop ::
  "('q, 's, 'd) wenv \<Rightarrow> Task list \<Rightarrow> ('q, 's) Worker \<Rightarrow> 'd \<Rightarrow> ('q, 's) Worker \<times> 'd" where
  "updateTasks_loop W [] w d = (w, d)"
| "updateTasks_loop W (t # ts) w d =
     (if tState t \<noteq> Running then updateTasks_loop W ts w d
      else (let (resp, d1) = InspectTask W t d
            in updateTasks_loop W ts (update_inspected W t resp w) d1))"

definition Worker_updateTasks ::
  "('q, 's, 'd) wenv \<Rightarrow> ('q, 's) Worker \<Rightarrow> 'd \<Rightarrow> ('q, 's) Worker \<times> 'd" where
  "Worker_updateTasks W w d =
     (case listTasks W w of Inl err \<Rightarrow> (w, d) | Inr tasks \<Rightarrow> updateTasks_loop W tasks w d)"

text \<open>The loop \<open>UpdateTasks\<close> never returns; \<open>n\<close> is how many passes it has made.\<close>

primrec Worker_UpdateTasks ::
  "('q, 's, 'd) wenv \<Rightarrow> nat \<Rightarrow> ('q, 's) Worker \<Rightarrow> 'd \<Rightarrow> ('q, 's) Worker \<times> 'd" where
  "Worker_UpdateTasks W 0 w d = (w, d)"
| "Worker_UpdateTasks W (Suc n) w d = (let (w1, d1) = Worker_updateTasks W w d in Worker_UpdateTasks W n w1 d1)"

fun Shutdown_loop ::
  "('q, 's, 'd) wenv \<Rightarrow> Task list \<Rightarrow> ('q, 's) Worker \<Rightarrow> 'd \<Rightarrow> ('q, 's) Worker \<times> 'd" where
  "Shutdown_loop W [] w d = (w, d)"
| "Shutdown_loop W (t # ts) w d =
     (if tContainerID t = '''' \<or> tState t = Completed then Shutdown_loop W ts w d
      else (let (result, w1, d1) = StopTask W (t\<lparr>tState := Completed\<rparr>) w d in Shutdown_loop W ts w1 d1))"

definition Shutdown :: "('q, 's, 'd) wenv \<Rightarrow> ('q, 's) Worker \<Rightarrow> 'd \<Rightarrow> ('q, 's) Worker \<times> 'd" where
  "Shutdown W w d =
     (let tasks = (case Worker_GetTasks W w of Inl err \<Rightarrow> [] | Inr ts \<Rightarrow> ts);
          (w1, d1) = Shutdown_loop W tasks w d
      in (snd (Worker_Close W w1), d1))"

section \<open>Handlers\<close>

datatype worker_payload = TaskPayload Task | TasksPayload "Task list" | StatsPayload Stats

type_synonym worker_reply = "worker_payload body reply"

definition Worker_StartTaskHandler ::
  "('q, 's, 'd) wenv \<Rightarrow> string \<Rightarrow> ('q, 's) Worker \<Rightarrow> worker_reply \<times> ('q, 's) Worker" where
  "Worker_StartTaskHandler W request w =
     (case we_decode_TaskEvent W request of
        Inl err \<Rightarrow> (WriteError StatusBadRequest ''error unmarshalling body'', w)
      | Inr taskEvent \<Rightarrow>
          (WriteJSON StatusCreated (PayloadBody (TaskPayload (teTask taskEvent))), Worker_AddTask W (teTask taskEvent) w))"

definition Worker_GetTasksHandler :: "('q, 's, 'd) wenv \<Rightarrow> ('q, 's) Worker \<Rightarrow> worker_reply" where
  "Worker_GetTasksHandler W w =
     (case Worker_GetTasks W w of
        Inl err \<Rightarrow> WriteError StatusInternalServerError ''could not list tasks''
      | Inr tasks \<Rightarrow> WriteJSON StatusOK (PayloadBody (TasksPayload tasks)))"

definition Worker_StopTaskHandler ::
  "('q, 's, 'd) wenv \<Rightarrow> string \<Rightarrow> ('q, 's) Worker \<Rightarrow> worker_reply \<times> ('q, 's) Worker" where
  "Worker_StopTaskHandler W taskID w =
     (if taskID = '''' then (WriteError StatusBadRequest ''no taskID passed in request'', w)
      else
        (case we_uuid_Parse W taskID of
           Inl err \<Rightarrow> (WriteError StatusBadRequest ''taskID is not a valid uuid'', w)
         | Inr parsedTaskID \<Rightarrow>
             (case LookupTask W parsedTaskID w of
                None \<Rightarrow> (WriteError StatusNotFound ''task does not exist on worker'', w)
              | Some taskToStop \<Rightarrow>
                  (WriteHeader StatusNoContent, Worker_AddTask W (taskToStop\<lparr>tState := Completed\<rparr>) w))))"

definition Worker_GetStatsHandler :: "('q, 's) Worker \<Rightarrow> worker_reply" where
  "Worker_GetStatsHandler w =
     (case SnapshotStats w of
        None \<Rightarrow> WriteError StatusServiceUnavailable ''stats not collected yet''
      | Some stats \<Rightarrow> WriteJSON StatusOK (PayloadBody (StatsPayload stats)))"

end
