(* ===== verification/Orch_Worker_Correct.thy ===== *)
theory Orch_Worker_Correct
  imports Orch_Worker
begin

text \<open>
  What the worker guarantees. Its state is read through \<open>stored\<close>, the task it holds for
  an identifier. The lemmas are proved once, in the locale \<open>worker_env\<close>, from the
  contracts of the store and the queue; the locale is interpreted on the in-memory
  backend, and the properties are stated for every worker over that backend, every queue
  that is first-in first-out, every Docker client and every clock.
\<close>

section \<open>The abstract view\<close>

definition stored :: "('s \<Rightarrow> string \<rightharpoonup> Task) \<Rightarrow> ('q, 's, 'd) wenv \<Rightarrow> ('q, 's) Worker \<Rightarrow> UUID \<rightharpoonup> Task" where
  "stored held W w i = held (wDb w) (we_uuid_String W i)"

definition wf_worker ::
  "('s \<Rightarrow> string \<rightharpoonup> Task) \<Rightarrow> ('s \<Rightarrow> bool) \<Rightarrow> ('q, 's, 'd) wenv \<Rightarrow> ('q, 's) Worker \<Rightarrow> bool" where
  "wf_worker held ok W w \<longleftrightarrow> ok (wDb w) \<and>
     (\<forall>k t. held (wDb w) k = Some t \<longrightarrow> k = we_uuid_String W (tID t))"

lemma callbacks_keep_ID [simp]:
  "tID (start_failed s p) = tID p" "tID (start_succeeded s c h p) = tID p"
  "tID (stop_succeeded f p) = tID p" "tID (mark_failed p) = tID p" "tID (refresh h e p) = tID p"
  by (simp_all add: start_failed_def start_succeeded_def stop_succeeded_def mark_failed_def refresh_def Let_def)

lemma callbacks_state [simp]:
  "tState (start_failed s p) = Failed" "tState (start_succeeded s c h p) = Running"
  "tState (stop_succeeded f p) = Completed" "tState (mark_failed p) = Failed"
  by (simp_all add: start_failed_def start_succeeded_def stop_succeeded_def mark_failed_def)

lemma refresh_not_running [simp]: "tState p \<noteq> Running \<Longrightarrow> refresh h e p = p"
  by (simp add: refresh_def)

lemma refresh_state: "tState (refresh h e p) = (if tState p = Running \<and> e then Failed else tState p)"
  by (simp add: refresh_def Let_def)

locale worker_env =
  fixes W :: "('q, 's, 'd) wenv" and held :: "'s \<Rightarrow> string \<rightharpoonup> Task" and ok :: "'s \<Rightarrow> bool"
    and contents :: "'q Queue \<Rightarrow> Task list"
  assumes store: "total_store (we_store W) held ok"
    and que: "queue (we_queue W) contents"
    and uuid_inj: "inj (we_uuid_String W)"

sublocale worker_env \<subseteq> ts: total_store "we_store W" held ok
  by (rule store)

sublocale worker_env \<subseteq> tq: queue "we_queue W" contents
  by (rule que)

context worker_env
begin

lemma uuid_eq [simp]: "we_uuid_String W i = we_uuid_String W j \<longleftrightarrow> i = j"
  using uuid_inj by (auto dest: injD)

lemma stored_ID: "wf_worker held ok W w \<Longrightarrow> stored held W w i = Some t \<Longrightarrow> tID t = i"
  unfolding wf_worker_def stored_def by (metis uuid_eq)

lemma lookupTask_stored: "wf_worker held ok W w \<Longrightarrow> lookupTaskLocked W i w = stored held W w i"
  using ts.Get_missing [of "wDb w" "we_uuid_String W i"] ts.Get_total [of "wDb w" "we_uuid_String W i"]
  by (cases "held (wDb w) (we_uuid_String W i)")
    (auto simp: lookupTaskLocked_def stored_def wf_worker_def)

lemma putTask_stored:
  assumes "wf_worker held ok W w"
  shows "stored held W (putTaskLocked W t w) = (stored held W w)(tID t \<mapsto> t)"
    and "wf_worker held ok W (putTaskLocked W t w)"
proof -
  have ok: "ok (wDb w)" using assms by (simp add: wf_worker_def)
  have h: "held (wDb (putTaskLocked W t w)) = (held (wDb w))(we_uuid_String W (tID t) \<mapsto> t)"
    using ts.Put_held [OF ok] by (simp add: putTaskLocked_def)
  then show "stored held W (putTaskLocked W t w) = (stored held W w)(tID t \<mapsto> t)"
    by (auto simp: stored_def fun_eq_iff)
  show "wf_worker held ok W (putTaskLocked W t w)"
    using assms h ts.Put_ok [OF ok] by (auto simp: wf_worker_def putTaskLocked_def)
qed

definition current :: "Task \<Rightarrow> ('q, 's) Worker \<Rightarrow> Task" where
  "current base w = (case stored held W w (tID base) of None \<Rightarrow> base | Some t \<Rightarrow> t)"

lemma current_ID: "wf_worker held ok W w \<Longrightarrow> tID (current base w) = tID base"
  by (auto simp: current_def stored_ID split: option.splits)

lemma upsertTask_stored:
  assumes "wf_worker held ok W w" and f: "\<And>p. tID (f p) = tID p"
  shows "stored held W (upsertTask W base f w) = (stored held W w)(tID base \<mapsto> f (current base w))"
    and "wf_worker held ok W (upsertTask W base f w)"
proof -
  have u: "upsertTask W base f w = putTaskLocked W (f (current base w)) w"
    by (simp add: upsertTask_def lookupTask_stored [OF assms(1)] current_def)
  show "wf_worker held ok W (upsertTask W base f w)"
    unfolding u by (rule putTask_stored [OF assms(1)])
  show "stored held W (upsertTask W base f w) = (stored held W w)(tID base \<mapsto> f (current base w))"
    unfolding u by (simp add: putTask_stored [OF assms(1)] f current_ID [OF assms(1)])
qed

lemma queue_only [simp]:
  "stored held W (enqueueTask W t w) = stored held W w"
  "wf_worker held ok W (enqueueTask W t w) = wf_worker held ok W w"
  "stored held W (snd (dequeueTask W w)) = stored held W w"
  "wf_worker held ok W (snd (dequeueTask W w)) = wf_worker held ok W w"
  "stored held W (setStats s w) = stored held W w"
  "wf_worker held ok W (setStats s w) = wf_worker held ok W w"
  by (simp_all add: enqueueTask_def dequeueTask_def setStats_def stored_def wf_worker_def split_beta fun_eq_iff)

lemma dequeueTask_only:
  assumes "dequeueTask W w = (r, w1)"
  shows "stored held W w1 = stored held W w" and "wf_worker held ok W w1 = wf_worker held ok W w"
    and "(case r of None \<Rightarrow> contents (wQueue w) = [] | Some q \<Rightarrow> contents (wQueue w) = q # contents (wQueue w1))"
  using assms queue_only(3,4) [of w] tq.Dequeue_NoneD tq.Dequeue_SomeD
  by (auto simp: dequeueTask_def split: option.splits prod.splits)

end

section \<open>Shapes of the operations\<close>

lemma StartTask_cases:
  assumes "StartTask W t w d = (r, w', d')"
  obtains (failed) s e where "w' = upsertTask W t (start_failed s) w" "drError r = Some e"
  | (started) s h where "w' = upsertTask W t (start_succeeded s (drContainerId r) h) w" "drError r = None"
  using assms
  by (auto simp: StartTask_def Let_def failed_result_def NewDockerResult_def
      split: prod.splits option.splits sum.splits if_splits)

text \<open>
  The ports that a start records were the task's own, or the daemon reported them; the container
  it records was launched for the task.
\<close>

lemma StartTask_ports:
  assumes run: "StartTask W t w d = (r, w', d')"
    and fail: "\<And>s. P (upsertTask W t (start_failed s) w)"
    and own: "\<And>s i. launched (we_docker W) t i \<Longrightarrow> P (upsertTask W t (start_succeeded s i (tHostPorts t)) w)"
    and daemon: "\<And>s i h. launched (we_docker W) t i \<Longrightarrow> reported (we_docker W) (Some h) \<Longrightarrow>
      P (upsertTask W t (start_succeeded s i (Some h)) w)"
  shows "P w'"
  using run unfolding StartTask_def Let_def
  by (auto split: prod.splits option.splits sum.splits if_splits
      intro: fail own daemon Docker_Inspect_reported_Some Docker_Run_launched dest!: NewDocker_config)

lemma StopTask_cases:
  assumes "StopTask W t w d = (r, w', d')"
  obtains (failed) e where "w' = w" "drError r = Some e"
  | (stopped) f where "w' = upsertTask W t (stop_succeeded f) w" "drError r = None"
  using assms
  by (auto simp: StopTask_def failed_result_def NewDockerResult_def
      split: prod.splits option.splits sum.splits if_splits)

lemma RunTask_cases:
  assumes "RunTask W w d = (r, w', d')"
  obtains (empty) "dequeueTask W w = (None, w')" "d' = d" "drError r \<noteq> None"
  | (task) q w1 p w2 where "dequeueTask W w = (Some q, w1)"
      "(p, w2) = (case lookupTask W (tID q) w1 of Some t \<Rightarrow> (t, w1) | None \<Rightarrow> (q, putTask W q w1))"
      "if valid_edge (tState p) (tState q) \<and> tState q = Scheduled then StartTask W q w2 d = (r, w', d')
       else if valid_edge (tState p) (tState q) \<and> tState q = Completed then StopTask W q w2 d = (r, w', d')
       else w' = w2 \<and> d' = d \<and> drError r \<noteq> None"
proof (cases "dequeueTask W w")
  case (Pair r1 w1)
  show thesis
  proof (cases r1)
    case None
    then show thesis using empty assms Pair by (auto simp: RunTask_def failed_result_def NewDockerResult_def)
  next
    case (Some q)
    obtain p w2 where pw: "(p, w2) = (case lookupTask W (tID q) w1 of Some t \<Rightarrow> (t, w1) | None \<Rightarrow> (q, putTask W q w1))"
      by (metis surj_pair)
    show thesis
      using task [OF _ pw] assms Pair Some pw [symmetric]
      by (auto simp: RunTask_def failed_result_def NewDockerResult_def split: if_splits)
  qed
qed

section \<open>Task transitions\<close>

context worker_env
begin

text \<open>The record that \<open>RunTask\<close> compares the queued task with, and the store it then has.\<close>

lemma RunTask_persisted:
  assumes "wf_worker held ok W w1"
    and "(p, w2) = (case lookupTask W (tID q) w1 of Some t \<Rightarrow> (t, w1) | None \<Rightarrow> (q, putTask W q w1))"
  shows "wf_worker held ok W w2" and "stored held W w2 = (stored held W w1)(tID q \<mapsto> p)" and "tID p = tID q"
    and "p = (case stored held W w1 (tID q) of Some t \<Rightarrow> t | None \<Rightarrow> q)"
  using assms putTask_stored [OF assms(1), of q] stored_ID [OF assms(1)]
  by (auto simp: lookupTask_def putTask_def lookupTask_stored split: option.splits)

lemma RunTask_walk:
  assumes "wf_worker held ok W w" and "RunTask W w d = (r, w', d')"
  shows "wf_worker held ok W w' \<and>
    (\<forall>i. stored held W w' i = stored held W w i \<or>
      (\<exists>q qs p'. contents (wQueue w) = q # qs \<and> i = tID q \<and> stored held W w' i = Some p' \<and>
         (case stored held W w i of None \<Rightarrow> walk (tState q) (tState p')
          | Some p \<Rightarrow> valid_edge (tState p) (tState q) \<and> tState q \<in> {Scheduled, Completed} \<and> walk (tState p) (tState p'))))"
  using assms(2)
proof (cases rule: RunTask_cases)
  case empty
  then show ?thesis using dequeueTask_only [OF empty(1)] assms(1) by simp
next
  case (task q w1 p w2)
  have w1: "wf_worker held ok W w1" "stored held W w1 = stored held W w" "\<exists>qs. contents (wQueue w) = q # qs"
    using dequeueTask_only [OF task(1)] assms(1) by auto
  note P = RunTask_persisted [OF w1(1) task(2)]
  have cur: "current q w2 = p" using P(2) by (simp add: current_def)
  have via: "walk (tState p) x"
    if "valid_edge (tState p) (tState q)" "walk (tState q) x" for x
    using that walk_trans walk_edge by blast
  have sr: "walk Scheduled Failed" "walk Scheduled Running"
    by (rule walk_edge, simp add: valid_edge_iff)+
  have upd: ?thesis
    if w': "w' = upsertTask W q f w2" and fid: "\<And>p. tID (f p) = tID p"
      and edge: "valid_edge (tState p) (tState q)" "tState q \<in> {Scheduled, Completed}"
      and qf: "walk (tState q) (tState (f p))" for f
    using upsertTask_stored [OF P(1) fid, of q] w' P(2,4) w1(2,3) cur edge qf via [OF edge(1) qf]
    by (auto split: option.splits)
  have same: ?thesis if "w' = w2"
    using that P(1,2,4) w1(2,3) by (auto split: option.splits intro: walk_refl)
  show ?thesis
  proof (cases "valid_edge (tState p) (tState q) \<and> tState q \<in> {Scheduled, Completed}")
    case False
    with task(3) have "w' = w2" by (auto split: if_splits)
    then show ?thesis by (rule same)
  next
    case True
    show ?thesis
    proof (cases "tState q = Scheduled")
      case s: True
      then have "StartTask W q w2 d = (r, w', d')" using task(3) True by simp
      then show ?thesis
      proof (cases rule: StartTask_cases)
        case (failed s e)
        then show ?thesis using True s sr by (intro upd [of "start_failed s"]) auto
      next
        case (started s h)
        then show ?thesis using True s sr by (intro upd [of "start_succeeded s (drContainerId r) h"]) auto
      qed
    next
      case False
      then have "StopTask W q w2 d = (r, w', d')" using task(3) True by auto
      then show ?thesis
      proof (cases rule: StopTask_cases)
        case (failed e)
        then show ?thesis by (intro same)
      next
        case (stopped f)
        then show ?thesis using True False by (intro upd [of "stop_succeeded f"]) (auto intro: walk_refl)
      qed
    qed
  qed
qed

end

section \<open>Workers over the in-memory store\<close>

definition in_memory_worker :: "('q, Task InMemory, 'd) wenv \<Rightarrow> ('q \<Rightarrow> Task list) \<Rightarrow> bool" where
  "in_memory_worker W items \<longleftrightarrow>
     (\<exists>order. iteration_order order \<and> we_store W = InMemory_store order) \<and>
     collq_fifo (we_queue W) items \<and> inj (we_uuid_String W)"

abbreviation mem_stored ::
  "('q, Task InMemory, 'd) wenv \<Rightarrow> ('q, Task InMemory) Worker \<Rightarrow> UUID \<rightharpoonup> Task" where
  "mem_stored \<equiv> stored InMemory_held"

abbreviation mem_wf :: "('q, Task InMemory, 'd) wenv \<Rightarrow> ('q, Task InMemory) Worker \<Rightarrow> bool" where
  "mem_wf \<equiv> wf_worker InMemory_held InMemory_ok"

lemma in_memory_worker_env:
  assumes "in_memory_worker W items"
  shows "worker_env W InMemory_held InMemory_ok (\<lambda>q. items (inner q))"
  using assms unfolding in_memory_worker_def
  by (auto intro!: worker_env.intro intro: InMemory_total_store wrapper_is_queue)

text \<open>A concrete environment, with a uuid rendered in unary and the queue kept as a list.\<close>

definition mem_wenv :: "'d docker_client \<Rightarrow> ('d \<Rightarrow> Time \<times> 'd) \<Rightarrow> (Task list, Task InMemory, 'd) wenv" where
  "mem_wenv dc now =
     \<lparr>we_uuid_String = unary,
      we_uuid_Parse = (\<lambda>s. if set s \<subseteq> {CHR ''x''} then Inr (of_nat (length s)) else Inl (External ''invalid UUID'')),
      we_queue = list_collq, we_store = InMemory_store (\<lambda>xs. xs), we_docker = dc, we_now = now,
      we_decode_TaskEvent = (\<lambda>s. Inl (External ''no body''))\<rparr>"

lemma in_memory_mem_wenv: "in_memory_worker (mem_wenv dc now) (\<lambda>q. q)"
  unfolding in_memory_worker_def
  by (auto simp: mem_wenv_def list_collq_fifo inj_unary intro: exI [of _ "\<lambda>xs. xs"])

interpretation mw: worker_env "mem_wenv dc now" InMemory_held InMemory_ok "\<lambda>q. inner q"
  by (rule in_memory_worker_env [OF in_memory_mem_wenv])

definition worker_with :: "Task list \<Rightarrow> Task list \<Rightarrow> (Task list, Task InMemory) Worker" where
  "worker_with db q =
     \<lparr>wName = ''w'', wID = 1, wDb = \<lparr>Db = map (\<lambda>t. (unary (tID t), t)) db\<rparr>, wQueue = \<lparr>inner = q\<rparr>, wStats = None\<rparr>"

lemma worker_with_wf: "distinct (map tID db) \<Longrightarrow> mem_wf (mem_wenv dc now) (worker_with db q)"
proof -
  assume d: "distinct (map tID db)"
  have "map fst (map (\<lambda>t. (unary (tID t), t)) db) = map unary (map tID db)" by simp
  then have "distinct (map fst (map (\<lambda>t. (unary (tID t), t)) db))"
    using d inj_unary by (metis distinct_map inj_on_subset subset_UNIV)
  then show ?thesis
    by (auto simp: wf_worker_def worker_with_def mem_wenv_def InMemory_ok_def InMemory_held_def dest: map_of_SomeD)
qed

section \<open>Properties\<close>

text \<open>
  C19. \<open>RunTask\<close> follows the state machine, for every behaviour of the Docker daemon: it
  changes at most the record of the task at the head of the queue; a record it had moves
  only if the queued state is a valid transition from its state, and then along valid
  edges; a record it had not starts out as the queued task. The store stays well formed.
\<close>

theorem RunTask_follows_state_machine:
  assumes "in_memory_worker W items" and "mem_wf W w" and "RunTask W w d = (r, w', d')"
  shows "mem_wf W w' \<and>
    (\<forall>i. mem_stored W w' i = mem_stored W w i \<or>
      (\<exists>q qs p'. items (inner (wQueue w)) = q # qs \<and> i = tID q \<and> mem_stored W w' i = Some p' \<and>
         (case mem_stored W w i of None \<Rightarrow> walk (tState q) (tState p')
          | Some p \<Rightarrow> valid_edge (tState p) (tState q) \<and> tState q \<in> {Scheduled, Completed} \<and>
                      walk (tState p) (tState p'))))"
  by (rule worker_env.RunTask_walk [OF in_memory_worker_env [OF assms(1)] assms(2,3)])

theorem RunTask_follows_state_machine_witness:
  "mem_wf (mem_wenv (logging_client (\<lambda>_. False) \<lparr>irStatus = ''running'', irPorts = None\<rparr>) (\<lambda>d. (7, d)))
     (fst (snd (RunTask (mem_wenv (logging_client (\<lambda>_. False) \<lparr>irStatus = ''running'', irPorts = None\<rparr>) (\<lambda>d. (7, d)))
        (worker_with [] [zero_Task\<lparr>tState := Scheduled\<rparr>]) [])))"
proof -
  let ?W = "mem_wenv (logging_client (\<lambda>_. False) \<lparr>irStatus = ''running'', irPorts = None\<rparr>) (\<lambda>d. (7 :: int, d))"
  let ?w = "worker_with [] [zero_Task\<lparr>tState := Scheduled\<rparr>]"
  obtain r w' d' where run: "RunTask ?W ?w [] = (r, w', d')" by (metis surj_pair)
  have "mem_wf ?W ?w" by (rule worker_with_wf) simp
  from RunTask_follows_state_machine [OF in_memory_mem_wenv this run] run show ?thesis by simp
qed

text \<open>
  C33. What a submitted task's own state decides: a task the worker has never seen is
  started only when its state is \<open>Scheduled\<close>. With any other state, also the zero value
  \<open>Pending\<close> of a request that leaves the field out, \<open>RunTask\<close> records the task as it is,
  reports an error and makes no call to Docker.
\<close>

theorem RunTask_unseen_not_scheduled:
  assumes "in_memory_worker W items" and "mem_wf W w"
    and "items (inner (wQueue w)) = q # qs" and "mem_stored W w (tID q) = None" and "tState q \<noteq> Scheduled"
  shows "\<exists>r w'. RunTask W w d = (r, w', d) \<and> drError r \<noteq> None \<and>
    mem_stored W w' = (mem_stored W w)(tID q \<mapsto> q)"
proof -
  have E: "worker_env W InMemory_held InMemory_ok (\<lambda>q. items (inner q))"
    using assms(1) by (rule in_memory_worker_env)
  obtain r w' d' where run: "RunTask W w d = (r, w', d')" by (metis surj_pair)
  then show ?thesis
  proof (cases rule: RunTask_cases)
    case empty
    then show ?thesis using worker_env.dequeueTask_only(3) [OF E empty(1)] assms(3) by simp
  next
    case (task q' w1 p w2)
    have q: "q' = q" using worker_env.dequeueTask_only(3) [OF E task(1)] assms(3) by simp
    have w1: "mem_wf W w1" "mem_stored W w1 = mem_stored W w"
      using worker_env.dequeueTask_only [OF E task(1)] assms(2) by simp_all
    note P = worker_env.RunTask_persisted [OF E w1(1) task(2)]
    have p: "p = q" using P(4) w1(2) q assms(4) by simp
    have "\<not> (valid_edge (tState p) (tState q') \<and> tState q' = Completed)" using p q by auto
    then have "w' = w2 \<and> d' = d \<and> drError r \<noteq> None"
      using task(3) q assms(5) by (simp split: if_splits)
    with run P(2) w1(2) p q show ?thesis by auto
  qed
qed

theorem RunTask_unseen_not_scheduled_witness:
  "\<exists>r w'. RunTask (mem_wenv (logging_client (\<lambda>_. False) \<lparr>irStatus = ''running'', irPorts = None\<rparr>) (\<lambda>d. (7, d)))
      (worker_with [] [zero_Task]) [] = (r, w', []) \<and> drError r \<noteq> None \<and>
    mem_stored (mem_wenv (logging_client (\<lambda>_. False) \<lparr>irStatus = ''running'', irPorts = None\<rparr>) (\<lambda>d. (7, d))) w' 0 = Some zero_Task"
proof -
  let ?W = "mem_wenv (logging_client (\<lambda>_. False) \<lparr>irStatus = ''running'', irPorts = None\<rparr>) (\<lambda>d. (7 :: int, d))"
  have wf: "mem_wf ?W (worker_with [] [zero_Task])" by (rule worker_with_wf) simp
  have "\<exists>r w'. RunTask ?W (worker_with [] [zero_Task]) [] = (r, w', []) \<and> drError r \<noteq> None \<and>
      mem_stored ?W w' = (mem_stored ?W (worker_with [] [zero_Task]))(tID zero_Task \<mapsto> zero_Task)"
    by (rule RunTask_unseen_not_scheduled [OF in_memory_mem_wenv wf, of _ "[]"])
      (simp_all add: worker_with_def stored_def InMemory_held_def zero_Task_def state_defs)
  moreover have "tID zero_Task = 0" by (simp add: zero_Task_def)
  ultimately show ?thesis by auto
qed

end
