(* ===== verification/Orch_Worker_Loops.thy ===== *)
theory Orch_Worker_Loops
  imports Orch_Worker_Correct
begin

text \<open>
  The worker's goroutines interleaved at the granularity of its critical sections, and its
  shutdown. The run loop and the update loop are threads with a program counter; the API can
  add a task at any moment. \<open>StartTask\<close> and \<open>StopTask\<close> talk to Docker without the lock and
  touch the worker's state in one \<open>upsertTask\<close> at the end, so each is one step, taken when
  that write happens.
\<close>

section \<open>Threads\<close>

datatype run_pc =
    RIdle
  | RGot Task
  | RFresh Task
  | RCheck Task Task
  | RStarting Task
  | RStopping Task

datatype update_pc =
    UPass "Task list"
  | UInspected Task DockerInspectResponse "Task list"

type_synonym ('q, 's) wconc = "('q, 's) Worker \<times> run_pc \<times> update_pc"

text \<open>The steps of the worker's own loops, and those with requests to its API.\<close>

inductive loop_step ::
  "('q, 's, 'd) wenv \<Rightarrow> ('q, 's) wconc \<Rightarrow> ('q, 's) wconc \<Rightarrow> bool"
  for W :: "('q, 's, 'd) wenv" where
  tw_stats: "loop_step W (w, r, u) (CollectStats_round W pr w, r, u)"
| tr_next: "dequeueTask W w = (Some q, w') \<Longrightarrow> loop_step W (w, RIdle, u) (w', RGot q, u)"
| tr_seen: "lookupTask W (tID q) w = Some p \<Longrightarrow> loop_step W (w, RGot q, u) (w, RCheck q p, u)"
| tr_unseen: "lookupTask W (tID q) w = None \<Longrightarrow> loop_step W (w, RGot q, u) (w, RFresh q, u)"
| tr_put: "loop_step W (w, RFresh q, u) (putTask W q w, RCheck q q, u)"
| tr_refuse: "\<not> IsValidTransition NewStateMachine (tState p) (tState q) \<or> tState q \<notin> {Scheduled, Completed} \<Longrightarrow>
    loop_step W (w, RCheck q p, u) (w, RIdle, u)"
| tr_start: "IsValidTransition NewStateMachine (tState p) (tState q) \<Longrightarrow> tState q = Scheduled \<Longrightarrow>
    loop_step W (w, RCheck q p, u) (w, RStarting q, u)"
| tr_stop: "IsValidTransition NewStateMachine (tState p) (tState q) \<Longrightarrow> tState q = Completed \<Longrightarrow>
    loop_step W (w, RCheck q p, u) (w, RStopping q, u)"
| tr_started: "StartTask W q w d = (res, w', d') \<Longrightarrow> loop_step W (w, RStarting q, u) (w', RIdle, u)"
| tr_stopped: "StopTask W q w d = (res, w', d') \<Longrightarrow> loop_step W (w, RStopping q, u) (w', RIdle, u)"
| tu_list: "listTasks W w = Inr ts \<Longrightarrow> loop_step W (w, r, UPass []) (w, r, UPass ts)"
| tu_skip: "tState t \<noteq> Running \<Longrightarrow> loop_step W (w, r, UPass (t # ts)) (w, r, UPass ts)"
| tu_inspect: "tState t = Running \<Longrightarrow> InspectTask W t d = (resp, d') \<Longrightarrow>
    loop_step W (w, r, UPass (t # ts)) (w, r, UInspected t resp ts)"
| tu_update: "loop_step W (w, r, UInspected t resp ts) (update_inspected W t resp w, r, UPass ts)"

inductive worker_step ::
  "('q, 's, 'd) wenv \<Rightarrow> ('q, 's) wconc \<Rightarrow> ('q, 's) wconc \<Rightarrow> bool"
  for W :: "('q, 's, 'd) wenv" where
  w_add: "worker_step W (w, r, u) (Worker_AddTask W t w, r, u)"
| w_loop: "loop_step W c c' \<Longrightarrow> worker_step W c c'"

lemmas w_stats = tw_stats [THEN w_loop]
lemmas r_next = tr_next [THEN w_loop]
lemmas r_seen = tr_seen [THEN w_loop]
lemmas r_unseen = tr_unseen [THEN w_loop]
lemmas r_put = tr_put [THEN w_loop]
lemmas r_refuse = tr_refuse [THEN w_loop]
lemmas r_start = tr_start [THEN w_loop]
lemmas r_stop = tr_stop [THEN w_loop]
lemmas r_started = tr_started [THEN w_loop]
lemmas r_stopped = tr_stopped [THEN w_loop]
lemmas u_list = tu_list [THEN w_loop]
lemmas u_skip = tu_skip [THEN w_loop]
lemmas u_inspect = tu_inspect [THEN w_loop]
lemmas u_update = tu_update [THEN w_loop]

inductive worker_run ::
  "('q, 's, 'd) wenv \<Rightarrow> ('q, 's) wconc \<Rightarrow> ('q, 's) wconc \<Rightarrow> bool"
  for W :: "('q, 's, 'd) wenv" where
  wrun_refl: "worker_run W c c"
| wrun_snoc: "worker_run W c c1 \<Longrightarrow> worker_step W c1 c2 \<Longrightarrow> worker_run W c c2"

text \<open>Runs of the two loops alone.\<close>

abbreviation wloops_run :: "('q, 's, 'd) wenv \<Rightarrow> ('q, 's) wconc \<Rightarrow> ('q, 's) wconc \<Rightarrow> bool" where
  "wloops_run W \<equiv> rtranclp (loop_step W)"

lemmas wloops_step = r_into_rtranclp [where r = "loop_step W" for W]
lemmas wloops_cons = converse_rtranclp_into_rtranclp [where r = "loop_step W" for W]
lemmas wloops_trans = rtranclp_trans [where r = "loop_step W" for W]

lemma InspectTask_container:
  "InspectTask W t d = (resp, d') \<Longrightarrow> diError resp = None \<Longrightarrow> \<exists>c. diContainer resp = Some c"
  by (auto simp: InspectTask_def Docker_Inspect_def split: sum.splits prod.splits)

section \<open>The invariant\<close>

context worker_env
begin

text \<open>What each thread relies on between its steps.\<close>

fun run_ok :: "('q, 's) Worker \<Rightarrow> run_pc \<Rightarrow> bool" where
  "run_ok w (RFresh q) = (stored held W w (tID q) = None)"
| "run_ok w (RCheck q p) = (\<exists>p'. stored held W w (tID q) = Some p' \<and> (tState p' = Completed \<longrightarrow> tState p = Completed))"
| "run_ok w (RStarting q) = (\<exists>p'. stored held W w (tID q) = Some p' \<and> tState p' \<noteq> Completed)"
| "run_ok w (RStopping q) = (\<exists>p'. stored held W w (tID q) = Some p' \<and> tState p' \<noteq> Completed)"
| "run_ok w _ = True"

fun update_ok :: "('q, 's) Worker \<Rightarrow> update_pc \<Rightarrow> bool" where
  "update_ok w (UPass ts) = (\<forall>t \<in> set ts. stored held W w (tID t) \<noteq> None)"
| "update_ok w (UInspected t resp ts) =
     ((\<forall>t \<in> set (t # ts). stored held W w (tID t) \<noteq> None) \<and>
      (diError resp = None \<longrightarrow> (\<exists>c. diContainer resp = Some c)))"

definition wconc_ok :: "('q, 's) wconc \<Rightarrow> bool" where
  "wconc_ok c \<longleftrightarrow> (case c of (w, r, u) \<Rightarrow> wf_worker held ok W w \<and> run_ok w r \<and> update_ok w u)"

text \<open>Records stay, and a completed one stays as it is.\<close>

definition keeps :: "('q, 's) Worker \<Rightarrow> ('q, 's) Worker \<Rightarrow> bool" where
  "keeps w w' \<longleftrightarrow> (\<forall>i p. stored held W w i = Some p \<longrightarrow>
     (\<exists>p'. stored held W w' i = Some p' \<and> (tState p = Completed \<longrightarrow> p' = p)))"

lemma keeps_same: "stored held W w' = stored held W w \<Longrightarrow> keeps w w'"
  by (simp add: keeps_def)

lemma keeps_trans: "keeps w w1 \<Longrightarrow> keeps w1 w2 \<Longrightarrow> keeps w w2"
  unfolding keeps_def by metis

lemma keeps_upsert:
  assumes "wf_worker held ok W w" and "stored held W w (tID b) = Some p" and "\<And>x. tID (f x) = tID x"
    and "tState p = Completed \<Longrightarrow> f p = p"
  shows "keeps w (upsertTask W b f w)"
  using assms upsertTask_stored [OF assms(1,3)] by (auto simp: keeps_def current_def)

lemma keeps_stored: "keeps w w' \<Longrightarrow> stored held W w i \<noteq> None \<Longrightarrow> stored held W w' i \<noteq> None"
  unfolding keeps_def by blast

lemma update_ok_keeps: "update_ok w u \<Longrightarrow> keeps w w' \<Longrightarrow> update_ok w' u"
  using keeps_stored [of w w'] by (cases u) (simp_all del: not_None_eq)

lemma ok_same:
  "stored held W w' = stored held W w \<Longrightarrow> run_ok w' r = run_ok w r"
  by (cases r) simp_all

lemma wconc_same:
  assumes "wconc_ok (w, r, u)" and "stored held W w' = stored held W w" and "wf_worker held ok W w'" and "run_ok w r'"
  shows "wconc_ok (w', r', u) \<and> keeps w w'"
  using assms ok_same [OF assms(2)] update_ok_keeps [OF _ keeps_same [OF assms(2)]] keeps_same [OF assms(2)]
  by (simp add: wconc_ok_def)

lemma update_inspected_effect:
  assumes wf: "wf_worker held ok W w" and u: "update_ok w (UInspected t resp ts)"
  shows "wf_worker held ok W (update_inspected W t resp w) \<and> keeps w (update_inspected W t resp w) \<and>
    (\<forall>i. stored held W w i = None \<longrightarrow> stored held W (update_inspected W t resp w) i = None) \<and>
    (\<forall>i p. stored held W w i = Some p \<longrightarrow> tState p \<noteq> Completed \<longrightarrow>
       (\<exists>p'. stored held W (update_inspected W t resp w) i = Some p' \<and> tState p' \<noteq> Completed))"
proof (cases "diError resp")
  case None
  then obtain c where c: "diContainer resp = Some c" using u by auto
  let ?f = "refresh (irPorts c) (irStatus c = ''exited'')"
  obtain p where p: "stored held W w (tID t) = Some p" using u by auto
  have w': "update_inspected W t resp w = upsertTask W t ?f w" by (simp add: update_inspected_def None c)
  have st: "stored held W (upsertTask W t ?f w) = (stored held W w)(tID t \<mapsto> ?f p)"
    using upsertTask_stored(1) [OF wf, of ?f t] p by (simp add: current_def)
  have "keeps w (upsertTask W t ?f w)" by (rule keeps_upsert [OF wf p]) simp_all
  moreover have "wf_worker held ok W (upsertTask W t ?f w)" by (rule upsertTask_stored(2) [OF wf]) simp
  moreover have "tState p \<noteq> Completed \<Longrightarrow> tState (?f p) \<noteq> Completed" by (simp add: refresh_state)
  ultimately show ?thesis unfolding w' st using p by auto
qed (use wf in \<open>simp add: update_inspected_def keeps_same\<close>)

lemma run_ok_mono:
  assumes "run_ok w r"
    and "\<forall>i. stored held W w i = None \<longrightarrow> stored held W w' i = None"
    and "\<forall>i p. stored held W w i = Some p \<longrightarrow> tState p \<noteq> Completed \<longrightarrow>
           (\<exists>p'. stored held W w' i = Some p' \<and> tState p' \<noteq> Completed)"
    and "keeps w w'"
  shows "run_ok w' r"
  using assms by (cases r) (fastforce simp: keeps_def)+

lemma StartTask_effect:
  assumes "wf_worker held ok W w" and "StartTask W q w d = (res, w', d')"
    and "stored held W w (tID q) = Some p" and "tState p \<noteq> Completed"
  shows "wf_worker held ok W w' \<and> keeps w w'"
  using assms(2)
proof (cases rule: StartTask_cases)
  case (failed s e)
  then show ?thesis
    using upsertTask_stored(2) [OF assms(1), of "start_failed s" q] keeps_upsert [OF assms(1,3), of "start_failed s"] assms(4)
    by simp
next
  case (started s h)
  let ?f = "start_succeeded s (drContainerId res) h"
  show ?thesis
    using started upsertTask_stored(2) [OF assms(1), of ?f q] keeps_upsert [OF assms(1,3), of ?f] assms(4) by simp
qed

lemma StopTask_effect:
  assumes "wf_worker held ok W w" and "StopTask W q w d = (res, w', d')"
    and "stored held W w (tID q) = Some p" and "tState p \<noteq> Completed"
  shows "wf_worker held ok W w' \<and> keeps w w'"
  using assms(2)
proof (cases rule: StopTask_cases)
  case (failed e)
  then show ?thesis using assms(1) by (simp add: keeps_same)
next
  case (stopped f)
  then show ?thesis
    using upsertTask_stored(2) [OF assms(1), of "stop_succeeded f" q] keeps_upsert [OF assms(1,3), of "stop_succeeded f"] assms(4)
    by simp
qed

lemma putTask_fresh:
  assumes "wf_worker held ok W w" and "stored held W w (tID q) = None"
  shows "wf_worker held ok W (putTask W q w)" "stored held W (putTask W q w) = (stored held W w)(tID q \<mapsto> q)"
    "keeps w (putTask W q w)"
  using putTask_stored [OF assms(1), of q] assms(2) by (auto simp: putTask_def keeps_def)

lemma loop_step_keeps:
  assumes "loop_step W c c'" and "wconc_ok c"
  shows "wconc_ok c' \<and> keeps (fst c) (fst c')"
  using assms
proof (induction rule: loop_step.induct)
  case (tw_stats w r u pr)
  have "wconc_ok (CollectStats_round W pr w, r, u) \<and> keeps w (CollectStats_round W pr w)"
    by (rule wconc_same [OF tw_stats]) (use tw_stats in \<open>simp_all add: CollectStats_round_def wconc_ok_def\<close>)
  then show ?case by simp
next
  case (tr_next w q w' u)
  have "wconc_ok (w', RGot q, u) \<and> keeps w w'"
    by (rule wconc_same [OF tr_next(2)])
      (use tr_next(2) dequeueTask_only(1,2) [OF tr_next(1)] in \<open>simp_all add: wconc_ok_def\<close>)
  then show ?case by simp
next
  case (tr_seen q w p u)
  then show ?case by (auto simp: wconc_ok_def keeps_same lookupTask_def lookupTask_stored)
next
  case (tr_unseen q w u)
  then show ?case by (auto simp: wconc_ok_def keeps_same lookupTask_def lookupTask_stored)
next
  case (tr_put w q u)
  then have "wf_worker held ok W w" "stored held W w (tID q) = None" "update_ok w u" by (simp_all add: wconc_ok_def)
  with putTask_fresh [of w q] show ?case using update_ok_keeps by (auto simp: wconc_ok_def)
next
  case (tr_started q w d res w' d' u)
  then show ?case using StartTask_effect update_ok_keeps by (fastforce simp: wconc_ok_def)
next
  case (tr_stopped q w d res w' d' u)
  then show ?case using StopTask_effect update_ok_keeps by (fastforce simp: wconc_ok_def)
next
  case (tu_list w ts r)
  have ok: "ok (wDb w)" using tu_list(2) by (simp add: wconc_ok_def wf_worker_def)
  have l: "List (we_store W) (wDb w) = Inr ts" using tu_list(1) by (auto simp: listTasks_def split: sum.splits)
  have "stored held W w (tID t) \<noteq> None" if "t \<in> set ts" for t
    using ts.List_held [OF ok l that] tu_list(2) by (auto simp: wconc_ok_def wf_worker_def stored_def)
  with tu_list show ?case by (auto simp: wconc_ok_def keeps_same)
next
  case (tu_inspect t d resp d' w r ts)
  then show ?case using InspectTask_container by (auto simp: wconc_ok_def keeps_same)
next
  case (tu_update w r t resp ts)
  then have wf: "wf_worker held ok W w" "update_ok w (UInspected t resp ts)" "run_ok w r" by (simp_all add: wconc_ok_def)
  note e = update_inspected_effect [OF wf(1,2)]
  have "run_ok (update_inspected W t resp w) r" 
    by (rule run_ok_mono [OF wf(3) conjunct1 [OF conjunct2 [OF conjunct2 [OF e]]]
          conjunct2 [OF conjunct2 [OF conjunct2 [OF e]]] conjunct1 [OF conjunct2 [OF e]]])
  moreover have "update_ok (update_inspected W t resp w) (UPass ts)"
    using wf(2) by (intro update_ok_keeps [OF _ conjunct1 [OF conjunct2 [OF e]]]) simp
  ultimately show ?case using e by (simp add: wconc_ok_def)
qed (auto simp: wconc_ok_def keeps_same)

lemma worker_step_keeps:
  assumes "worker_step W c c'" and "wconc_ok c"
  shows "wconc_ok c' \<and> keeps (fst c) (fst c')"
  using assms
proof (induction rule: worker_step.induct)
  case (w_add w r u t)
  have "wconc_ok (Worker_AddTask W t w, r, u) \<and> keeps w (Worker_AddTask W t w)"
    by (rule wconc_same [OF w_add]) (use w_add in \<open>simp_all add: Worker_AddTask_def wconc_ok_def\<close>)
  then show ?case by simp
qed (rule loop_step_keeps)

lemma worker_run_keeps:
  "worker_run W c c' \<Longrightarrow> wconc_ok c \<Longrightarrow> wconc_ok c' \<and> keeps (fst c) (fst c')"
proof (induction rule: worker_run.induct)
  case (wrun_snoc c c1 c2)
  then show ?case using worker_step_keeps keeps_trans by blast
qed (simp add: keeps_same)

subsection \<open>Whole rounds are runs of the loops\<close>

lemma RunTask_loops:
  assumes "RunTask W w d = (res, w', d')" and "dequeueTask W w = (Some q, w1)"
  shows "wloops_run W (w, RIdle, u) (w', RIdle, u)"
proof -
  obtain p w2 where pw: "(p, w2) = (case lookupTask W (tID q) w1 of Some t \<Rightarrow> (t, w1) | None \<Rightarrow> (q, putTask W q w1))"
    and run: "if valid_edge (tState p) (tState q) \<and> tState q = Scheduled then StartTask W q w2 d = (res, w', d')
       else if valid_edge (tState p) (tState q) \<and> tState q = Completed then StopTask W q w2 d = (res, w', d')
       else w' = w2 \<and> d' = d \<and> drError res \<noteq> None"
    using assms(1) by (cases rule: RunTask_cases) (use assms(2) in auto)
  have "wloops_run W (w1, RGot q, u) (w2, RCheck q p, u)"
  proof (cases "lookupTask W (tID q) w1")
    case None
    then show ?thesis
      using pw None wloops_cons [OF tr_unseen [OF None] wloops_step [OF tr_put]] by auto
  next
    case (Some t)
    then show ?thesis using pw by (auto intro: wloops_step tr_seen)
  qed
  moreover have "wloops_run W (w2, RCheck q p, u) (w', RIdle, u)"
    using run by (auto split: if_splits intro: wloops_step tr_refuse
        wloops_cons [OF tr_start wloops_step [OF tr_started]]
        wloops_cons [OF tr_stop wloops_step [OF tr_stopped]])
  ultimately show ?thesis
    by (rule wloops_cons [OF tr_next [OF assms(2)] wloops_trans])
qed

lemma RunTasks_round_loops:
  assumes "RunTasks_round W w d = (w', d')"
  shows "wloops_run W (w, RIdle, u) (w', RIdle, u)"
proof (cases "queueLen W w = 0")
  case False
  obtain r w1 where q: "dequeueTask W w = (r, w1)" by fastforce
  have "r \<noteq> None" using dequeueTask_only(3) [OF q] False by (cases r) (auto simp: queueLen_def)
  then show ?thesis using assms False q RunTask_loops [of w d] by (auto simp: RunTasks_round_def split: prod.splits)
qed (use assms in \<open>simp add: RunTasks_round_def\<close>)

lemma updateTasks_loop_loops:
  "updateTasks_loop W ts w d = (w', d') \<Longrightarrow> wloops_run W (w, r, UPass ts) (w', r, UPass [])"
proof (induction ts arbitrary: w d)
  case (Cons t ts)
  show ?case
  proof (cases "tState t = Running")
    case True
    obtain resp d1 where i: "InspectTask W t d = (resp, d1)" by fastforce
    then have "updateTasks_loop W ts (update_inspected W t resp w) d1 = (w', d')" using Cons.prems True by simp
    from Cons.IH [OF this] show ?thesis
      by (rule wloops_cons [OF tu_inspect [OF True i] wloops_cons [OF tu_update]])
  next
    case False
    then have "updateTasks_loop W ts w d = (w', d')" using Cons.prems by simp
    from Cons.IH [OF this] show ?thesis by (rule wloops_cons [OF tu_skip [OF False]])
  qed
qed simp

lemma Worker_updateTasks_loops:
  assumes "Worker_updateTasks W w d = (w', d')"
  shows "wloops_run W (w, r, UPass []) (w', r, UPass [])"
proof (cases "listTasks W w")
  case (Inr ts)
  then have "updateTasks_loop W ts w d = (w', d')" using assms by (simp add: Worker_updateTasks_def)
  from updateTasks_loop_loops [OF this] show ?thesis by (rule wloops_cons [OF tu_list [OF Inr]])
qed (use assms in \<open>simp add: Worker_updateTasks_def\<close>)

end

section \<open>Shutdown\<close>

text \<open>What a stop can do to a record.\<close>

definition stopped_from :: "Task \<Rightarrow> Task \<Rightarrow> bool" where
  "stopped_from t t' \<longleftrightarrow> t' = t \<or> tContainerID t \<noteq> '''' \<and> (\<exists>f. t' = stop_succeeded f t)"

definition stops_succeed :: "('q, 's, 'd) wenv \<Rightarrow> bool" where
  "stops_succeed W \<longleftrightarrow> (\<forall>q w d. drError (fst (StopTask W q w d)) = None)"

context worker_env
begin

lemma Shutdown_loop_effect:
  assumes "wf_worker held ok W w" and "distinct (map tID ts)" and "\<forall>t \<in> set ts. stored held W w (tID t) = Some t"
    and "Shutdown_loop W ts w d = (w', d')"
  shows "wf_worker held ok W w' \<and> (\<forall>i. i \<notin> tID ` set ts \<longrightarrow> stored held W w' i = stored held W w i) \<and>
    (\<forall>t \<in> set ts. \<exists>t'. stored held W w' (tID t) = Some t' \<and> stopped_from t t' \<and>
       (stops_succeed W \<and> tContainerID t \<noteq> '''' \<longrightarrow> tState t' = Completed))"
  using assms
proof (induction ts arbitrary: w d)
  case (Cons t ts)
  let ?G = "\<lambda>w0. wf_worker held ok W w' \<and> (\<forall>i. i \<notin> tID ` set ts \<longrightarrow> stored held W w' i = stored held W w0 i) \<and>
    (\<forall>t \<in> set ts. \<exists>t'. stored held W w' (tID t) = Some t' \<and> stopped_from t t' \<and>
       (stops_succeed W \<and> tContainerID t \<noteq> '''' \<longrightarrow> tState t' = Completed))"
  have t: "stored held W w (tID t) = Some t" "tID t \<notin> tID ` set ts" using Cons.prems(2,3) by auto
  show ?case
  proof (cases "tContainerID t = '''' \<or> tState t = Completed")
    case True
    then have "Shutdown_loop W ts w d = (w', d')" using Cons.prems(4) by simp
    then have "?G w" using Cons.prems by (intro Cons.IH) auto
    with t True show ?thesis by (auto simp: stopped_from_def)
  next
    case False
    obtain res w1 d1 where st: "StopTask W (t\<lparr>tState := Completed\<rparr>) w d = (res, w1, d1)" by (metis surj_pair)
    then have rest: "Shutdown_loop W ts w1 d1 = (w', d')" using Cons.prems(4) False by simp
    from st have "wf_worker held ok W w1 \<and> (\<exists>t'. stored held W w1 = (stored held W w)(tID t \<mapsto> t') \<and> stopped_from t t' \<and>
        (stops_succeed W \<longrightarrow> tState t' = Completed))"
    proof (cases rule: StopTask_cases)
      case (failed e)
      then have "\<not> stops_succeed W" using st unfolding stops_succeed_def by (metis fst_conv option.distinct(1))
      moreover have "stored held W w1 = (stored held W w)(tID t \<mapsto> t)" using failed(1) t(1) by (simp add: fun_upd_idem)
      ultimately show ?thesis using failed Cons.prems(1) unfolding stopped_from_def by blast
    next
      case (stopped f)
      have "stored held W w1 = (stored held W w)(tID t \<mapsto> stop_succeeded f t)"
        using stopped(1) upsertTask_stored(1) [OF Cons.prems(1), of "stop_succeeded f" "t\<lparr>tState := Completed\<rparr>"] t(1)
        by (simp add: current_def)
      with stopped upsertTask_stored(2) [OF Cons.prems(1), of "stop_succeeded f"] False show ?thesis
        by (auto simp: stopped_from_def)
    qed
    then obtain t' where w1: "wf_worker held ok W w1" "stored held W w1 = (stored held W w)(tID t \<mapsto> t')"
      "stopped_from t t'" "stops_succeed W \<longrightarrow> tState t' = Completed" by blast
    have "\<forall>x \<in> set ts. stored held W w1 (tID x) = Some x"
      using Cons.prems(3) t(2) unfolding w1(2) by (metis fun_upd_other image_eqI list.set_intros(2))
    then have g: "?G w1" using Cons.prems(2) by (intro Cons.IH [OF w1(1) _ _ rest]) simp_all
    then have "stored held W w' (tID t) = Some t'" using t(2) w1(2) by simp
    with g w1 show ?thesis by simp
  qed
qed simp

end

section \<open>Properties\<close>

text \<open>
  C18. \<open>Completed\<close> is final on the worker under every interleaving of the run loop, the update
  loop, statistics and the API, whatever Docker does: no record ever goes away, and a record
  that is \<open>Completed\<close> is never changed again, in particular not by an update pass that
  inspected the container while the task was being stopped.
\<close>

theorem worker_completed_is_final:
  assumes W: "in_memory_worker W items" and wf: "mem_wf W w"
    and run: "worker_run W (w, RIdle, UPass []) (w', r, u)"
    and p: "mem_stored W w i = Some p"
  shows "\<exists>p'. mem_stored W w' i = Some p' \<and> (tState p = Completed \<longrightarrow> p' = p)"
proof -
  have E: "worker_env W InMemory_held InMemory_ok (\<lambda>q. items (inner q))"
    using W by (rule in_memory_worker_env)
  have "worker_env.wconc_ok W InMemory_held InMemory_ok (w, RIdle, UPass [])"
    using wf by (simp add: worker_env.wconc_ok_def [OF E] worker_env.run_ok.simps [OF E] worker_env.update_ok.simps [OF E])
  from worker_env.worker_run_keeps [OF E run this] p show ?thesis
    by (simp add: worker_env.keeps_def [OF E])
qed

abbreviation calm_docker :: "string list docker_client" where
  "calm_docker \<equiv> logging_client (\<lambda>_. False) \<lparr>irStatus = ''running'', irPorts = None\<rparr>"

abbreviation calm :: "(Task list, Task InMemory, string list) wenv" where
  "calm \<equiv> mem_wenv calm_docker (\<lambda>d. (7, d))"

theorem worker_completed_is_final_witness:
  "\<exists>w'. worker_run calm (worker_with [zero_Task\<lparr>tState := Completed\<rparr>] [], RIdle, UPass []) (w', RIdle, UPass []) \<and>
     mem_stored calm w' 0 = Some (zero_Task\<lparr>tState := Completed\<rparr>)"
proof -
  let ?t = "zero_Task\<lparr>tState := Completed\<rparr>"
  let ?w = "worker_with [?t] []"
  have "listTasks calm ?w = Inr [?t]"
    by (simp add: listTasks_def mem_wenv_def worker_with_def InMemory_defs)
  then have "worker_run calm (?w, RIdle, UPass []) (?w, RIdle, UPass [?t])"
    by (intro wrun_snoc [OF wrun_refl] u_list)
  then have run: "worker_run calm (?w, RIdle, UPass []) (?w, RIdle, UPass [])"
    by (rule wrun_snoc) (rule u_skip, simp)
  have "mem_wf calm ?w" by (rule worker_with_wf) simp
  moreover have "mem_stored calm ?w 0 = Some ?t"
    by (simp add: stored_def mem_wenv_def worker_with_def InMemory_held_def zero_Task_def)
  ultimately show ?thesis
    using worker_completed_is_final [OF in_memory_mem_wenv _ run] run by fastforce
qed

section \<open>Shutting down\<close>

lemma Shutdown_effect:
  assumes W: "in_memory_worker W items" and wf: "mem_wf W w" and s: "Shutdown W w d = (w', d')"
  shows "mem_wf W w' \<and> (\<forall>i. case mem_stored W w i of
      None \<Rightarrow> mem_stored W w' i = None
    | Some t \<Rightarrow> \<exists>t'. mem_stored W w' i = Some t' \<and> stopped_from t t' \<and>
        (stops_succeed W \<and> tContainerID t \<noteq> '''' \<longrightarrow> tState t' = Completed))"
proof -
  have E: "worker_env W InMemory_held InMemory_ok (\<lambda>q. items (inner q))"
    using W by (rule in_memory_worker_env)
  have st: "total_store (we_store W) InMemory_held InMemory_ok" by (rule worker_env.store [OF E])
  then obtain ts where l: "List (we_store W) (wDb w) = Inr ts" using total_store.List_total [OF st, of "wDb w"] by blast
  have c: "store_contract (we_store W) InMemory_held InMemory_ok" using st by (simp add: total_store_def)
  have ok: "InMemory_ok (wDb w)" using wf by (simp add: wf_worker_def)
  have "distinct (map (\<lambda>t. we_uuid_String W (tID t)) ts) \<and>
      (\<forall>t \<in> set ts. InMemory_held (wDb w) (we_uuid_String W (tID t)) = Some t)"
    using wf by (intro store_contract.List_distinct_keys [OF c ok l]) (auto simp: wf_worker_def)
  then have ts: "distinct (map tID ts)" "\<forall>t \<in> set ts. mem_stored W w (tID t) = Some t"
    by (auto simp: distinct_map inj_on_def stored_def)
  have all: "t \<in> set ts" if t: "mem_stored W w i = Some t" for i t
  proof -
    obtain ks where ks: "set ks = dom (InMemory_held (wDb w))" "map Some ts = map (InMemory_held (wDb w)) ks"
      using store_contract.List_Inr [OF c ok l] by blast
    have "we_uuid_String W i \<in> set ks" using t ks(1) by (auto simp: stored_def)
    then have "Some t \<in> set (map (InMemory_held (wDb w)) ks)" using t by (force simp: stored_def)
    then show ?thesis using ks(2) by (metis (no_types, lifting) image_iff list.set_map option.inject)
  qed
  obtain w1 d1 where loop: "Shutdown_loop W ts w d = (w1, d1)" by fastforce
  have w': "w' = snd (Worker_Close W w1)"
    using s l loop by (simp add: Shutdown_def Worker_GetTasks_def listTasks_def)
  obtain order where "we_store W = InMemory_store order" using W by (auto simp: in_memory_worker_def)
  then have "w' = w1" using w' by (simp add: Worker_Close_def InMemory_store_def InMemory_Close_def)
  note L = worker_env.Shutdown_loop_effect [OF E wf ts loop, folded \<open>w' = w1\<close>]
  have "case mem_stored W w i of
      None \<Rightarrow> mem_stored W w' i = None
    | Some t \<Rightarrow> \<exists>t'. mem_stored W w' i = Some t' \<and> stopped_from t t' \<and>
        (stops_succeed W \<and> tContainerID t \<noteq> '''' \<longrightarrow> tState t' = Completed)" for i
  proof (cases "mem_stored W w i")
    case None
    then have "i \<notin> tID ` set ts" using ts(2) by auto
    with L None show ?thesis by simp
  next
    case (Some t)
    then have "tID t = i" using worker_env.stored_ID [OF E wf] by blast
    with L all [OF Some] Some show ?thesis by auto
  qed
  then show ?thesis using L by blast
qed

text \<open>
  Shutting down stops what runs: for every behaviour of Docker each record is left as it
  was or, if it has a container, marked \<open>Completed\<close> with a finish time; and when every stop
  succeeds, every task with a container ends \<open>Completed\<close>. The other records stay.
\<close>

theorem Shutdown_stops_all:
  assumes W: "in_memory_worker W items" and wf: "mem_wf W w" and s: "Shutdown W w d = (w', d')"
  shows "mem_wf W w' \<and> (\<forall>i. case mem_stored W w i of
      None \<Rightarrow> mem_stored W w' i = None
    | Some t \<Rightarrow> \<exists>t'. mem_stored W w' i = Some t' \<and> stopped_from t t' \<and>
        (stops_succeed W \<and> tContainerID t \<noteq> '''' \<longrightarrow> tState t' = Completed))"
  by (rule Shutdown_effect [OF assms])

lemma calm_stops: "stops_succeed calm"
  by (simp add: stops_succeed_def StopTask_def mem_wenv_def NewDocker_def Docker_Stop_def logging_client_def
      NewDockerResult_def)

theorem Shutdown_stops_all_witness:
  "\<exists>t'. mem_stored calm (fst (Shutdown calm (worker_with [zero_Task\<lparr>tState := Running, tContainerID := ''c''\<rparr>] []) [])) 0 = Some t' \<and>
     tState t' = Completed"
proof -
  let ?t = "zero_Task\<lparr>tState := Running, tContainerID := ''c''\<rparr>"
  let ?w = "worker_with [?t] []"
  obtain w' d' where s: "Shutdown calm ?w [] = (w', d')" by fastforce
  have wf: "mem_wf calm ?w" by (rule worker_with_wf) simp
  have "mem_stored calm ?w 0 = Some ?t"
    by (simp add: stored_def mem_wenv_def worker_with_def InMemory_held_def zero_Task_def)
  with Shutdown_stops_all [OF in_memory_mem_wenv wf s, THEN conjunct2, THEN spec, of 0] s calm_stops show ?thesis
    by auto
qed

text \<open>
  C27. Shutting down does not wait for the run loop: a task whose container is being created when
  the signal arrives has no container identifier in its record yet, so \<open>Shutdown\<close> skips it, and
  the start that is under way completes afterwards: the record ends \<open>Running\<close>, and the container
  outlives the worker.
\<close>

theorem Shutdown_misses_starting_task:
  assumes W: "in_memory_worker W items" and wf: "mem_wf W w"
    and p: "mem_stored W w (tID q) = Some p" "tContainerID p = ''''"
    and s: "Shutdown W w d = (w', d')" and ok: "drError (fst (StartTask W q w' d')) = None"
  shows "mem_stored W w' (tID q) = Some p \<and> (\<exists>w2 t. worker_step W (w', RStarting q, u) (w2, RIdle, u) \<and>
    mem_stored W w2 (tID q) = Some t \<and> tState t = Running)"
proof -
  have E: "worker_env W InMemory_held InMemory_ok (\<lambda>q. items (inner q))" using W by (rule in_memory_worker_env)
  note eff = Shutdown_effect [OF W wf s]
  have left: "mem_stored W w' (tID q) = Some p"
    using eff [THEN conjunct2, THEN spec, of "tID q"] p by (auto simp: stopped_from_def)
  obtain r w2 d2 where st: "StartTask W q w' d' = (r, w2, d2)" by (metis surj_pair)
  from st show ?thesis
  proof (cases rule: StartTask_cases)
    case (failed t e)
    then show ?thesis using ok st by simp
  next
    case (started t h)
    have wf': "mem_wf W w'" using eff by blast
    have "mem_stored W w2 (tID q) = Some (start_succeeded t (drContainerId r) h
        (worker_env.current W InMemory_held q w'))"
      using worker_env.upsertTask_stored(1) [OF E wf', of "start_succeeded t (drContainerId r) h" q] started(1) by simp
    then show ?thesis using r_started [OF st, of u] left by (metis callbacks_state(2))
  qed
qed

theorem Shutdown_misses_starting_task_witness:
  "let q = zero_Task\<lparr>tState := Scheduled\<rparr> in
   \<exists>w2 t. worker_step calm (fst (Shutdown calm (worker_with [q] []) []), RStarting q, UPass []) (w2, RIdle, UPass []) \<and>
     mem_stored calm w2 0 = Some t \<and> tState t = Running"
proof -
  let ?q = "zero_Task\<lparr>tState := Scheduled\<rparr>"
  let ?w = "worker_with [?q] []"
  obtain w' d' where s: "Shutdown calm ?w [] = (w', d')" by fastforce
  have wf: "mem_wf calm ?w" by (rule worker_with_wf) simp
  have p: "mem_stored calm ?w (tID ?q) = Some ?q" "tContainerID ?q = ''''"
    by (simp_all add: stored_def mem_wenv_def worker_with_def InMemory_held_def zero_Task_def)
  have "drError (fst (StartTask calm ?q w' d')) = None"
    by (simp add: StartTask_def mem_wenv_def zero_Task_def NewDocker_def Docker_Run_def Docker_Inspect_def
        logging_client_def NewDockerResult_def create_options_def NewConfig_def Let_def)
  from Shutdown_misses_starting_task [OF in_memory_mem_wenv wf p s this, of "UPass []", THEN conjunct2] s show ?thesis
    by (simp add: Let_def zero_Task_def del: worker_step.simps)
qed

text \<open>
  C34. A read error is taken for a missing task: when a stop is taken off the queue and the store
  cannot be read at that moment, \<open>RunTask\<close> writes the stop's copy over the record, reports an
  invalid transition and never asks Docker to stop anything; the record says \<open>Completed\<close> although
  the container runs on, and \<open>Shutdown\<close> skips it.
\<close>

theorem read_error_completes_without_stop:
  assumes store: "store_contract (we_store W) held ok" and que: "queue (we_queue W) contents"
    and w: "ok (wDb w)" "contents (wQueue w) = q # qs" "tState q = Completed"
    and err: "Get (we_store W) (we_uuid_String W (tID q)) (wDb w) = Inl e" "\<not> errors_Is e ErrNotFound"
    and put: "fst (Put (we_store W) (we_uuid_String W (tID q)) q (wDb w)) = None"
  shows "\<exists>r w'. RunTask W w d = (r, w', d) \<and> drError r \<noteq> None \<and>
    stored held W w' (tID q) = Some q \<and> Shutdown_loop W [q] w' d = (w', d)"
proof -
  obtain w1 where d: "dequeueTask W w = (Some q, w1)" "wDb w1 = wDb w"
    using queue.Dequeue_front [OF que, of "wQueue w" q] w(2) by (cases "Dequeue (we_queue W) (wQueue w)") (auto simp: dequeueTask_def)
  have "lookupTask W (tID q) w1 = None" using err(1) d(2) by (simp add: lookupTask_def lookupTaskLocked_def)
  then have run: "\<exists>r. RunTask W w d = (r, putTask W q w1, d) \<and> drError r \<noteq> None"
    using d(1) w(3) by (simp add: RunTask_def docker_result_defs)
  obtain s where "Put (we_store W) (we_uuid_String W (tID q)) q (wDb w) = (None, s)" using put by (metis prod.collapse)
  then have "stored held W (putTask W q w1) (tID q) = Some q"
    using store_contract.Put_cases [OF store w(1)] d(2) by (fastforce simp: putTask_def putTaskLocked_def stored_def)
  with run w(3) show ?thesis by auto
qed

lemma unreadable_store:
  assumes "store_contract S held ok"
  shows "store_contract (S\<lparr>Get := \<lambda>k s. Inl (External x)\<rparr>) held ok"
proof (rule store_contract.intro)
  note laws = store_contract.Put_None [OF assms] store_contract.Put_Some [OF assms]
    store_contract.List_Inr [OF assms] store_contract.Count_Inr [OF assms]
  show "ok s' \<and> held s' = (held s)(k \<mapsto> v)" if "ok s" "Put (S\<lparr>Get := \<lambda>k s. Inl (External x)\<rparr>) k v s = (None, s')" for s k v s'
    using laws(1) that by auto
  show "ok s' \<and> held s' = held s" if "ok s" "Put (S\<lparr>Get := \<lambda>k s. Inl (External x)\<rparr>) k v s = (Some e, s')" for s k v e s'
    using laws(2) that by auto
  show "\<exists>ks. distinct ks \<and> set ks = dom (held s) \<and> map Some xs = map (held s) ks"
    if "ok s" "List (S\<lparr>Get := \<lambda>k s. Inl (External x)\<rparr>) s = Inr xs" for s xs
    using laws(3) that by auto
  show "n = int (card (dom (held s)))" if "ok s" "Count (S\<lparr>Get := \<lambda>k s. Inl (External x)\<rparr>) s = Inr n" for s n
    using laws(4) that by auto
qed auto

theorem read_error_completes_without_stop_witness:
  "let p = zero_Task\<lparr>tState := Running, tContainerID := ''c''\<rparr>; q = p\<lparr>tState := Completed\<rparr>;
       W = calm\<lparr>we_store := (InMemory_store (\<lambda>xs. xs))\<lparr>Get := \<lambda>k s. Inl (External ''input/output error'')\<rparr>\<rparr> in
   \<exists>r w'. RunTask W (worker_with [p] [q]) [] = (r, w', []) \<and> drError r \<noteq> None \<and> stored InMemory_held W w' 0 = Some q"
proof -
  let ?p = "zero_Task\<lparr>tState := Running, tContainerID := ''c''\<rparr>"
  let ?q = "?p\<lparr>tState := Completed\<rparr>"
  let ?S = "(InMemory_store (\<lambda>xs. xs :: (string \<times> Task) list))\<lparr>Get := \<lambda>k s. Inl (External ''input/output error'')\<rparr>"
  have t: "store_contract (InMemory_store (\<lambda>xs. xs :: (string \<times> Task) list)) InMemory_held InMemory_ok"
    by (rule total_store.axioms(1) [OF InMemory_total_store [OF iteration_order_id]])
  let ?W = "calm\<lparr>we_store := ?S\<rparr>" and ?w = "worker_with [?p] [?q]"
  have st: "store_contract (we_store ?W) InMemory_held InMemory_ok"
    using unreadable_store [OF t] by simp
  have qu: "queue (we_queue ?W) inner" using wrapper_is_queue [OF list_collq_fifo] by (simp add: mem_wenv_def)
  have w: "InMemory_ok (wDb ?w)" "inner (wQueue ?w) = ?q # []" "tState ?q = Completed"
    by (simp_all add: worker_with_def InMemory_ok_def)
  have g: "Get (we_store ?W) (we_uuid_String ?W (tID ?q)) (wDb ?w) = Inl (External ''input/output error'')"
    "\<not> errors_Is (External ''input/output error'') ErrNotFound" by simp_all
  have pu: "fst (Put (we_store ?W) (we_uuid_String ?W (tID ?q)) ?q (wDb ?w)) = None"
    using total_store.Put_total [OF InMemory_total_store [OF iteration_order_id]] by simp
  have "tID ?q = 0" by (simp add: zero_Task_def)
  with read_error_completes_without_stop [OF st qu w g pu, of "[]"] show ?thesis unfolding Let_def by metis
qed

end
