(* ===== verification/Orch_Shutdown.thy ===== *)
theory Orch_Shutdown
  imports Orch_Worker_Loops
begin

text \<open>
  A worker that goes down while its run loop is in a round. The worker command does not wait for the
  goroutine of \<open>RunTasks\<close>: the round that is under way when the signal arrives goes on beside
  \<open>Shutdown\<close>. The run loop is executed one critical section or Docker operation at a time
  (\<open>run_step\<close>), which are the steps of \<open>loop_step\<close>, and its last steps are taken between those
  of \<open>Shutdown\<close> (\<open>Shutdown_beside\<close>).
\<close>

section \<open>The run loop step by step\<close>

fun run_step :: "('q, 's, 'd) wenv \<Rightarrow> ('q, 's) Worker \<times> run_pc \<times> 'd \<Rightarrow> ('q, 's) Worker \<times> run_pc \<times> 'd" where
  "run_step W (w, RIdle, d) =
     (if queueLen W w \<noteq> 0
      then (case dequeueTask W w of (Some q, w1) \<Rightarrow> (w1, RGot q, d) | (None, w1) \<Rightarrow> (w1, RIdle, d))
      else (w, RIdle, d))"
| "run_step W (w, RGot q, d) = (w, (case lookupTask W (tID q) w of Some p \<Rightarrow> RCheck q p | None \<Rightarrow> RFresh q), d)"
| "run_step W (w, RFresh q, d) = (putTask W q w, RCheck q q, d)"
| "run_step W (w, RCheck q p, d) =
     (w, (if \<not> IsValidTransition NewStateMachine (tState p) (tState q) then RIdle
          else if tState q = Scheduled then RStarting q
          else if tState q = Completed then RStopping q
          else RIdle), d)"
| "run_step W (w, RStarting q, d) = (let (result, w1, d1) = StartTask W q w d in (w1, RIdle, d1))"
| "run_step W (w, RStopping q, d) = (let (result, w1, d1) = StopTask W q w d in (w1, RIdle, d1))"

text \<open>
  After the signal the loop ends with its round: its next \<open>select\<close> finds \<open>done\<close> closed. A round
  whose \<open>select\<close> came before is taken to have its task off the queue by then; nothing that goes on
  beside it touches the queue.
\<close>

primrec finish_steps ::
  "('q, 's, 'd) wenv \<Rightarrow> nat \<Rightarrow> ('q, 's) Worker \<times> run_pc \<times> 'd \<Rightarrow> ('q, 's) Worker \<times> run_pc \<times> 'd" where
  "finish_steps W 0 x = x"
| "finish_steps W (Suc n) x = (if fst (snd x) = RIdle then x else finish_steps W n (run_step W x))"

section \<open>Shutdown beside the run loop\<close>

text \<open>
  \<open>ks\<close> says how many steps of the run loop come before \<open>Shutdown\<close> lists the tasks, before each task
  of its loop and before it closes the store.
\<close>

fun next_of :: "nat list \<Rightarrow> nat" where
  "next_of [] = 0"
| "next_of (k # ks) = k"

fun Shutdown_loop_beside ::
  "('q, 's, 'd) wenv \<Rightarrow> nat list \<Rightarrow> Task list \<Rightarrow> ('q, 's) Worker \<times> run_pc \<times> 'd \<Rightarrow> ('q, 's) Worker \<times> run_pc \<times> 'd" where
  "Shutdown_loop_beside W ks [] x = finish_steps W (next_of ks) x"
| "Shutdown_loop_beside W ks (t # ts) x =
     (let (w, r, d) = finish_steps W (next_of ks) x;
          (w1, d1) = Shutdown_loop W [t] w d
      in Shutdown_loop_beside W (tl ks) ts (w1, r, d1))"

definition Shutdown_beside ::
  "('q, 's, 'd) wenv \<Rightarrow> nat list \<Rightarrow> ('q, 's) Worker \<times> run_pc \<times> 'd \<Rightarrow> ('q, 's) Worker \<times> 'd" where
  "Shutdown_beside W ks x =
     (let (w, r, d) = finish_steps W (next_of ks) x;
          tasks = (case Worker_GetTasks W w of Inl err \<Rightarrow> [] | Inr ts \<Rightarrow> ts);
          (w1, r1, d1) = Shutdown_loop_beside W (tl ks) tasks (w, r, d)
      in (snd (Worker_Close W w1), d1))"

text \<open>The task that the run loop has in hand, and what it knows of it once it is at work on it.\<close>

fun in_hand :: "run_pc \<Rightarrow> Task option" where
  "in_hand RIdle = None"
| "in_hand (RGot q) = Some q"
| "in_hand (RFresh q) = Some q"
| "in_hand (RCheck q p) = Some q"
| "in_hand (RStarting q) = Some q"
| "in_hand (RStopping q) = Some q"

fun at_work :: "run_pc \<Rightarrow> bool" where
  "at_work (RStarting q) = (tState q = Scheduled)"
| "at_work (RStopping q) = (tState q = Completed)"
| "at_work _ = True"

section \<open>The steps are those of the loops\<close>

lemma finish_steps_RIdle [simp]: "finish_steps W n (w, RIdle, d) = (w, RIdle, d)"
  by (cases n) simp_all

lemma Shutdown_loop_Cons: "Shutdown_loop W (t # ts) w d = (let (w1, d1) = Shutdown_loop W [t] w d in Shutdown_loop W ts w1 d1)"
  by (simp add: Let_def split_beta)

lemma Shutdown_loop_beside_RIdle:
  "Shutdown_loop_beside W ks ts (w, RIdle, d) = (let (w1, d1) = Shutdown_loop W ts w d in (w1, RIdle, d1))"
proof (induction ts arbitrary: ks w d)
  case (Cons t ts)
  obtain w1 d1 where "Shutdown_loop W [t] w d = (w1, d1)" by fastforce
  then show ?case
    using Cons.IH [of "tl ks" w1 d1] by (simp add: Shutdown_loop_Cons [of W t ts w d] Let_def del: Shutdown_loop.simps)
qed simp

text \<open>When the run loop is between two rounds, nothing comes beside.\<close>

lemma Shutdown_beside_RIdle: "Shutdown_beside W ks (w, RIdle, d) = Shutdown W w d"
  by (simp add: Shutdown_beside_def Shutdown_def Shutdown_loop_beside_RIdle Let_def split_beta)

context worker_env
begin

lemma run_step_loops:
  assumes "run_step W (w, r, d) = (w', r', d')"
  shows "wloops_run W (w, r, u) (w', r', u)"
proof (cases r)
  case RIdle
  obtain q w1 where q: "dequeueTask W w = (q, w1)" by fastforce
  have "q \<noteq> None" if "queueLen W w \<noteq> 0" using dequeueTask_only(3) [OF q] that by (cases q) (auto simp: queueLen_def)
  then show ?thesis using assms RIdle q wloops_step [OF tr_next [where w = w and w' = w1 and u = u]] by (auto split: if_splits)
next
  case (RGot q)
  then show ?thesis using assms by (auto split: option.splits intro: wloops_step tr_seen tr_unseen)
next
  case (RCheck q p)
  have "loop_step W (w, RCheck q p, u) (w', r', u)"
    using assms RCheck tr_refuse [of p q W w u] tr_start [of p q W w u] tr_stop [of p q W w u]
    by (simp split: if_splits del: valid_edge_iff)
  then show ?thesis unfolding RCheck by (rule wloops_step)
qed (use assms in \<open>auto intro: wloops_step tr_put tr_started tr_stopped split: prod.splits\<close>)

text \<open>A round is a number of steps.\<close>

lemma RunTask_steps:
  assumes "RunTask W w d = (res, w', d')" and "dequeueTask W w = (Some q, w1)"
  shows "\<exists>n. (run_step W ^^ n) (w1, RGot q, d) = (w', RIdle, d')"
proof -
  obtain p w2 where pw: "(p, w2) = (case lookupTask W (tID q) w1 of Some t \<Rightarrow> (t, w1) | None \<Rightarrow> (q, putTask W q w1))"
    and run: "if valid_edge (tState p) (tState q) \<and> tState q = Scheduled then StartTask W q w2 d = (res, w', d')
       else if valid_edge (tState p) (tState q) \<and> tState q = Completed then StopTask W q w2 d = (res, w', d')
       else w' = w2 \<and> d' = d \<and> drError res \<noteq> None"
    using assms(1) by (cases rule: RunTask_cases) (use assms(2) in auto)
  have "\<exists>n. (run_step W ^^ n) (w1, RGot q, d) = (w2, RCheck q p, d)"
  proof (cases "lookupTask W (tID q) w1")
    case None
    then show ?thesis using pw by (intro exI [of _ 2]) (simp add: numeral_2_eq_2)
  next
    case (Some t)
    then show ?thesis using pw by (intro exI [of _ 1]) simp
  qed
  then obtain n where n: "(run_step W ^^ n) (w1, RGot q, d) = (w2, RCheck q p, d)" by blast
  have "\<exists>k. (run_step W ^^ k) (w2, RCheck q p, d) = (w', RIdle, d')"
  proof (cases "valid_edge (tState p) (tState q) \<and> tState q \<in> {Scheduled, Completed}")
    case True
    then show ?thesis using run by (intro exI [of _ 2]) (auto simp: numeral_2_eq_2 state_defs)
  next
    case False
    then show ?thesis using run by (intro exI [of _ 1]) (auto split: if_splits)
  qed
  then obtain k where k: "(run_step W ^^ k) (w2, RCheck q p, d) = (w', RIdle, d')" by blast
  have "(run_step W ^^ (k + n)) (w1, RGot q, d) = (w', RIdle, d')" by (simp add: funpow_add n k)
  then show ?thesis by blast
qed

lemma RunTasks_round_steps:
  assumes "RunTasks_round W w d = (w', d')"
  shows "\<exists>n. (run_step W ^^ n) (w, RIdle, d) = (w', RIdle, d')"
proof (cases "queueLen W w = 0")
  case True
  then show ?thesis using assms by (intro exI [of _ 0]) (simp add: RunTasks_round_def)
next
  case False
  obtain q w1 where q: "dequeueTask W w = (Some q, w1)"
    using dequeueTask_only(3) [of w] False by (cases "dequeueTask W w"; cases "fst (dequeueTask W w)") (auto simp: queueLen_def)
  obtain res where "RunTask W w d = (res, w', d')" using assms False by (auto simp: RunTasks_round_def split: prod.splits)
  from RunTask_steps [OF this q] obtain n where "(run_step W ^^ n) (w1, RGot q, d) = (w', RIdle, d')" by blast
  moreover have "run_step W (w, RIdle, d) = (w1, RGot q, d)" using False q by simp
  ultimately have "(run_step W ^^ Suc n) (w, RIdle, d) = (w', RIdle, d')" by (simp only: funpow_Suc_right o_apply)
  then show ?thesis by blast
qed

lemma run_step_wf:
  assumes "wf_worker held ok W w" and "run_step W (w, r, d) = (w', r', d')"
  shows "wf_worker held ok W w'"
proof (cases r)
  case RIdle
  then show ?thesis
    using assms dequeueTask_only(2) by (auto split: if_splits prod.splits option.splits)
next
  case (RFresh q)
  then show ?thesis using assms putTask_stored(2) [OF assms(1), of q] by (auto simp: putTask_def)
next
  case (RStarting q)
  then obtain res where "StartTask W q w d = (res, w', d')" using assms(2) by (auto split: prod.splits)
  then show ?thesis
    by (cases rule: StartTask_cases) (simp_all add: upsertTask_stored(2) [OF assms(1)])
next
  case (RStopping q)
  then obtain res where "StopTask W q w d = (res, w', d')" using assms(2) by (auto split: prod.splits)
  then show ?thesis
    by (cases rule: StopTask_cases) (simp_all add: assms(1) upsertTask_stored(2) [OF assms(1)])
qed (use assms in auto)

section \<open>What is left\<close>

text \<open>
  The record of \<open>i\<close> when the shutdown has still \<open>ts\<close> to go through: the run loop has no task of that
  identifier in hand but a stop, and a record that names a container is completed, or is stopped later.
\<close>

definition settled :: "UUID \<Rightarrow> Task list \<Rightarrow> ('q, 's) Worker \<Rightarrow> run_pc \<Rightarrow> bool" where
  "settled i ts w r \<longleftrightarrow>
     (\<forall>q. in_hand r = Some q \<longrightarrow> tID q = i \<longrightarrow> tState q = Completed) \<and>
     (\<forall>t. stored held W w i = Some t \<longrightarrow> tContainerID t \<noteq> '''' \<longrightarrow> tState t \<noteq> Completed \<longrightarrow>
        (\<exists>t0 \<in> set ts. tID t0 = i \<and> tContainerID t0 \<noteq> '''' \<and> tState t0 \<noteq> Completed))"

lemma settled_stored:
  assumes "settled i ts w r" and "\<And>q. in_hand r' = Some q \<Longrightarrow> in_hand r = Some q"
    and "stored held W w' i = stored held W w i \<or> (\<exists>t. stored held W w' i = Some t \<and> tState t = Completed)"
  shows "settled i ts w' r'"
  using assms by (auto simp: settled_def)

lemma run_step_settled:
  assumes wf: "wf_worker held ok W w" and pc: "at_work r" and r: "r \<noteq> RIdle"
    and s: "settled i ts w r" and step: "run_step W (w, r, d) = (w', r', d')"
  shows "settled i ts w' r'"
proof (cases r)
  case (RGot q)
  then show ?thesis using step by (intro settled_stored [OF s]) (auto split: option.splits)
next
  case (RFresh q)
  then have "stored held W w' = (stored held W w)(tID q \<mapsto> q)" "r' = RCheck q q"
    using step putTask_stored(1) [OF wf, of q] by (auto simp: putTask_def)
  then show ?thesis using s RFresh by (intro settled_stored [OF s]) (auto simp: settled_def)
next
  case (RCheck q p)
  then show ?thesis using step by (intro settled_stored [OF s]) (auto split: if_splits)
next
  case (RStarting q)
  then obtain res where "StartTask W q w d = (res, w', d')" and r': "r' = RIdle" using step by (auto split: prod.splits)
  from this(1) have "\<exists>t. stored held W w' = (stored held W w)(tID q \<mapsto> t)"
    by (cases rule: StartTask_cases) (auto simp: upsertTask_stored(1) [OF wf])
  moreover have "tID q \<noteq> i" using s pc RStarting by (auto simp: settled_def state_defs)
  ultimately show ?thesis using r' by (intro settled_stored [OF s]) auto
next
  case (RStopping q)
  then obtain res where "StopTask W q w d = (res, w', d')" and r': "r' = RIdle" using step by (auto split: prod.splits)
  from this(1) have "w' = w \<or> (\<exists>t. stored held W w' = (stored held W w)(tID q \<mapsto> t) \<and> tState t = Completed)"
    by (cases rule: StopTask_cases) (auto simp: upsertTask_stored(1) [OF wf])
  then show ?thesis using r' by (intro settled_stored [OF s]) auto
qed (use r in simp)

lemma run_step_at_work: "at_work r \<Longrightarrow> run_step W (w, r, d) = (w', r', d') \<Longrightarrow> at_work r'"
  by (cases r) (auto split: option.splits if_splits prod.splits)

lemma finish_steps_settled:
  assumes "wf_worker held ok W w" and "at_work r" and "settled i ts w r" and "finish_steps W n (w, r, d) = (w', r', d')"
  shows "wf_worker held ok W w' \<and> at_work r' \<and> settled i ts w' r'"
  using assms
proof (induction n arbitrary: w r d)
  case (Suc n)
  show ?case
  proof (cases "r = RIdle")
    case False
    obtain w1 r1 d1 where step: "run_step W (w, r, d) = (w1, r1, d1)" by (metis surj_pair)
    with Suc.prems(4) False have "finish_steps W n (w1, r1, d1) = (w', r', d')" by simp
    then show ?thesis
      using Suc.IH run_step_wf [OF Suc.prems(1) step] run_step_at_work [OF Suc.prems(2) step]
        run_step_settled [OF Suc.prems(1,2) False Suc.prems(3) step] by blast
  qed (use Suc.prems in simp)
qed simp

text \<open>One task of the loop of \<open>Shutdown\<close>.\<close>

lemma Shutdown_one_settled:
  assumes wf: "wf_worker held ok W w" and s: "settled i (t # ts) w r" and ok: "stops_succeed W"
    and one: "Shutdown_loop W [t] w d = (w', d')"
  shows "wf_worker held ok W w' \<and> settled i ts w' r"
proof (cases "tContainerID t = '''' \<or> tState t = Completed")
  case True
  then have "w' = w" using one by auto
  with True wf s show ?thesis by (auto simp: settled_def)
next
  case False
  then obtain res where st: "StopTask W (t\<lparr>tState := Completed\<rparr>) w d = (res, w', d')"
    using one by (auto split: prod.splits)
  then have "drError res = None" using ok unfolding stops_succeed_def by (metis fst_conv)
  with st obtain f where w': "w' = upsertTask W (t\<lparr>tState := Completed\<rparr>) (stop_succeeded f) w"
    by (cases rule: StopTask_cases) simp_all
  have "stored held W w' = (stored held W w)(tID t \<mapsto> stop_succeeded f (current (t\<lparr>tState := Completed\<rparr>) w))"
    using upsertTask_stored(1) [OF wf, of "stop_succeeded f" "t\<lparr>tState := Completed\<rparr>"] unfolding w' by simp
  moreover have "tState (stop_succeeded f (current (t\<lparr>tState := Completed\<rparr>) w)) = Completed" by simp
  ultimately have "\<exists>x. stored held W w' = (stored held W w)(tID t \<mapsto> x) \<and> tState x = Completed" by blast
  moreover have "wf_worker held ok W w'" unfolding w' by (rule upsertTask_stored(2) [OF wf]) simp
  ultimately show ?thesis using s by (auto simp: settled_def split: if_splits)
qed

lemma Shutdown_loop_beside_settled:
  assumes "stops_succeed W" and "wf_worker held ok W w" and "at_work r" and "settled i ts w r"
    and "Shutdown_loop_beside W ks ts (w, r, d) = (w', r', d')"
  shows "settled i [] w' r'"
  using assms(2-)
proof (induction ts arbitrary: ks w r d)
  case Nil
  then have "finish_steps W (next_of ks) (w, r, d) = (w', r', d')" by simp
  from finish_steps_settled [OF Nil.prems(1-3) this] show ?case by blast
next
  case (Cons t ts)
  obtain w0 r0 d0 where f: "finish_steps W (next_of ks) (w, r, d) = (w0, r0, d0)" by (metis surj_pair)
  note s0 = finish_steps_settled [OF Cons.prems(1-3) f]
  obtain w1 d1 where one: "Shutdown_loop W [t] w0 d0 = (w1, d1)" by fastforce
  have "Shutdown_loop_beside W (tl ks) ts (w1, r0, d1) = (w', r', d')"
    using Cons.prems(4) f one by (simp del: Shutdown_loop.simps)
  then show ?case using Cons.IH s0 Shutdown_one_settled [OF _ _ assms(1) one] by blast
qed

text \<open>What \<open>Shutdown\<close> lists is all that is stored.\<close>

lemma listed_all:
  assumes "wf_worker held ok W w" and "stored held W w i = Some t"
  shows "\<exists>ts. Worker_GetTasks W w = Inr ts \<and> t \<in> set ts \<and> tID t = i"
proof -
  obtain ts where l: "List (we_store W) (wDb w) = Inr ts" using ts.List_total by blast
  obtain ks where ks: "set ks = dom (held (wDb w))" "map Some ts = map (held (wDb w)) ks"
    using ts.List_Inr [OF _ l] assms(1) by (auto simp: wf_worker_def)
  have "we_uuid_String W i \<in> set ks" using assms(2) ks(1) by (auto simp: stored_def)
  then have "Some t \<in> set (map (held (wDb w)) ks)" using assms(2) by (force simp: stored_def)
  then have "t \<in> set ts" using ks(2) by (metis (no_types, lifting) image_iff list.set_map option.inject)
  then show ?thesis using l stored_ID [OF assms] by (simp add: Worker_GetTasks_def listTasks_def)
qed

lemma Shutdown_beside_leaves:
  assumes wf: "wf_worker held ok W w" and pc: "at_work r" and ok: "stops_succeed W"
    and hand: "\<And>q. in_hand r = Some q \<Longrightarrow> tID q = i \<Longrightarrow> tState q = Completed"
    and cl: "\<And>s. held (snd (Close (we_store W) s)) = held s"
    and s: "Shutdown_beside W ks (w, r, d) = (w', d')"
    and t: "stored held W w' i = Some t" "tContainerID t \<noteq> ''''"
  shows "tState t = Completed"
proof -
  obtain w0 r0 d0 where f: "finish_steps W (next_of ks) (w, r, d) = (w0, r0, d0)" by (metis surj_pair)
  let ?ts = "case Worker_GetTasks W w0 of Inl err \<Rightarrow> [] | Inr ts \<Rightarrow> ts"
  obtain w1 r1 d1 where l: "Shutdown_loop_beside W (tl ks) ?ts (w0, r0, d0) = (w1, r1, d1)" by (metis surj_pair)
  have "settled i [zero_Task\<lparr>tID := i, tContainerID := ''c'', tState := Running\<rparr>] w r"
    using hand by (simp add: settled_def state_defs)
  note s0 = finish_steps_settled [OF wf pc this f]
  have "settled i ?ts w0 r0"
    using s0 listed_all [of w0 i] unfolding settled_def by fastforce
  with s0 have "settled i [] w1 r1" using Shutdown_loop_beside_settled [OF ok _ _ _ l] by blast
  moreover have w': "w' = snd (Worker_Close W w1)" using s f l by (simp add: Shutdown_beside_def)
  have "stored held W w' = stored held W w1"
    using cl [of "wDb w1"] unfolding w'
    by (cases "Close (we_store W) (wDb w1)") (simp add: Worker_Close_def stored_def fun_eq_iff split: option.splits)
  ultimately show ?thesis using t by (auto simp: settled_def)
qed

end

end
