(* ===== verification/Orch_Cli.thy ===== *)
theory Orch_Cli
  imports Orch_Manager_Loops Orch_Shutdown
begin

text \<open>
  Package \<open>internal/cli\<close> and \<open>cmd/orchestrator/main.go\<close>: the worker specifications of the
  manager command, the log level, the client commands that submit, stop and list tasks and
  print statistics, and the two commands that run a server.

  The record \<open>cenv\<close> holds what the client commands are built over: files, standard input,
  YAML and JSON, identifiers, the clock, the HTTP client and the alignment of a table. What a
  command prints is the string it returns; an error of \<open>fmt.Errorf\<close> is \<open>Formatted\<close> with its
  text and the cause it wraps. A command takes the values of its flags as
  arguments; the command tree that binds them is in \<open>Orch_Command\<close>.
\<close>

section \<open>Worker specifications\<close>

text \<open>\<open>strings.Cut\<close> with a separator of one character.\<close>

fun strings_Cut :: "string \<Rightarrow> char \<Rightarrow> string \<times> string \<times> bool" where
  "strings_Cut [] sep = ([], [], False)"
| "strings_Cut (c # cs) sep =
     (if c = sep then ([], cs, True)
      else (case strings_Cut cs sep of (before, after, found) \<Rightarrow> (c # before, after, found)))"

fun parseWorkers_loop :: "int \<Rightarrow> string list \<Rightarrow> WorkerMetadata list \<Rightarrow> go_error + WorkerMetadata list" where
  "parseWorkers_loop i [] workers = Inr workers"
| "parseWorkers_loop i (spec # specs) workers =
     (let (name0, addr0, hasName) = strings_Cut spec (CHR ''='');
          (name, addr) = (if \<not> hasName then (''worker-'' @ itoa (i + 1), spec) else (name0, addr0))
      in if addr = '''' then Inl (Formatted (''--worker '' @ go_quote spec @ '' has an empty address'') None)
         else parseWorkers_loop (i + 1) specs (workers @ [\<lparr>wmName = name, wmAddress = addr\<rparr>]))"

definition parseWorkers :: "string list \<Rightarrow> go_error + WorkerMetadata list" where
  "parseWorkers specs = parseWorkers_loop 0 specs []"

section \<open>The logger\<close>

text \<open>\<open>strings.ToLower\<close> on ASCII text.\<close>

definition ToLower :: "string \<Rightarrow> string" where
  "ToLower s = map (\<lambda>c. if 65 \<le> (of_char c :: nat) \<and> (of_char c :: nat) \<le> 90 then char_of ((of_char c :: nat) + 32) else c) s"

text \<open>The levels of package \<open>slog\<close>; the logger is known by its level.\<close>

definition LevelDebug :: int where "LevelDebug = -4"
definition LevelInfo :: int where "LevelInfo = 0"
definition LevelWarn :: int where "LevelWarn = 4"
definition LevelError :: int where "LevelError = 8"

definition newLogger :: "string \<Rightarrow> go_error + int" where
  "newLogger logLevel =
     (let l = ToLower logLevel in
      if l = ''debug'' then Inr LevelDebug
      else if l = ''info'' then Inr LevelInfo
      else if l = ''warn'' then Inr LevelWarn
      else if l = ''error'' then Inr LevelError
      else Inl (Formatted (''invalid --log-level '' @ go_quote logLevel @ '': want debug, info, warn, or error'') None))"

section \<open>Talking to a server\<close>

record ('g, 'w) cenv =
  ce_ReadStdin :: "'w \<Rightarrow> (go_error + string) \<times> 'w"
  ce_ReadFile :: "string \<Rightarrow> 'w \<Rightarrow> (go_error + string) \<times> 'w"
  ce_yaml_Unmarshal :: "string \<Rightarrow> go_error + 'g"
  ce_json_Marshal :: "'g \<Rightarrow> go_error + string"
  ce_decode_TaskEvent :: "string \<Rightarrow> go_error + TaskEvent"
  ce_MarshalIndent :: "TaskEvent \<Rightarrow> go_error + string"
  ce_Indent :: "string \<Rightarrow> go_error + string"
  ce_codec :: codec
  ce_uuid_String :: "UUID \<Rightarrow> string"
  ce_uuid_Parse :: "string \<Rightarrow> go_error + UUID"
  ce_uuid_New :: "'w \<Rightarrow> UUID \<times> 'w"
  ce_now :: "'w \<Rightarrow> Time \<times> 'w"
  ce_Get :: "string \<Rightarrow> 'w \<Rightarrow> (go_error + Response) \<times> 'w"
  ce_Post :: "string \<Rightarrow> string \<Rightarrow> string \<Rightarrow> 'w \<Rightarrow> (go_error + Response) \<times> 'w"
  ce_NewRequest :: "string \<Rightarrow> string \<Rightarrow> go_error option"
  ce_Do_Delete :: "string \<Rightarrow> 'w \<Rightarrow> (go_error + Response) \<times> 'w"
  ce_ReadBody :: "Response \<Rightarrow> go_error + string"
  ce_Status :: "Response \<Rightarrow> string"
  ce_Flush :: "string \<Rightarrow> go_error option \<times> string"

text \<open>
  \<open>ce_Status\<close> is the status line, \<open>ce_ReadBody\<close> is \<open>io.ReadAll\<close> of a body, and \<open>ce_Flush\<close> is what
  the tabwriter makes of the text written to it. A command returns its error, what it printed,
  and the world.
\<close>

type_synonym 'w outcome = "go_error option \<times> string \<times> 'w"

record target =
  host :: string
  port :: int

definition tasksURL :: "target \<Rightarrow> string" where
  "tasksURL t = ''http://'' @ host t @ '':'' @ itoa (port t) @ ''/tasks''"

definition newline :: string where
  "newline = [CHR 0x0A]"

definition Errorf :: "string \<Rightarrow> go_error \<Rightarrow> go_error" where
  "Errorf s err = Formatted (s @ '': '' @ Error_text err) (Some err)"

definition readAPIError :: "('g, 'w) cenv \<Rightarrow> Response \<Rightarrow> string" where
  "readAPIError C resp =
     (case decode_Error (ce_codec C) (Body resp) of
        Inr apiErr \<Rightarrow>
          (if erMessage apiErr \<noteq> '''' then erMessage apiErr @ '' ('' @ itoa (StatusCode resp) @ '')'' else ce_Status C resp)
      | Inl err \<Rightarrow> ce_Status C resp)"

text \<open>The last part of \<open>loadTaskEvent\<close>: \<open>uuid.Nil\<close> and the zero time are filled in.\<close>

definition fill_event :: "('g, 'w) cenv \<Rightarrow> TaskEvent \<Rightarrow> 'w \<Rightarrow> TaskEvent \<times> 'w" where
  "fill_event C te w =
     (let (te1, w1) = (if teID te = 0 then (let (i, v) = ce_uuid_New C w in (te\<lparr>teID := i\<rparr>, v)) else (te, w));
          (te2, w2) = (if tID (teTask te1) = 0
             then (let (i, v) = ce_uuid_New C w1 in (te1\<lparr>teTask := (teTask te1)\<lparr>tID := i\<rparr>\<rparr>, v)) else (te1, w1))
      in if teTimestamp te2 = 0 then (let (now, v) = ce_now C w2 in (te2\<lparr>teTimestamp := now\<rparr>, v)) else (te2, w2))"

definition loadTaskEvent :: "('g, 'w) cenv \<Rightarrow> string \<Rightarrow> 'w \<Rightarrow> (go_error + TaskEvent) \<times> 'w" where
  "loadTaskEvent C path w =
     (case (if path = ''-'' then ce_ReadStdin C w else ce_ReadFile C path w) of
        (Inl err, w1) \<Rightarrow> (Inl (Errorf ''reading task event'' err), w1)
      | (Inr data, w1) \<Rightarrow>
          (case ce_yaml_Unmarshal C data of
             Inl err \<Rightarrow> (Inl (Errorf ''parsing task event (want JSON or YAML)'' err), w1)
           | Inr generic \<Rightarrow>
               (case ce_json_Marshal C generic of
                  Inl err \<Rightarrow> (Inl (Errorf ''normalizing task event'' err), w1)
                | Inr jsonBytes \<Rightarrow>
                    (case ce_decode_TaskEvent C jsonBytes of
                       Inl err \<Rightarrow> (Inl (Errorf ''decoding task event (check the field names)'' err), w1)
                     | Inr te \<Rightarrow> (let (te', w2) = fill_event C te w1 in (Inr te', w2))))))"

definition submitTaskEvent :: "('g, 'w) cenv \<Rightarrow> target \<Rightarrow> TaskEvent \<Rightarrow> bool \<Rightarrow> 'w \<Rightarrow> 'w outcome" where
  "submitTaskEvent C tgt te dryRun w =
     (case ce_MarshalIndent C te of
        Inl err \<Rightarrow> (Some (Errorf ''encoding task event'' err), '''', w)
      | Inr body \<Rightarrow>
          (if dryRun then (None, body @ newline, w)
           else
             (case ce_Post C (tasksURL tgt) ''application/json'' body w of
                (Inl err, w1) \<Rightarrow> (Some (Errorf (''sending task to '' @ tasksURL tgt) err), '''', w1)
              | (Inr resp, w1) \<Rightarrow>
                  (if StatusCode resp \<noteq> StatusCreated
                   then (Some (Formatted (''task rejected: '' @ readAPIError C resp) None), '''', w1)
                   else (None, ''task submitted: id='' @ ce_uuid_String C (tID (teTask te)) @ '' name='' @ tName (teTask te) @
                           '' state='' @ State_String (tState (teTask te)) @ newline, w1)))))"

definition Cli_stopTask :: "('g, 'w) cenv \<Rightarrow> target \<Rightarrow> UUID \<Rightarrow> 'w \<Rightarrow> 'w outcome" where
  "Cli_stopTask C tgt i w =
     (let url = tasksURL tgt @ ''/'' @ ce_uuid_String C i in
      case ce_NewRequest C ''DELETE'' url of
        Some err \<Rightarrow> (Some (Errorf ''building stop request'' err), '''', w)
      | None \<Rightarrow>
          (case ce_Do_Delete C url w of
             (Inl err, w1) \<Rightarrow> (Some (Errorf (''sending stop to '' @ url) err), '''', w1)
           | (Inr resp, w1) \<Rightarrow>
               (if StatusCode resp = StatusNoContent
                then (None, ''task '' @ ce_uuid_String C i @ '' scheduled to stop'' @ newline, w1)
                else if StatusCode resp = StatusNotFound
                then (Some (Formatted (''task '' @ ce_uuid_String C i @ '' not found on the manager'') None), '''', w1)
                else (Some (Formatted (''stop rejected: '' @ readAPIError C resp) None), '''', w1))))"

definition tab :: string where
  "tab = [CHR 0x09]"

definition status_row :: "('g, 'w) cenv \<Rightarrow> Task \<Rightarrow> string" where
  "status_row C t =
     ce_uuid_String C (tID t) @ tab @ tName t @ tab @ State_String (tState t) @ tab @ tImage t @ tab @
     (if tContainerID t = '''' then ''-'' else tContainerID t) @ newline"

definition status_heading :: string where
  "status_heading = ''ID'' @ tab @ ''NAME'' @ tab @ ''STATE'' @ tab @ ''IMAGE'' @ tab @ ''CONTAINER'' @ newline"

definition printTaskStatus :: "('g, 'w) cenv \<Rightarrow> target \<Rightarrow> 'w \<Rightarrow> 'w outcome" where
  "printTaskStatus C tgt w =
     (case ce_Get C (tasksURL tgt) w of
        (Inl err, w1) \<Rightarrow> (Some (Errorf (''listing tasks from '' @ tasksURL tgt) err), '''', w1)
      | (Inr resp, w1) \<Rightarrow>
          (if StatusCode resp \<noteq> StatusOK
           then (Some (Formatted (''could not list tasks: '' @ readAPIError C resp) None), '''', w1)
           else
             (case decode_Tasks (ce_codec C) (Body resp) of
                Inl err \<Rightarrow> (Some (Errorf ''decoding task list'' err), '''', w1)
              | Inr tasks \<Rightarrow>
                  (if tasks = [] then (None, ''no tasks'' @ newline, w1)
                   else
                     (case ce_Flush C (status_heading @
                             concat (map (status_row C) tasks)) of
                        (err, out) \<Rightarrow> (err, out, w1))))))"

section \<open>Commands\<close>

definition startCommand_RunE :: "('g, 'w) cenv \<Rightarrow> target \<Rightarrow> string \<Rightarrow> bool \<Rightarrow> 'w \<Rightarrow> 'w outcome" where
  "startCommand_RunE C tgt path dryRun w =
     (if path = '''' then (Some (Formatted ''a task file is required: pass -f FILE (or -f - for stdin)'' None), '''', w)
      else
        (case loadTaskEvent C path w of
           (Inl err, w1) \<Rightarrow> (Some err, '''', w1)
         | (Inr te, w1) \<Rightarrow> submitTaskEvent C tgt te dryRun w1))"

definition stopCommand_RunE :: "('g, 'w) cenv \<Rightarrow> target \<Rightarrow> string \<Rightarrow> 'w \<Rightarrow> 'w outcome" where
  "stopCommand_RunE C tgt arg w =
     (case ce_uuid_Parse C arg of
        Inl err \<Rightarrow> (Some (Errorf (go_quote arg @ '' is not a valid task id'') err), '''', w)
      | Inr i \<Rightarrow> Cli_stopTask C tgt i w)"

definition statsCmd_RunE :: "('g, 'w) cenv \<Rightarrow> string \<Rightarrow> int \<Rightarrow> 'w \<Rightarrow> 'w outcome" where
  "statsCmd_RunE C h p w =
     (let url = ''http://'' @ h @ '':'' @ itoa p @ ''/stats'' in
      case ce_Get C url w of
        (Inl err, w1) \<Rightarrow> (Some (Errorf (''fetching stats from '' @ url) err), '''', w1)
      | (Inr resp, w1) \<Rightarrow>
          (if StatusCode resp \<noteq> StatusOK
           then (Some (Formatted (''could not get stats: '' @ readAPIError C resp) None), '''', w1)
           else
             (case ce_ReadBody C resp of
                Inl err \<Rightarrow> (Some (Errorf ''reading stats'' err), '''', w1)
              | Inr raw \<Rightarrow>
                  (case ce_Indent C raw of
                     Inl err \<Rightarrow> (Some (Errorf ''formatting stats'' err), '''', w1)
                   | Inr pretty \<Rightarrow> (None, pretty @ newline, w1)))))"

text \<open>\<open>main\<close>: the exit code, and what goes to standard error.\<close>

definition main :: "go_error option \<Rightarrow> int \<times> string" where
  "main err = (case err of None \<Rightarrow> (0, '''') | Some e \<Rightarrow> (1, ''error: '' @ Error_text e @ newline))"

section \<open>Servers\<close>

text \<open>
  Between its start and the signal that closes \<open>done\<close> a server serves requests while its loops
  run, in some order: the list of acts. The worker command starts \<open>CollectStats\<close> and \<open>RunTasks\<close>
  as goroutines; it does not start \<open>UpdateTasks\<close>. \<open>WRun\<close> is one step of the run loop, so requests
  and the signal come in the middle of its rounds, and as the command does not wait for it,
  what is left of a round goes on beside \<open>Shutdown\<close>; \<open>ks\<close> says when.
\<close>

datatype worker_act = WStats probes | WRun | WStart string | WStop string

fun worker_serve ::
  "('q, 's, 'd) wenv \<Rightarrow> worker_act list \<Rightarrow> ('q, 's) Worker \<times> run_pc \<times> 'd \<Rightarrow> ('q, 's) Worker \<times> run_pc \<times> 'd" where
  "worker_serve W [] x = x"
| "worker_serve W (WStats pr # acts) (w, r, d) = worker_serve W acts (CollectStats_round W pr w, r, d)"
| "worker_serve W (WRun # acts) x = worker_serve W acts (run_step W x)"
| "worker_serve W (WStart request # acts) (w, r, d) = worker_serve W acts (snd (Worker_StartTaskHandler W request w), r, d)"
| "worker_serve W (WStop taskID # acts) (w, r, d) = worker_serve W acts (snd (Worker_StopTaskHandler W taskID w), r, d)"

definition workerCmd_RunE ::
  "('q, 's, 'd) wenv \<Rightarrow> string \<Rightarrow> (go_error + 's) \<Rightarrow> string \<Rightarrow> int \<Rightarrow> worker_act list \<Rightarrow> nat list \<Rightarrow> 'd \<Rightarrow>
   go_error option \<times> ('q, 's) Worker option \<times> 'd" where
  "workerCmd_RunE W logLevel dbs name i acts ks d =
     (case newLogger logLevel of
        Inl err \<Rightarrow> (Some err, None, d)
      | Inr logger \<Rightarrow>
          (case NewWorker W dbs name i of
             Inl err \<Rightarrow> (Some (Errorf ''creating worker'' err), None, d)
           | Inr w \<Rightarrow>
               (let (w2, d2) = Shutdown_beside W ks (worker_serve W acts (w, RIdle, d)) in (None, Some w2, d2))))"

text \<open>
  The acts of the manager command are whole rounds and requests; how the critical sections of its
  loops interleave is \<open>thread_step\<close>.
\<close>

datatype manager_act = MUpdate | MHealth | MProcess | MStart string | MStop string

fun manager_serve ::
  "('q, 's, 'e, 'w) menv \<Rightarrow> manager_act list \<Rightarrow> ('q, 's, 'e) Manager \<Rightarrow> 'w \<Rightarrow> panic + ('q, 's, 'e) Manager \<times> 'w" where
  "manager_serve M [] m w = Inr (m, w)"
| "manager_serve M (MUpdate # acts) m w = (let (m1, w1) = Manager_updateTasks M m w in manager_serve M acts m1 w1)"
| "manager_serve M (MHealth # acts) m w =
     (case doHealthChecks M m w of Inl p \<Rightarrow> Inl p | Inr (m1, w1) \<Rightarrow> manager_serve M acts m1 w1)"
| "manager_serve M (MProcess # acts) m w =
     (case SendWork M m w of Inl p \<Rightarrow> Inl p | Inr (m1, w1) \<Rightarrow> manager_serve M acts m1 w1)"
| "manager_serve M (MStart request # acts) m w = manager_serve M acts (snd (Manager_StartTaskHandler M request m)) w"
| "manager_serve M (MStop taskID # acts) m w =
     (let (reply, m1, w1) = Manager_StopTaskHandler M taskID m w in manager_serve M acts m1 w1)"

definition managerCmd_RunE ::
  "('q, 's, 'e, 'w) menv \<Rightarrow> string list \<Rightarrow> string \<Rightarrow> string \<Rightarrow> string \<Rightarrow> (go_error + 's \<times> 'e) \<Rightarrow> manager_act list \<Rightarrow> 'w \<Rightarrow>
   panic + go_error option \<times> ('q, 's, 'e) Manager option \<times> 'w" where
  "managerCmd_RunE M workerSpecs logLevel schedulerType dbType dbs acts w =
     (case parseWorkers workerSpecs of
        Inl err \<Rightarrow> Inr (Some err, None, w)
      | Inr workers \<Rightarrow>
          (case newLogger logLevel of
             Inl err \<Rightarrow> Inr (Some err, None, w)
           | Inr logger \<Rightarrow>
               (case NewManager M workers schedulerType dbType dbs of
                  Inl err \<Rightarrow> Inr (Some (Errorf ''creating manager'' err), None, w)
                | Inr m0 \<Rightarrow>
                    (case manager_serve M acts m0 w of
                       Inl p \<Rightarrow> Inl p
                     | Inr (m1, w1) \<Rightarrow> Inr (None, Some (snd (Manager_Close M m1)), w1)))))"

section \<open>Lemmas\<close>

lemma strings_Cut_sep:
  "sep \<notin> set a \<Longrightarrow> strings_Cut (a @ sep # b) sep = (a, b, True)"
  by (induction a) auto

lemma strings_Cut_none: "sep \<notin> set a \<Longrightarrow> strings_Cut a sep = (a, [], False)"
  by (induction a) auto

text \<open>What one specification at index \<open>i\<close> stands for.\<close>

definition spec_worker :: "int \<Rightarrow> string \<Rightarrow> WorkerMetadata" where
  "spec_worker i spec =
     (case strings_Cut spec (CHR ''='') of
        (name, addr, True) \<Rightarrow> \<lparr>wmName = name, wmAddress = addr\<rparr>
      | (name, addr, False) \<Rightarrow> \<lparr>wmName = ''worker-'' @ itoa (i + 1), wmAddress = spec\<rparr>)"

lemma parseWorkers_loop_ok:
  assumes "\<forall>i < length specs. wmAddress (spec_worker (n + int i) (specs ! i)) \<noteq> ''''"
  shows "parseWorkers_loop n specs ws = Inr (ws @ map (\<lambda>i. spec_worker (n + int i) (specs ! i)) [0..<length specs])"
  using assms
proof (induction specs arbitrary: n ws)
  case (Cons s specs)
  have "\<forall>i < length specs. wmAddress (spec_worker (n + 1 + int i) (specs ! i)) \<noteq> ''''"
    using Cons.prems by (auto simp: add.assoc dest: spec [of _ "Suc _"])
  note IH = Cons.IH [OF this]
  have "wmAddress (spec_worker n s) \<noteq> ''''" using Cons.prems by (auto dest: spec [of _ 0])
  then have "parseWorkers_loop n (s # specs) ws = parseWorkers_loop (n + 1) specs (ws @ [spec_worker n s])"
    by (auto simp: spec_worker_def Let_def split: prod.splits bool.splits)
  then show ?case using IH by (simp add: upt_conv_Cons map_Suc_upt [symmetric] comp_def add.assoc del: upt_Suc)
qed simp

lemma parseWorkers_loop_error:
  assumes "i < length specs" and "\<forall>j < i. wmAddress (spec_worker (n + int j) (specs ! j)) \<noteq> ''''"
    and "wmAddress (spec_worker (n + int i) (specs ! i)) = ''''"
  shows "parseWorkers_loop n specs ws = Inl (Formatted (''--worker '' @ go_quote (specs ! i) @ '' has an empty address'') None)"
  using assms
proof (induction specs arbitrary: i n ws)
  case (Cons s specs)
  show ?case
  proof (cases i)
    case 0
    then show ?thesis using Cons.prems by (auto simp: spec_worker_def Let_def split: prod.splits bool.splits)
  next
    case (Suc k)
    then have "\<forall>j < k. wmAddress (spec_worker (n + 1 + int j) (specs ! j)) \<noteq> ''''"
      using Cons.prems(2) by (auto simp: add.assoc dest: spec [of _ "Suc _"])
    note IH = Cons.IH [OF _ this]
    have "wmAddress (spec_worker n s) \<noteq> ''''" using Cons.prems(2) Suc by (auto dest: spec [of _ 0])
    then have "parseWorkers_loop n (s # specs) ws = parseWorkers_loop (n + 1) specs (ws @ [spec_worker n s])"
      by (auto simp: spec_worker_def Let_def split: prod.splits bool.splits)
    then show ?thesis using IH Cons.prems Suc by (simp add: add.assoc)
  qed
qed simp

lemma itoa_2: "itoa 2 = ''2''"
  by code_simp

lemma newLogger_INFO: "newLogger ''INFO'' = Inr LevelInfo"
  by code_simp

text \<open>How a worker is written on the command line, with its name or by its address alone.\<close>

definition print_spec :: "bool \<Rightarrow> WorkerMetadata \<Rightarrow> string" where
  "print_spec named w = (if named then wmName w @ CHR ''='' # wmAddress w else wmAddress w)"

lemma spec_worker_print:
  assumes "named \<Longrightarrow> CHR ''='' \<notin> set (wmName w)"
    and "\<not> named \<Longrightarrow> CHR ''='' \<notin> set (wmAddress w) \<and> wmName w = ''worker-'' @ itoa (i + 1)"
  shows "spec_worker i (print_spec named w) = (w :: WorkerMetadata)"
  using assms by (cases named) (simp_all add: spec_worker_def print_spec_def strings_Cut_sep strings_Cut_none)

lemma fill_event_effect:
  assumes "fill_event C te w = (te', w')" and "\<And>v. fst (ce_uuid_New C v) \<noteq> 0"
  shows "teID te' \<noteq> 0 \<and> tID (teTask te') \<noteq> 0 \<and> (teID te \<noteq> 0 \<longrightarrow> teID te' = teID te) \<and>
    (tID (teTask te) \<noteq> 0 \<longrightarrow> tID (teTask te') = tID (teTask te)) \<and>
    (teTimestamp te \<noteq> 0 \<longrightarrow> teTimestamp te' = teTimestamp te) \<and>
    te' = te\<lparr>teID := teID te', teTimestamp := teTimestamp te', teTask := (teTask te)\<lparr>tID := tID (teTask te')\<rparr>\<rparr>"
  using assms by (auto simp: fill_event_def Let_def split_beta split: if_splits)

lemma RunTasks_round_wf:
  assumes "worker_env W held ok contents" and "wf_worker held ok W w" and "RunTasks_round W w d = (w', d')"
  shows "wf_worker held ok W w'"
  using assms worker_env.RunTask_walk [OF assms(1,2)]
  by (auto simp: RunTasks_round_def Let_def split: if_splits prod.splits)

lemma handlers_wf:
  assumes E: "worker_env W held ok contents" and wf: "wf_worker held ok W w"
  shows "wf_worker held ok W (snd (Worker_StartTaskHandler W request w))"
    and "wf_worker held ok W (snd (Worker_StopTaskHandler W taskID w))"
    and "wf_worker held ok W (CollectStats_round W pr w)"
  using wf worker_env.queue_only(2) [OF E]
  by (auto simp: Worker_StartTaskHandler_def Worker_StopTaskHandler_def Worker_AddTask_def CollectStats_round_def
      setStats_def wf_worker_def split: sum.splits option.splits)

lemma worker_serve_wf:
  assumes "worker_env W held ok contents" and "wf_worker held ok W (fst x)" and "at_work (fst (snd x))"
  shows "wf_worker held ok W (fst (worker_serve W acts x)) \<and> at_work (fst (snd (worker_serve W acts x)))"
  using assms
proof (induction W acts x rule: worker_serve.induct)
  case (3 W acts x)
  obtain w r d w1 r1 d1 where x: "x = (w, r, d)" "run_step W (w, r, d) = (w1, r1, d1)" by (metis surj_pair)
  have "wf_worker held ok W w1" "at_work r1"
    using 3 x worker_env.run_step_wf [OF "3.prems"(1) _ x(2)] worker_env.run_step_at_work [OF "3.prems"(1) _ x(2)] by simp_all
  with 3 x show ?case by simp
qed (auto intro: handlers_wf)

lemma manager_serve_run:
  "manager_serve M acts m w = Inr (m', w') \<Longrightarrow> manager_run M c (m, w) \<Longrightarrow> manager_run M c (m', w')"
proof (induction acts arbitrary: m w)
  case (Cons a acts)
  have "\<exists>m1 w1. manager_step M (m, w) (m1, w1) \<and> manager_serve M acts m1 w1 = Inr (m', w')"
  proof (cases a)
    case MUpdate
    then show ?thesis using Cons.prems(1) step_update by (cases "Manager_updateTasks M m w") fastforce
  next
    case MHealth
    then show ?thesis using Cons.prems(1) step_health by (cases "doHealthChecks M m w") fastforce+
  next
    case MProcess
    then show ?thesis using Cons.prems(1) step_send by (cases "SendWork M m w") fastforce+
  next
    case (MStart request)
    then show ?thesis using Cons.prems(1) step_start by (cases "Manager_StartTaskHandler M request m") fastforce
  next
    case (MStop taskID)
    then show ?thesis using Cons.prems(1) step_stop by (cases "Manager_StopTaskHandler M taskID m w") fastforce
  qed
  then show ?case using Cons.IH run_step [OF Cons.prems(2)] by blast
qed simp

text \<open>A client whose coming HTTP outcomes are scripted, for concrete inputs.\<close>

definition client_env :: "(string \<Rightarrow> go_error + TaskEvent) \<Rightarrow> (string, script) cenv" where
  "client_env dec =
     \<lparr>ce_ReadStdin = (\<lambda>w. (Inr '''', w)), ce_ReadFile = (\<lambda>p w. (Inr ''{}'', w)), ce_yaml_Unmarshal = Inr,
      ce_json_Marshal = Inr, ce_decode_TaskEvent = dec, ce_MarshalIndent = (\<lambda>te. Inr ''{}''), ce_Indent = Inr,
      ce_codec = sample_codec zero_Task, ce_uuid_String = unary, ce_uuid_Parse = (\<lambda>s. Inr (of_nat (length s))),
      ce_uuid_New = (\<lambda>w. (9, w)), ce_now = (\<lambda>w. (5, w)), ce_Get = (\<lambda>u w. next_outcome w),
      ce_Post = (\<lambda>u ct b w. next_outcome w), ce_NewRequest = (\<lambda>meth u. None), ce_Do_Delete = (\<lambda>u w. next_outcome w),
      ce_ReadBody = (\<lambda>r. Inr (Body r)), ce_Status = (\<lambda>r. itoa (StatusCode r)), ce_Flush = (\<lambda>s. (None, s))\<rparr>"

section \<open>Properties\<close>

text \<open>
  C38. Worker specifications: a list of workers written as \<open>name=address\<close>, or as a bare address
  for a worker that carries its automatic name, is read back as it was; and the first
  specification with an empty address is refused, whatever follows it.
\<close>

theorem parseWorkers_roundtrip:
  assumes len: "length named = length ws"
    and ok: "\<forall>i < length ws. wmAddress (ws ! i) \<noteq> '''' \<and>
      (if named ! i then CHR ''='' \<notin> set (wmName (ws ! i))
       else CHR ''='' \<notin> set (wmAddress (ws ! i)) \<and> wmName (ws ! i) = ''worker-'' @ itoa (int i + 1))"
  shows "parseWorkers (map2 print_spec named ws) = Inr ws \<and>
    (CHR ''='' \<notin> set name \<longrightarrow> (\<forall>bad \<in> {'''', name @ ''=''}.
       parseWorkers (map2 print_spec named ws @ bad # rest) =
         Inl (Formatted (''--worker '' @ go_quote bad @ '' has an empty address'') None)))"
proof -
  let ?specs = "map2 print_spec named ws"
  have at: "spec_worker (int i) (?specs ! i) = ws ! i" if "i < length ws" for i
    using that ok len by (auto intro: spec_worker_print)
  then have "map (\<lambda>i. spec_worker (0 + int i) (?specs ! i)) [0..<length ?specs] = ws"
    using len by (auto intro: nth_equalityI)
  then have "parseWorkers ?specs = Inr ws"
    using parseWorkers_loop_ok [of ?specs 0 "[]"] at ok len by (simp add: parseWorkers_def)
  moreover have "parseWorkers (?specs @ bad # rest) =
      Inl (Formatted (''--worker '' @ go_quote bad @ '' has an empty address'') None)"
    if b: "CHR ''='' \<notin> set name" "bad = '''' \<or> bad = name @ ''=''" for bad
  proof -
    have "wmAddress (spec_worker j bad) = ''''" for j
      using b strings_Cut_sep [of "CHR ''=''" name "[]"] by (auto simp: spec_worker_def)
    then show ?thesis
      using parseWorkers_loop_error [of "length ws" "?specs @ bad # rest" 0 "[]"] at ok len
      by (simp add: parseWorkers_def nth_append)
  qed
  ultimately show ?thesis by blast
qed

theorem parseWorkers_roundtrip_witness:
  "parseWorkers [''a=http://h:1'', ''http://h:2''] =
     Inr [\<lparr>wmName = ''a'', wmAddress = ''http://h:1''\<rparr>, \<lparr>wmName = ''worker-2'', wmAddress = ''http://h:2''\<rparr>]"
proof -
  let ?ws = "[\<lparr>wmName = ''a'', wmAddress = ''http://h:1''\<rparr>, \<lparr>wmName = ''worker-2'', wmAddress = ''http://h:2''\<rparr>]"
  have "length [True, False] = length ?ws" by simp
  moreover have "\<forall>i < length ?ws. wmAddress (?ws ! i) \<noteq> '''' \<and>
      (if [True, False] ! i then CHR ''='' \<notin> set (wmName (?ws ! i))
       else CHR ''='' \<notin> set (wmAddress (?ws ! i)) \<and> wmName (?ws ! i) = ''worker-'' @ itoa (int i + 1))"
    by (simp add: less_Suc_eq itoa_2)
  ultimately show ?thesis using parseWorkers_roundtrip [of "[True, False]" ?ws "''''" "[]"] by (simp add: print_spec_def)
qed

text \<open>
  C39. Automatic names collide: a bare address in second place is called \<open>worker-2\<close> also when the
  first worker was given that name. The list is accepted; the manager then has two nodes of one
  name and one task list, schedules onto both, but resolves the name to the first address, so
  tasks that were sent to the second address are updated, stopped and restarted at the first.
\<close>

theorem parseWorkers_name_collision:
  assumes "a \<noteq> ''''" and "b \<noteq> ''''" and "CHR ''='' \<notin> set b"
  shows "\<exists>workers. parseWorkers [''worker-2='' @ a, b] = Inr workers \<and>
    (\<forall>m. NewManager M workers schedulerType dbType dbs = Inr m \<longrightarrow>
       map nName (mWorkerNodes m) = [''worker-2'', ''worker-2''] \<and> map nAPI (mWorkerNodes m) = [a, b] \<and>
       dom (mWorkerTaskMap m) = {''worker-2''} \<and> workerAddress ''worker-2'' m = Some a)"
proof -
  let ?ws = "[\<lparr>wmName = ''worker-2'', wmAddress = a\<rparr>, \<lparr>wmName = ''worker-2'', wmAddress = b\<rparr>]"
  have "parseWorkers [''worker-2='' @ a, b] = Inr ?ws"
    using assms(1-3) by (simp add: parseWorkers_def strings_Cut_none itoa_2)
  moreover have "map nName (mWorkerNodes m) = [''worker-2'', ''worker-2''] \<and> map nAPI (mWorkerNodes m) = [a, b] \<and>
      dom (mWorkerTaskMap m) = {''worker-2''} \<and> workerAddress ''worker-2'' m = Some a"
    if "NewManager M ?ws schedulerType dbType dbs = Inr m" for m
  proof -
    have "mWorkerTaskMap m = [''worker-2'' \<mapsto> []]" "mWorkerNodes m = [NewNode ''worker-2'' a ''worker'', NewNode ''worker-2'' b ''worker'']"
      using that by (auto simp: NewManager_def Let_def split: sum.splits)
    then show ?thesis by (simp add: NewNode_def workerAddress_def dom_def)
  qed
  ultimately show ?thesis by blast
qed

theorem parseWorkers_name_collision_witness:
  "\<exists>m workers. parseWorkers [''worker-2=x'', ''y''] = Inr workers \<and>
     NewManager (mem_menv (sample_codec zero_Task)) workers ''round-robin'' ''IN_MEMORY'' (Inr (NewInMemory, NewInMemory)) = Inr m \<and>
     map nAPI (mWorkerNodes m) = [''x'', ''y''] \<and> workerAddress ''worker-2'' m = Some ''x''"
proof -
  let ?M = "mem_menv (sample_codec zero_Task)" and ?dbs = "Inr (NewInMemory, NewInMemory)"
  have "\<exists>m. NewManager ?M workers ''round-robin'' ''IN_MEMORY'' ?dbs = Inr m" for workers
    by (simp add: NewManager_def GetScheduler_def RoundRobin_name_def MarginalCost_name_def Let_def)
  moreover obtain workers where "parseWorkers [''worker-2='' @ ''x'', ''y''] = Inr workers"
    "\<forall>m. NewManager ?M workers ''round-robin'' ''IN_MEMORY'' ?dbs = Inr m \<longrightarrow>
       map nName (mWorkerNodes m) = [''worker-2'', ''worker-2''] \<and> map nAPI (mWorkerNodes m) = [''x'', ''y''] \<and>
       dom (mWorkerTaskMap m) = {''worker-2''} \<and> workerAddress ''worker-2'' m = Some ''x''"
    using parseWorkers_name_collision [of "''x''" "''y''" ?M "''round-robin''" "''IN_MEMORY''" ?dbs] by auto
  ultimately show ?thesis by (metis append_Cons append_Nil)
qed

text \<open>
  Loading a task event keeps what the file says: it succeeds exactly when reading, YAML,
  JSON and the decoding into the struct do; the event then has an identifier and so has its
  task, both fresh only if the file had none, a timestamp that the file gave is kept, and every
  other field is the one decoded.
\<close>

theorem loadTaskEvent_result:
  assumes new: "\<And>v. fst (ce_uuid_New C v) \<noteq> 0"
    and rd: "(if path = ''-'' then ce_ReadStdin C w else ce_ReadFile C path w) = (src, w1)"
  shows "case fst (loadTaskEvent C path w) of
      Inl err \<Rightarrow> (case src of Inl e \<Rightarrow> True | Inr data \<Rightarrow>
        (case ce_yaml_Unmarshal C data of Inl e \<Rightarrow> True | Inr g \<Rightarrow>
          (case ce_json_Marshal C g of Inl e \<Rightarrow> True | Inr js \<Rightarrow> \<exists>e. ce_decode_TaskEvent C js = Inl e)))
    | Inr te \<Rightarrow> (\<exists>data g js te0. src = Inr data \<and> ce_yaml_Unmarshal C data = Inr g \<and> ce_json_Marshal C g = Inr js \<and>
        ce_decode_TaskEvent C js = Inr te0 \<and> teID te \<noteq> 0 \<and> tID (teTask te) \<noteq> 0 \<and>
        (teID te0 \<noteq> 0 \<longrightarrow> teID te = teID te0) \<and> (tID (teTask te0) \<noteq> 0 \<longrightarrow> tID (teTask te) = tID (teTask te0)) \<and>
        (teTimestamp te0 \<noteq> 0 \<longrightarrow> teTimestamp te = teTimestamp te0) \<and>
        te = te0\<lparr>teID := teID te, teTimestamp := teTimestamp te, teTask := (teTask te0)\<lparr>tID := tID (teTask te)\<rparr>\<rparr>)"
proof (cases src)
  case (Inl e)
  then show ?thesis using rd by (simp add: loadTaskEvent_def)
next
  case data: (Inr data)
  show ?thesis
  proof (cases "ce_yaml_Unmarshal C data")
    case (Inl e)
    then show ?thesis using rd data by (simp add: loadTaskEvent_def)
  next
    case g: (Inr g)
    show ?thesis
    proof (cases "ce_json_Marshal C g")
      case (Inl e)
      then show ?thesis using rd data g by (simp add: loadTaskEvent_def)
    next
      case js: (Inr js)
      show ?thesis
      proof (cases "ce_decode_TaskEvent C js")
        case (Inl e)
        then show ?thesis using rd data g js by (simp add: loadTaskEvent_def)
      next
        case (Inr te0)
        obtain te w2 where f: "fill_event C te0 w1 = (te, w2)" by fastforce
        with rd data g js Inr have "fst (loadTaskEvent C path w) = Inr te" by (simp add: loadTaskEvent_def)
        then show ?thesis using data g js Inr fill_event_effect [OF f new] by simp
      qed
    qed
  qed
qed

theorem loadTaskEvent_result_witness:
  "\<exists>te. fst (loadTaskEvent (client_env (\<lambda>s. Inr (sample_event zero_Task))) ''f'' []) = Inr te \<and>
     teID te = 7 \<and> tID (teTask te) \<noteq> 0"
proof -
  let ?C = "client_env (\<lambda>s. Inr (sample_event zero_Task))"
  have f: "fst (ce_uuid_New ?C v) \<noteq> 0" for v by (simp add: client_env_def)
  have r: "(if ''f'' = ''-'' then ce_ReadStdin ?C [] else ce_ReadFile ?C ''f'' []) = (Inr ''{}'', [])"
    by (simp add: client_env_def)
  have d: "ce_decode_TaskEvent ?C js = Inr (sample_event zero_Task)" for js by (simp add: client_env_def)
  show ?thesis
  proof (cases "fst (loadTaskEvent ?C ''f'' [])")
    case (Inl e)
    with loadTaskEvent_result [OF f r] show ?thesis by (simp add: client_env_def)
  next
    case (Inr te)
    with loadTaskEvent_result [OF f r] d have "teID te = 7 \<and> tID (teTask te) \<noteq> 0" by auto
    with Inr show ?thesis by blast
  qed
qed

text \<open>
  What the client commands report is what the server answered: outside a dry run submitting
  exits with code 0 exactly when the event could be encoded and the server answered 201, and
  stopping exactly when it answered 204; a dry run sends nothing. A failure prints nothing on
  standard output.
\<close>

theorem client_commands_report:
  assumes sub: "submitTaskEvent C tgt te dryRun w = (e, out, w')" and stp: "Cli_stopTask C tgt i w = (e2, out2, w2)"
  shows "(dryRun \<longrightarrow> w' = w) \<and>
    (\<not> dryRun \<longrightarrow> (fst (main e) = 0 \<longleftrightarrow>
       (\<exists>body resp. ce_MarshalIndent C te = Inr body \<and>
          ce_Post C (tasksURL tgt) ''application/json'' body w = (Inr resp, w') \<and> StatusCode resp = StatusCreated))) \<and>
    (fst (main e2) = 0 \<longleftrightarrow>
       ce_NewRequest C ''DELETE'' (tasksURL tgt @ ''/'' @ ce_uuid_String C i) = None \<and>
       (\<exists>resp. ce_Do_Delete C (tasksURL tgt @ ''/'' @ ce_uuid_String C i) w = (Inr resp, w2) \<and>
          StatusCode resp = StatusNoContent)) \<and>
    (fst (main e) \<noteq> 0 \<longrightarrow> out = '''') \<and> (fst (main e2) \<noteq> 0 \<longrightarrow> out2 = '''')"
proof (intro conjI)
  show "dryRun \<longrightarrow> w' = w" using sub by (auto simp: submitTaskEvent_def split: sum.splits)
  show "\<not> dryRun \<longrightarrow> (fst (main e) = 0 \<longleftrightarrow>
       (\<exists>body resp. ce_MarshalIndent C te = Inr body \<and>
          ce_Post C (tasksURL tgt) ''application/json'' body w = (Inr resp, w') \<and> StatusCode resp = StatusCreated))"
    using sub by (auto simp: submitTaskEvent_def main_def split: sum.splits prod.splits if_splits)
  show "fst (main e2) = 0 \<longleftrightarrow>
       ce_NewRequest C ''DELETE'' (tasksURL tgt @ ''/'' @ ce_uuid_String C i) = None \<and>
       (\<exists>resp. ce_Do_Delete C (tasksURL tgt @ ''/'' @ ce_uuid_String C i) w = (Inr resp, w2) \<and>
          StatusCode resp = StatusNoContent)"
    using stp by (auto simp: Cli_stopTask_def main_def Let_def split: sum.splits prod.splits if_splits option.splits)
  show "fst (main e) \<noteq> 0 \<longrightarrow> out = ''''"
    using sub by (auto simp: submitTaskEvent_def main_def split: sum.splits prod.splits if_splits)
  show "fst (main e2) \<noteq> 0 \<longrightarrow> out2 = ''''"
    using stp by (auto simp: Cli_stopTask_def main_def Let_def split: sum.splits prod.splits if_splits option.splits)
qed

theorem client_commands_report_witness:
  "let C = client_env (\<lambda>s. Inr (sample_event zero_Task)); tgt = \<lparr>host = ''h'', port = 5555\<rparr>
   in fst (main (fst (submitTaskEvent C tgt (sample_event zero_Task) False [Inr \<lparr>StatusCode = 201, Body = ''''\<rparr>]))) = 0"
proof -
  let ?C = "client_env (\<lambda>s. Inr (sample_event zero_Task))" and ?tgt = "\<lparr>host = ''h'', port = 5555\<rparr>"
  let ?w = "[Inr \<lparr>StatusCode = 201, Body = ''''\<rparr>]" and ?te = "sample_event zero_Task"
  obtain e out w' where s: "submitTaskEvent ?C ?tgt ?te False ?w = (e, out, w')" by (metis surj_pair)
  obtain e2 out2 w2 where t: "Cli_stopTask ?C ?tgt 1 ?w = (e2, out2, w2)" by (metis surj_pair)
  have "w' = []" using s by (auto simp: submitTaskEvent_def client_env_def next_outcome_def status_defs)
  then have "\<exists>body resp. ce_MarshalIndent ?C ?te = Inr body \<and>
      ce_Post ?C (tasksURL ?tgt) ''application/json'' body ?w = (Inr resp, w') \<and> StatusCode resp = StatusCreated"
    by (simp add: client_env_def next_outcome_def status_defs)
  with client_commands_report [OF s t] s show ?thesis by (simp add: Let_def)
qed

text \<open>
  C26. The worker command leaves at most the task running that its run loop was starting: whatever
  it was asked to do before the signal, whatever Docker did, wherever the run loop stood at
  the signal and however what was left of its round and the shutdown took turns, once the
  command has returned every record that names a container is \<open>Completed\<close>, when the stops
  succeed, but for the one task that the run loop had in hand when the shutdown began, unless
  that was a stop. So a run loop between two rounds leaves nothing running. (The worker is over
  the in-memory backend.)
\<close>

theorem workerCmd_leaves_only_starting:
  assumes W: "in_memory_worker W items" and stops: "stops_succeed W"
    and run: "workerCmd_RunE W logLevel (Inr NewInMemory) name n acts ks d = (None, Some w', d')"
    and t: "mem_stored W w' i = Some t" and c: "tContainerID t \<noteq> ''''"
  shows "tState t = Completed \<or>
    (\<exists>w0 w1 r1 d1 q. NewWorker W (Inr NewInMemory) name n = Inr w0 \<and> worker_serve W acts (w0, RIdle, d) = (w1, r1, d1) \<and>
       in_hand r1 = Some q \<and> tID q = i \<and> tState q \<noteq> Completed)"
proof -
  have E: "worker_env W InMemory_held InMemory_ok (\<lambda>q. items (inner q))" using W by (rule in_memory_worker_env)
  obtain w0 w1 r1 d1 where w: "NewWorker W (Inr NewInMemory) name n = Inr w0"
    "worker_serve W acts (w0, RIdle, d) = (w1, r1, d1)" "Shutdown_beside W ks (w1, r1, d1) = (w', d')"
    using run by (auto simp: workerCmd_RunE_def Let_def split: sum.splits prod.splits) (metis surj_pair)
  have "wDb w0 = NewInMemory" using w(1) by (auto simp: NewWorker_def)
  then have "mem_wf W w0" by (simp add: wf_worker_def NewInMemory_def InMemory_ok_def InMemory_held_def)
  then have wf: "mem_wf W w1" "at_work r1" using worker_serve_wf [OF E, of "(w0, RIdle, d)" acts] w(2) by simp_all
  obtain order where "we_store W = InMemory_store order" using W by (auto simp: in_memory_worker_def)
  then have cl: "InMemory_held (snd (Close (we_store W) s)) = InMemory_held s" for s
    by (simp add: InMemory_store_def InMemory_Close_def)
  show ?thesis
  proof (cases "\<forall>q. in_hand r1 = Some q \<longrightarrow> tID q = i \<longrightarrow> tState q = Completed")
    case True
    then show ?thesis using worker_env.Shutdown_beside_leaves [OF E wf stops _ cl w(3) t c] by blast
  qed (use w in blast)
qed

text \<open>A task runs when the signal comes.\<close>

theorem workerCmd_leaves_only_starting_witness:
  "\<exists>w' d' t. workerCmd_RunE (calm\<lparr>we_decode_TaskEvent := \<lambda>s. Inr (sample_event (sample_task Scheduled 0))\<rparr>) ''INFO''
       (Inr NewInMemory) ''w'' 1 [WStart ''{}'', WRun, WRun, WRun, WRun, WRun] [3, 1] [] = (None, Some w', d') \<and>
     mem_stored calm w' 1 = Some t \<and> tContainerID t \<noteq> '''' \<and> tState t = Completed"
proof -
  let ?W = "calm\<lparr>we_decode_TaskEvent := \<lambda>s. Inr (sample_event (sample_task Scheduled 0))\<rparr>"
  let ?acts = "[WStart ''{}'', WRun, WRun, WRun, WRun, WRun]"
  have W: "in_memory_worker ?W (\<lambda>q. q)"
    using in_memory_mem_wenv by (simp add: in_memory_worker_def)
  have st: "stops_succeed ?W"
    by (simp add: stops_succeed_def StopTask_def mem_wenv_def NewDocker_def Docker_Stop_def logging_client_def NewDockerResult_def)
  note steps = NewWorker_def InMemory_Close_def Worker_StartTaskHandler_def Worker_AddTask_def
    enqueueTask_def queueLen_def dequeueTask_def lookupTask_def lookupTaskLocked_def
    putTask_def putTaskLocked_def StartTask_def upsertTask_def start_succeeded_def NewDocker_def Docker_Run_def
    Docker_Inspect_def Worker_GetTasks_def listTasks_def StopTask_def Docker_Stop_def stop_succeeded_def
    Worker_Close_def mem_wenv_def logging_client_def list_collq_def New_def Enqueue_def Dequeue_def Len_def
    InMemory_defs NewInMemory_def stored_def unary_def NewDockerResult_def create_options_def NewConfig_def Let_def
  obtain w0 where w0: "NewWorker ?W (Inr NewInMemory) ''w'' 1 = Inr w0" by (simp add: NewWorker_def)
  then have idle: "fst (snd (worker_serve ?W ?acts (w0, RIdle, []))) = RIdle" by (simp add: steps) (auto simp: steps)
  have "\<exists>w' d' t. workerCmd_RunE ?W ''INFO'' (Inr NewInMemory) ''w'' 1 ?acts [3, 1] [] = (None, Some w', d') \<and>
      mem_stored ?W w' 1 = Some t \<and> tContainerID t \<noteq> ''''"
    by (simp add: workerCmd_RunE_def newLogger_INFO Shutdown_beside_RIdle Shutdown_def steps)
  then obtain w' d' t where run: "workerCmd_RunE ?W ''INFO'' (Inr NewInMemory) ''w'' 1 ?acts [3, 1] [] = (None, Some w', d')"
    and t: "mem_stored ?W w' 1 = Some t" "tContainerID t \<noteq> ''''" by blast
  have "tState t = Completed"
    using workerCmd_leaves_only_starting [OF W st run t] w0 idle by (auto simp del: worker_serve.simps)
  with run t show ?thesis by (intro exI [of _ w'] exI [of _ d'] exI [of _ t]) (simp add: stored_def)
qed

text \<open>
  The manager command fails before it serves or not at all: an error comes from a worker
  specification, the log level, the scheduler or the stores, makes no request and exits with
  code 1. Otherwise the manager it closes at the end routes tasks only to workers of the command
  line, and each routed task is on the list of its worker.
\<close>

theorem managerCmd_outcome:
  assumes env: "manager_env M held ok contents"
    and db: "ok taskDb" "\<forall>k t. held taskDb k = Some t \<longrightarrow> k = me_uuid_String M (tID t)"
    and run: "managerCmd_RunE M specs logLevel schedulerType dbType (Inr (taskDb, eventDb)) acts w = Inr (e, mo, w')"
  shows "case e of
      Some err \<Rightarrow> mo = None \<and> w' = w \<and> fst (main e) = 1
    | None \<Rightarrow> (\<exists>workers m. parseWorkers specs = Inr workers \<and> mo = Some m \<and>
        (\<forall>i wn. mTaskWorkerMap m i = Some wn \<longrightarrow>
           wn \<in> wmName ` set workers \<and> (\<exists>ts. mWorkerTaskMap m wn = Some ts \<and> i \<in> set ts)))"
proof (cases e)
  case (Some err)
  then show ?thesis using run
    by (auto simp: managerCmd_RunE_def main_def split: sum.splits)
next
  case None
  then obtain workers l m0 m1 where m: "parseWorkers specs = Inr workers"
    "NewManager M workers schedulerType dbType (Inr (taskDb, eventDb)) = Inr m0"
    "manager_serve M acts m0 w = Inr (m1, w')" "mo = Some (snd (Manager_Close M m1))"
    using run by (auto simp: managerCmd_RunE_def split: sum.splits)
  note N = manager_env.NewManager_keeps [OF env m(2) db]
  have "manager_run M (m0, w) (m1, w')" by (rule manager_serve_run [OF m(3) run_refl])
  then have r: "routing_ok m1" "mWorkerNodes m1 = mWorkerNodes m0"
    using manager_env.manager_run_keeps [OF env] N by fastforce+
  have "dom (mWorkerTaskMap m1) = wmName ` set workers"
    using routing_okD(1) [OF r(1)] r(2) N(3) by (simp add: image_image NewNode_def)
  then have "wn \<in> wmName ` set workers \<and> (\<exists>ts. mWorkerTaskMap m1 wn = Some ts \<and> i \<in> set ts)"
    if "mTaskWorkerMap m1 i = Some wn" for i wn
    using routing_okD(2) [OF r(1) that] by blast
  moreover have "mTaskWorkerMap (snd (Manager_Close M m1)) = mTaskWorkerMap m1"
    "mWorkerTaskMap (snd (Manager_Close M m1)) = mWorkerTaskMap m1"
    by (simp_all add: Manager_Close_def Let_def split: prod.splits)
  ultimately show ?thesis using None m(1,4) by simp
qed

theorem managerCmd_outcome_witness:
  "\<exists>m w'. managerCmd_RunE (mem_menv (sample_codec zero_Task)) [''a=h''] ''INFO'' ''round-robin'' ''IN_MEMORY''
      (Inr (NewInMemory, NewInMemory)) [MUpdate] [] = Inr (None, Some m, w') \<and>
    (\<forall>i wn. mTaskWorkerMap m i = Some wn \<longrightarrow> wn = ''a'')"
proof -
  let ?M = "mem_menv (sample_codec zero_Task)"
  have p: "parseWorkers [''a=h''] = Inr [\<lparr>wmName = ''a'', wmAddress = ''h''\<rparr>]" by (simp add: parseWorkers_def)
  have "\<exists>m w'. managerCmd_RunE ?M [''a=h''] ''INFO'' ''round-robin'' ''IN_MEMORY''
      (Inr (NewInMemory, NewInMemory)) [MUpdate] [] = Inr (None, Some m, w')"
    by (simp add: managerCmd_RunE_def p newLogger_INFO NewManager_def GetScheduler_def RoundRobin_name_def
        MarginalCost_name_def Let_def split: prod.splits)
  then obtain m w' where run: "managerCmd_RunE ?M [''a=h''] ''INFO'' ''round-robin'' ''IN_MEMORY''
      (Inr (NewInMemory, NewInMemory)) [MUpdate] [] = Inr (None, Some m, w')" by blast
  have "InMemory_ok NewInMemory" "\<forall>k t. InMemory_held NewInMemory k = Some t \<longrightarrow> k = me_uuid_String ?M (tID t)"
    by (simp_all add: NewInMemory_def InMemory_ok_def InMemory_held_def)
  from managerCmd_outcome [OF mem_menv_env this run] run p show ?thesis by auto
qed

end
