(* ===== verification/Orch_Wire.thy ===== *)
theory Orch_Wire
  imports Orch_Task Orch_Httpapi
begin

text \<open>
  A concrete wire format for tasks, task events and errors, with decoders that invert it. The
  program's own format is \<open>encoding/json\<close>, a parameter of the model on which the composed
  theorems only assume that decoding inverts encoding; this format shows that the assumption
  can hold, and serves the concrete inputs of the cluster.
\<close>

section \<open>Coders\<close>

type_synonym 'a coder = "('a \<Rightarrow> nat list) \<times> (nat list \<Rightarrow> ('a \<times> nat list) option)"

definition sound :: "'a coder \<Rightarrow> bool" where
  "sound c \<longleftrightarrow> (\<forall>x r. snd c (fst c x @ r) = Some (x, r))"

definition nat_c :: "nat coder" where
  "nat_c = ((\<lambda>n. [n]), (\<lambda>l. case l of [] \<Rightarrow> None | n # r \<Rightarrow> Some (n, r)))"

definition iso_c :: "('b \<Rightarrow> 'a) \<Rightarrow> ('a \<Rightarrow> 'b) \<Rightarrow> 'a coder \<Rightarrow> 'b coder" where
  "iso_c f g c = ((\<lambda>x. fst c (f x)), (\<lambda>l. map_option (\<lambda>(y, r). (g y, r)) (snd c l)))"

definition pair_c :: "'a coder \<Rightarrow> 'b coder \<Rightarrow> ('a \<times> 'b) coder" where
  "pair_c c d =
     ((\<lambda>(x, y). fst c x @ fst d y),
      (\<lambda>l. case snd c l of None \<Rightarrow> None | Some (x, r) \<Rightarrow> map_option (\<lambda>(y, r'). ((x, y), r')) (snd d r)))"

primrec decode_n :: "'a coder \<Rightarrow> nat \<Rightarrow> nat list \<Rightarrow> ('a list \<times> nat list) option" where
  "decode_n c 0 l = Some ([], l)"
| "decode_n c (Suc n) l =
     (case snd c l of None \<Rightarrow> None | Some (x, r) \<Rightarrow> map_option (\<lambda>(xs, r'). (x # xs, r')) (decode_n c n r))"

definition list_c :: "'a coder \<Rightarrow> 'a list coder" where
  "list_c c =
     ((\<lambda>xs. length xs # concat (map (fst c) xs)), (\<lambda>l. case l of [] \<Rightarrow> None | n # r \<Rightarrow> decode_n c n r))"

lemma sound_nat [simp]: "sound nat_c"
  by (simp add: sound_def nat_c_def)

lemma sound_iso: "sound c \<Longrightarrow> (\<And>x. g (f x) = x) \<Longrightarrow> sound (iso_c f g c)"
  by (simp add: sound_def iso_c_def)

lemma sound_pair [simp]: "sound c \<Longrightarrow> sound d \<Longrightarrow> sound (pair_c c d)"
  by (simp add: sound_def pair_c_def)

lemma decode_n_sound: "sound c \<Longrightarrow> decode_n c (length xs) (concat (map (fst c) xs) @ r) = Some (xs, r)"
  by (induction xs) (simp_all add: sound_def)

lemma sound_list [simp]: "sound c \<Longrightarrow> sound (list_c c)"
  using decode_n_sound [of c] by (simp add: sound_def list_c_def)

section \<open>The types of the program\<close>

definition option_c :: "'a coder \<Rightarrow> 'a option coder" where
  "option_c c = iso_c (\<lambda>x. case x of None \<Rightarrow> [] | Some y \<Rightarrow> [y]) (\<lambda>l. case l of [] \<Rightarrow> None | y # _ \<Rightarrow> Some y) (list_c c)"

definition int_c :: "int coder" where
  "int_c = iso_c (\<lambda>i. (if i < 0 then 1 else 0, nat \<bar>i\<bar>)) (\<lambda>(s, n). if s = 1 then - int n else int n) (pair_c nat_c nat_c)"

definition string_c :: "string coder" where
  "string_c = iso_c (map of_char) (map char_of) (list_c nat_c)"

definition uuid_c :: "UUID coder" where
  "uuid_c = iso_c unat of_nat nat_c"

definition binding_c :: "PortBinding coder" where
  "binding_c = iso_c (\<lambda>b. (HostIP b, HostPort b)) (\<lambda>(i, p). \<lparr>HostIP = i, HostPort = p\<rparr>) (pair_c string_c string_c)"

definition ports_c :: "PortMap coder" where
  "ports_c = option_c (list_c (pair_c string_c (list_c binding_c)))"

definition task_c :: "Task coder" where
  "task_c = iso_c
     (\<lambda>t. (tName t, tID t, tState t, tImage t, tMemory t, tDisk t, tExposedPorts t, tHostPorts t, tRestartPolicy t,
           tStartTime t, tFinishTime t, tContainerID t, tHealthCheck t, tRestartCount t))
     (\<lambda>(a, b, c, d, e, f, g, h, i, j, k, l, m, n).
        \<lparr>tName = a, tID = b, tState = c, tImage = d, tMemory = e, tDisk = f, tExposedPorts = g, tHostPorts = h,
         tRestartPolicy = i, tStartTime = j, tFinishTime = k, tContainerID = l, tHealthCheck = m, tRestartCount = n\<rparr>)
     (pair_c string_c (pair_c uuid_c (pair_c int_c (pair_c string_c (pair_c int_c (pair_c int_c
       (pair_c (option_c (list_c string_c)) (pair_c ports_c (pair_c string_c (pair_c int_c (pair_c int_c
         (pair_c string_c (pair_c string_c int_c)))))))))))))"

definition event_c :: "TaskEvent coder" where
  "event_c = iso_c (\<lambda>e. (teID e, teState e, teTimestamp e, teTask e))
     (\<lambda>(a, b, c, d). \<lparr>teID = a, teState = b, teTimestamp = c, teTask = d\<rparr>)
     (pair_c uuid_c (pair_c int_c (pair_c int_c task_c)))"

definition error_c :: "ErrorResponse coder" where
  "error_c = iso_c (\<lambda>e. (erMessage e, erCode e)) (\<lambda>(m, c). \<lparr>erMessage = m, erCode = c\<rparr>) (pair_c string_c int_c)"

lemma sound_option [simp]: "sound c \<Longrightarrow> sound (option_c c)"
  unfolding option_c_def by (rule sound_iso) (simp_all split: option.splits)

lemma sound_base [simp]: "sound int_c" "sound string_c" "sound uuid_c"
proof -
  show "sound int_c" unfolding int_c_def by (rule sound_iso) simp_all
  show "sound string_c" unfolding string_c_def by (rule sound_iso) (simp_all add: comp_def)
  show "sound uuid_c" unfolding uuid_c_def by (rule sound_iso) simp_all
qed

lemma sound_binding [simp]: "sound binding_c"
  unfolding binding_c_def by (rule sound_iso) simp_all

lemma sound_ports [simp]: "sound ports_c"
  by (simp add: ports_c_def)

lemma sound_task [simp]: "sound task_c"
  unfolding task_c_def by (rule sound_iso) simp_all

lemma sound_event [simp]: "sound event_c"
  unfolding event_c_def by (rule sound_iso) simp_all

lemma sound_error [simp]: "sound error_c"
  unfolding error_c_def by (rule sound_iso) simp_all

section \<open>Text\<close>

definition wire :: "nat list \<Rightarrow> string" where
  "wire ns = concat (map (\<lambda>n. replicate n (CHR ''x'') @ '','') ns)"

fun unwire :: "nat \<Rightarrow> string \<Rightarrow> nat list" where
  "unwire k [] = []"
| "unwire k (c # cs) = (if c = CHR '','' then k # unwire 0 cs else unwire (Suc k) cs)"

lemma unwire_replicate: "unwire k (replicate n (CHR ''x'') @ cs) = unwire (k + n) cs"
  by (induction n arbitrary: k) simp_all

lemma unwire_wire [simp]: "unwire 0 (wire ns) = ns"
  by (induction ns) (simp_all add: wire_def unwire_replicate)

definition to_wire :: "'a coder \<Rightarrow> 'a \<Rightarrow> string" where
  "to_wire c x = wire (fst c x)"

definition from_wire :: "'a coder \<Rightarrow> string \<Rightarrow> go_error + 'a" where
  "from_wire c s = (case snd c (unwire 0 s) of Some (x, []) \<Rightarrow> Inr x | _ \<Rightarrow> Inl (External ''invalid character''))"

lemma from_to_wire [simp]:
  assumes "sound c"
  shows "from_wire c (to_wire c x) = Inr x"
proof -
  have "snd c (fst c x @ []) = Some (x, [])" using assms unfolding sound_def by blast
  then show ?thesis by (simp add: from_wire_def to_wire_def)
qed

end
