(* ===== verification/Orch_Cluster.thy ===== *)
theory Orch_Cluster
  imports Orch_Cli Orch_Wire
begin

text \<open>
  The servers' routers (\<open>api.go\<close> of both packages) and the composition of a manager with its
  workers: the manager's HTTP calls are delivered to the handlers of the worker that listens at
  the address, so that what one component promises meets what the other relies on.

  The third-party router chi and the network are parameters. \<open>chi\<close> takes the registered methods
  and patterns, and a request's method and path, to the number of the matching route and the
  value of its URL parameter, or to the status of its own answer; \<open>net\<close> splits a URL into
  the address of a server and a path.
\<close>

section \<open>Routers\<close>

datatype worker_handler = W_StartTask | W_GetTasks | W_StopTask | W_GetStats
datatype manager_handler = M_StartTask | M_GetTasks | M_StopTask

type_synonym 'h routes = "(string \<times> string \<times> 'h) list"

definition worker_routes :: "worker_handler routes" where
  "worker_routes =
     [(''POST'', ''/tasks/'', W_StartTask), (''GET'', ''/tasks/'', W_GetTasks),
      (''DELETE'', ''/tasks/{taskID}/'', W_StopTask), (''GET'', ''/stats/'', W_GetStats)]"

definition manager_routes :: "manager_handler routes" where
  "manager_routes =
     [(''POST'', ''/tasks/'', M_StartTask), (''GET'', ''/tasks/'', M_GetTasks),
      (''DELETE'', ''/tasks/{taskID}/'', M_StopTask)]"

text \<open>Nil router and server are \<open>None\<close>; a server is known by its address.\<close>

record 'h API =
  Address :: string
  Port :: int
  Router :: "'h routes option"
  Server :: "string option"

definition NewAPI :: "string \<Rightarrow> int \<Rightarrow> 'h API" where
  "NewAPI h p = \<lparr>Address = h, Port = p, Router = None, Server = None\<rparr>"

definition Worker_initRouter :: "worker_handler API \<Rightarrow> worker_handler API" where
  "Worker_initRouter a = a\<lparr>Router := Some worker_routes, Server := Some (Address a @ '':'' @ itoa (Port a))\<rparr>"

definition Manager_initRouter :: "manager_handler API \<Rightarrow> manager_handler API" where
  "Manager_initRouter a = a\<lparr>Router := Some manager_routes, Server := Some (Address a @ '':'' @ itoa (Port a))\<rparr>"

definition API_Stop :: "(string \<Rightarrow> 'w \<Rightarrow> 'w) \<Rightarrow> 'h API \<Rightarrow> 'w \<Rightarrow> 'w" where
  "API_Stop shutdown a w = (case Server a of None \<Rightarrow> w | Some addr \<Rightarrow> shutdown addr w)"

text \<open>
  \<open>Start\<close>: \<open>listen\<close> is the goroutine of \<open>ListenAndServe\<close>, whose error is dropped, \<open>until_done\<close> what
  happens until \<open>done\<close> is closed.
\<close>

definition Worker_API_Start ::
  "(string \<Rightarrow> 'w \<Rightarrow> 'w) \<Rightarrow> ('w \<Rightarrow> 'w) \<Rightarrow> (string \<Rightarrow> 'w \<Rightarrow> 'w) \<Rightarrow> worker_handler API \<Rightarrow> 'w \<Rightarrow> worker_handler API \<times> 'w" where
  "Worker_API_Start listen until_done shutdown a w =
     (let a1 = Worker_initRouter a;
          w1 = (case Server a1 of None \<Rightarrow> w | Some addr \<Rightarrow> listen addr w)
      in (a1, API_Stop shutdown a1 (until_done w1)))"

definition Manager_API_Start ::
  "(string \<Rightarrow> 'w \<Rightarrow> 'w) \<Rightarrow> ('w \<Rightarrow> 'w) \<Rightarrow> (string \<Rightarrow> 'w \<Rightarrow> 'w) \<Rightarrow> manager_handler API \<Rightarrow> 'w \<Rightarrow> manager_handler API \<times> 'w" where
  "Manager_API_Start listen until_done shutdown a w =
     (let a1 = Manager_initRouter a;
          w1 = (case Server a1 of None \<Rightarrow> w | Some addr \<Rightarrow> listen addr w)
      in (a1, API_Stop shutdown a1 (until_done w1)))"

type_synonym chi = "(string \<times> string) list \<Rightarrow> string \<Rightarrow> string \<Rightarrow> int + nat \<times> string"

abbreviation patterns :: "'h routes \<Rightarrow> (string \<times> string) list" where
  "patterns rs \<equiv> map (\<lambda>(meth, pat, h). (meth, pat)) rs"

text \<open>A reply on the wire; \<open>enc\<close> is the JSON encoder.\<close>

definition response :: "('b \<Rightarrow> string) \<Rightarrow> 'b reply \<Rightarrow> Response" where
  "response enc r = \<lparr>StatusCode = rStatus r, Body = (case rBody r of None \<Rightarrow> '''' | Some b \<Rightarrow> enc b)\<rparr>"

definition Worker_ServeHTTP ::
  "chi \<Rightarrow> (worker_payload body \<Rightarrow> string) \<Rightarrow> ('q, 's, 'd) wenv \<Rightarrow> string \<Rightarrow> string \<Rightarrow> string \<Rightarrow> ('q, 's) Worker \<Rightarrow>
   Response \<times> ('q, 's) Worker" where
  "Worker_ServeHTTP chi enc W meth path request w =
     (case chi (patterns worker_routes) meth path of
        Inl status \<Rightarrow> (\<lparr>StatusCode = status, Body = ''''\<rparr>, w)
      | Inr (i, taskID) \<Rightarrow>
          (case snd (snd (worker_routes ! i)) of
             W_StartTask \<Rightarrow> (let (r, w') = Worker_StartTaskHandler W request w in (response enc r, w'))
           | W_GetTasks \<Rightarrow> (response enc (Worker_GetTasksHandler W w), w)
           | W_StopTask \<Rightarrow> (let (r, w') = Worker_StopTaskHandler W taskID w in (response enc r, w'))
           | W_GetStats \<Rightarrow> (response enc (Worker_GetStatsHandler w), w)))"

section \<open>The cluster\<close>

text \<open>The workers by address, and the outside world of their Docker clients.\<close>

record ('q, 's, 'd) world =
  workers :: "string \<rightharpoonup> ('q, 's) Worker"
  outside :: 'd

definition deliver ::
  "chi \<Rightarrow> (string \<Rightarrow> (string \<times> string) option) \<Rightarrow> (worker_payload body \<Rightarrow> string) \<Rightarrow> ('q, 's, 'd) wenv \<Rightarrow>
   string \<Rightarrow> string \<Rightarrow> string \<Rightarrow> ('q, 's, 'd) world \<Rightarrow> (go_error + Response) \<times> ('q, 's, 'd) world" where
  "deliver chi net enc W meth url request c =
     (case net url of
        None \<Rightarrow> (Inl (External ''no such host''), c)
      | Some (addr, path) \<Rightarrow>
          (case workers c addr of
             None \<Rightarrow> (Inl (External ''connection refused''), c)
           | Some w \<Rightarrow>
               (let (resp, w') = Worker_ServeHTTP chi enc W meth path request w
                in (Inr resp, c\<lparr>workers := (workers c)(addr \<mapsto> w')\<rparr>))))"

text \<open>A round of the run loop of the worker at an address.\<close>

definition run_worker :: "('q, 's, 'd) wenv \<Rightarrow> string \<Rightarrow> ('q, 's, 'd) world \<Rightarrow> ('q, 's, 'd) world" where
  "run_worker W addr c =
     (case workers c addr of
        None \<Rightarrow> c
      | Some w \<Rightarrow> (let (w', d) = RunTasks_round W w (outside c) in c\<lparr>workers := (workers c)(addr \<mapsto> w'), outside := d\<rparr>))"

lemma worker_routes_nth [simp]:
  "worker_routes ! 0 = (''POST'', ''/tasks/'', W_StartTask)" "worker_routes ! Suc 0 = (''GET'', ''/tasks/'', W_GetTasks)"
  "worker_routes ! 2 = (''DELETE'', ''/tasks/{taskID}/'', W_StopTask)"
  by (simp_all add: worker_routes_def)

section \<open>One round of the worker\<close>

context worker_env
begin

lemma dequeueTask_one:
  assumes "contents (wQueue w) = [q]"
  shows "\<exists>w1. dequeueTask W w = (Some q, w1) \<and> stored held W w1 = stored held W w \<and>
    wf_worker held ok W w1 = wf_worker held ok W w \<and> queueLen W w \<noteq> 0"
proof -
  obtain r w1 where d: "dequeueTask W w = (r, w1)" by fastforce
  with dequeueTask_only [OF d] assms show ?thesis by (cases r) (auto simp: queueLen_def)
qed

lemma RunTasks_round_starts:
  assumes wf: "wf_worker held ok W w" and q: "contents (wQueue w) = [q]" and new: "stored held W w (tID q) = None"
    and s: "tState q = Scheduled" and starts: "\<And>v. drError (fst (StartTask W q v d)) = None"
  shows "\<exists>w' d' t i h. RunTasks_round W w d = (w', d') \<and> wf_worker held ok W w' \<and>
    stored held W w' (tID q) = Some (start_succeeded t i h q)"
proof -
  obtain w1 where w1: "dequeueTask W w = (Some q, w1)" "stored held W w1 = stored held W w"
    "wf_worker held ok W w1" "queueLen W w \<noteq> 0"
    using dequeueTask_one [OF q] wf by blast
  have look: "lookupTask W (tID q) w1 = None" using lookupTask_stored [OF w1(3)] w1(2) new by (simp add: lookupTask_def)
  note put = putTask_stored [OF w1(3), of q]
  obtain r w' d' where st: "StartTask W q (putTask W q w1) d = (r, w', d')" by (metis surj_pair)
  have "RunTask W w d = (r, w', d')"
    using w1(1) look s st by (simp add: RunTask_def Let_def)
  then have run: "RunTasks_round W w d = (w', d')" using w1(4) by (simp add: RunTasks_round_def)
  from st show ?thesis
  proof (cases rule: StartTask_cases)
    case (failed t e)
    then show ?thesis using starts [of "putTask W q w1"] st by simp
  next
    case (started t h)
    have "current q (putTask W q w1) = q" using put(1) by (simp add: current_def putTask_def)
    then show ?thesis
      using run started upsertTask_stored [of "putTask W q w1" "start_succeeded t (drContainerId r) h" q] put(2)
      by (auto simp: putTask_def)
  qed
qed

lemma RunTasks_round_stops:
  assumes wf: "wf_worker held ok W w" and q: "contents (wQueue w) = [q]" and p: "stored held W w (tID q) = Some p"
    and s: "tState q = Completed" "tState p = Running" and stops: "\<And>v. drError (fst (StopTask W q v d)) = None"
  shows "\<exists>w' d' f. RunTasks_round W w d = (w', d') \<and> wf_worker held ok W w' \<and>
    stored held W w' (tID q) = Some (stop_succeeded f p)"
proof -
  obtain w1 where w1: "dequeueTask W w = (Some q, w1)" "stored held W w1 = stored held W w"
    "wf_worker held ok W w1" "queueLen W w \<noteq> 0"
    using dequeueTask_one [OF q] wf by blast
  have look: "lookupTask W (tID q) w1 = Some p" using lookupTask_stored [OF w1(3)] w1(2) p by (simp add: lookupTask_def)
  obtain r w' d' where st: "StopTask W q w1 d = (r, w', d')" by (metis surj_pair)
  have "RunTask W w d = (r, w', d')" using w1(1) look s st by (simp add: RunTask_def Let_def)
  then have run: "RunTasks_round W w d = (w', d')" using w1(4) by (simp add: RunTasks_round_def)
  from st show ?thesis
  proof (cases rule: StopTask_cases)
    case (failed e)
    then show ?thesis using stops [of w1] st by simp
  next
    case (stopped f)
    then show ?thesis
      using run upsertTask_stored [OF w1(3), of "stop_succeeded f" q] w1(2) p by (auto simp: current_def)
  qed
qed

text \<open>What the worker lists is its records, each under its own identifier.\<close>

lemma lists_records:
  assumes wf: "wf_worker held ok W w" and p: "stored held W w i = Some p"
  shows "\<exists>ts. Worker_GetTasks W w = Inr ts \<and> distinct (map tID ts) \<and> p \<in> set ts"
proof -
  have ok: "ok (wDb w)" using wf by (simp add: wf_worker_def)
  obtain xs where l: "List (we_store W) (wDb w) = Inr xs" using ts.List_total by blast
  have "distinct (map (\<lambda>t. we_uuid_String W (tID t)) xs)"
    using ts.List_distinct_keys [OF ok l, of "\<lambda>t. we_uuid_String W (tID t)"] wf by (simp add: wf_worker_def)
  then have "distinct (map tID xs)" by (auto simp: distinct_map inj_on_def)
  moreover obtain ks where ks: "set ks = dom (held (wDb w))" "map Some xs = map (held (wDb w)) ks"
    using ts.List_Inr [OF ok l] by blast
  have "we_uuid_String W i \<in> set ks" using p ks(1) by (auto simp: stored_def)
  then have "Some p \<in> set (map (held (wDb w)) ks)" using p by (force simp: stored_def)
  then have "p \<in> set xs" unfolding ks(2) [symmetric] by auto
  ultimately show ?thesis using l by (simp add: Worker_GetTasks_def listTasks_def)
qed

end

section \<open>Reports of one worker\<close>

context manager_env
begin

lemma report_merges:
  assumes tot: "total_store (me_taskdb M) held ok" and k: "keyed_tasks held ok M m"
    and p: "known held M m (tID r) = Some p"
  shows "known held M (snd (applyWorkerReport M r m)) = (known held M m)(tID r \<mapsto> mergeTaskUpdate p r)"
proof -
  have i: "tID (mergeTaskUpdate p r) = tID r" using known_ID [OF k p] by simp
  obtain e s where put: "Put (me_taskdb M) (me_uuid_String M (tID r)) (mergeTaskUpdate p r) (mTaskDb m) = (e, s)" by fastforce
  then have "e = None" using total_store.Put_total [OF tot] by (metis fst_conv)
  then have "known held M (m\<lparr>mTaskDb := s\<rparr>) = (known held M m)(tID r \<mapsto> mergeTaskUpdate p r)"
    using Put_known [OF k, of "mergeTaskUpdate p r" e s] put i by simp
  moreover have "snd (applyWorkerReport M r m) = m\<lparr>mTaskDb := s\<rparr>"
    using taskLocked_total [OF tot k p] put by (simp add: applyWorkerReport_def)
  ultimately show ?thesis by simp
qed

lemma reports_of_others:
  assumes "keyed_tasks held ok M m" and "i \<notin> tID ` set ts"
  shows "known held M (apply_reports M ts m) i = known held M m i"
  using assms
proof (induction ts arbitrary: m)
  case (Cons r ts)
  have "known held M (snd (applyWorkerReport M r m)) i = known held M m i"
    using applyWorkerReport_effect(3) [OF Cons.prems(1), of r] Cons.prems(2) by auto
  then show ?case using Cons.IH [OF applyWorkerReport_effect(2) [OF Cons.prems(1), of r]] Cons.prems(2) by simp
qed simp

text \<open>A worker reports each task once; the report is merged into the record.\<close>

lemma apply_reports_known:
  assumes tot: "total_store (me_taskdb M) held ok" and k: "keyed_tasks held ok M m" and d: "distinct (map tID ts)"
    and t: "t \<in> set ts" and p: "known held M m (tID t) = Some p"
  shows "known held M (apply_reports M ts m) (tID t) = Some (mergeTaskUpdate p t)"
  using k d t p
proof (induction ts arbitrary: m)
  case (Cons r ts)
  note k' = applyWorkerReport_effect(2) [OF Cons.prems(1), of r]
  show ?case
  proof (cases "r = t")
    case True
    have "tID t \<notin> tID ` set ts" using Cons.prems(2) True by simp
    then show ?thesis
      using reports_of_others [OF k'] report_merges [OF tot Cons.prems(1), of r p] Cons.prems(4) True by simp
  next
    case False
    then have t: "t \<in> set ts" "tID r \<noteq> tID t" using Cons.prems by (auto simp: image_iff)
    then have "known held M (snd (applyWorkerReport M r m)) (tID t) = Some p"
      using applyWorkerReport_effect(3) [OF Cons.prems(1), of r] Cons.prems(4) by auto
    with Cons.IH [OF k' _ t(1)] Cons.prems(2) show ?thesis by simp
  qed
qed simp

end

section \<open>Manager and workers together\<close>

text \<open>
  What the composition relies on, beyond the contracts of the stores and the queues: the
  manager's HTTP client is the network; chi serves the registered patterns, with or without the
  final slash; decoding JSON inverts encoding; an identifier's text is not empty, has no
  slash and parses back; the addresses in \<open>addrs\<close> are well-formed.
\<close>

locale cluster = man: manager_env M held ok contents + wrk: worker_env W wheld wok wcontents
  for M :: "('q, 's, 'e, ('p, 't, 'd) world) menv" and held ok contents
    and W :: "('p, 't, 'd) wenv" and wheld wok wcontents +
  fixes chi :: chi and net :: "string \<Rightarrow> (string \<times> string) option" and enc :: "worker_payload body \<Rightarrow> string"
    and addrs :: "string set"
  assumes tot: "total_store (me_taskdb M) held ok"
    and client: "me_Get M = (\<lambda>url. deliver chi net enc W ''GET'' url '''')"
      "me_Post M = (\<lambda>url ct request. deliver chi net enc W ''POST'' url request)"
      "me_Do_Delete M = (\<lambda>url. deliver chi net enc W ''DELETE'' url '''')"
    and chi: "chi (patterns worker_routes) ''POST'' ''/tasks'' = Inr (0, '''')"
      "chi (patterns worker_routes) ''GET'' ''/tasks'' = Inr (1, '''')"
      "x \<noteq> '''' \<Longrightarrow> CHR ''/'' \<notin> set x \<Longrightarrow> chi (patterns worker_routes) ''DELETE'' (''/tasks/'' @ x) = Inr (2, x)"
    and json: "encode_TaskEvent (me_codec M) te = Inr request \<Longrightarrow> we_decode_TaskEvent W request = Inr te"
      "decode_Task (me_codec M) (enc (PayloadBody (TaskPayload t))) = Inr t"
      "decode_Tasks (me_codec M) (enc (PayloadBody (TasksPayload ts))) = Inr ts"
    and uuid: "we_uuid_Parse W (me_uuid_String M i) = Inr i" "me_uuid_String M i \<noteq> ''''"
      "CHR ''/'' \<notin> set (me_uuid_String M i)"
    and net: "a \<in> addrs \<Longrightarrow> net (a @ ''/'' @ path) = Some (a, ''/'' @ path)"
      "a \<in> addrs \<Longrightarrow> me_NewRequest M meth (a @ ''/'' @ path) = None"
begin

lemma urls:
  assumes "a \<in> addrs"
  shows "net (WorkerTasksURL a) = Some (a, ''/tasks'')"
    and "net (WorkerTasksURL a @ ''/'' @ x) = Some (a, ''/tasks/'' @ x)"
    and "me_NewRequest M meth (WorkerTasksURL a @ ''/'' @ x) = None"
  using net(1) [OF assms, of "''tasks''"] net(1) [OF assms, of "''tasks/'' @ x"] net(2) [OF assms, of meth "''tasks/'' @ x"]
  by (simp_all add: WorkerTasksURL_def)

lemma post_reaches:
  assumes "a \<in> addrs" and "workers c a = Some w" and "encode_TaskEvent (me_codec M) te = Inr request"
  shows "postTaskEvent M op wn a te c =
    (Inr (teTask te), c\<lparr>workers := (workers c)(a \<mapsto> Worker_AddTask W (teTask te) w)\<rparr>)"
  using assms json(1) [OF assms(3)]
  by (simp add: postTaskEvent_def client deliver_def urls Worker_ServeHTTP_def chi
      Worker_StartTaskHandler_def response_def reply_defs json(2) status_defs)

lemma update_reaches:
  assumes "workerAddress wn m = Some a" and "a \<in> addrs" and "workers c a = Some w" and "Worker_GetTasks W w = Inr ts"
  shows "updateTasksFromWorker M wn m c = (apply_reports M ts m, c)"
proof -
  have "c\<lparr>workers := (workers c)(a \<mapsto> w)\<rparr> = c" using assms(3) by (simp add: fun_upd_idem)
  with assms show ?thesis
    by (simp add: updateTasksFromWorker_def client deliver_def urls Worker_ServeHTTP_def chi
        Worker_GetTasksHandler_def response_def reply_defs json(3) status_defs)
qed

lemma stop_reaches:
  assumes "workerAddress wn m = Some a" and "a \<in> addrs" and "workers c a = Some w" and "LookupTask W i w = Some p"
  shows "Manager_stopTask M wn i m c =
    (retireTask M wn i m, c\<lparr>workers := (workers c)(a \<mapsto> Worker_AddTask W (p\<lparr>tState := Completed\<rparr>) w)\<rparr>)"
  using assms
  by (simp add: Manager_stopTask_def requireWorkerAddress_def client deliver_def urls [simplified] Worker_ServeHTTP_def
      chi(3) [simplified] uuid
      Worker_StopTaskHandler_def response_def reply_defs status_defs Let_def)


text \<open>An update brings the worker's record of a task into the manager's.\<close>

lemma update_merges:
  assumes "keyed_tasks held ok M m" and "workerAddress wn m = Some a" and "a \<in> addrs" and "workers c a = Some w"
    and "wf_worker wheld wok W w" and p: "stored wheld W w i = Some p" and "known held M m i = Some t"
  shows "\<exists>m'. updateTasksFromWorker M wn m c = (m', c) \<and> known held M m' i = Some (mergeTaskUpdate t p)"
proof -
  obtain ts where ts: "Worker_GetTasks W w = Inr ts" "distinct (map tID ts)" "p \<in> set ts"
    using wrk.lists_records [OF assms(5) p] by blast
  have "tID p = i" by (rule wrk.stored_ID [OF assms(5) p])
  then show ?thesis
    using update_reaches [OF assms(2-4) ts(1)] man.apply_reports_known [OF tot assms(1) ts(2,3)] assms(7) by simp
qed

lemma added_task:
  "wcontents (wQueue w) = [] \<Longrightarrow> wcontents (wQueue (Worker_AddTask W t w)) = [t]"
  "stored wheld W (Worker_AddTask W t w) = stored wheld W w"
  "wf_worker wheld wok W (Worker_AddTask W t w) = wf_worker wheld wok W w"
  by (simp_all add: Worker_AddTask_def wrk.queue_only) (simp add: enqueueTask_def)

lemma sends_task:
  assumes k: "keyed_tasks held ok M m" and q: "contents (mPending m) = te # es"
    and un: "mTaskWorkerMap m (tID (teTask te)) = None"
    and sel: "SelectWorker M (teTask te) m c = Inr (Inr n, m1, c1)"
    and a: "nAPI n \<in> addrs" "workers c1 (nAPI n) = Some w" and e: "encode_TaskEvent (me_codec M) te = Inr request"
  shows "\<exists>m'. SendWork M m c = Inr (m', c1\<lparr>workers := (workers c1)(nAPI n \<mapsto> Worker_AddTask W (teTask te) w)\<rparr>) \<and>
    keyed_tasks held ok M m' \<and> known held M m' = (known held M m)(tID (teTask te) \<mapsto> teTask te) \<and>
    mTaskWorkerMap m' (tID (teTask te)) = Some (nName n) \<and> mWorkerNodes m' = mWorkerNodes m"
proof -
  obtain q' s where send: "SendWork M m c = Inr (finish_send M te (nName n) (Inr (teTask te))
      (assignTask M (nName n) te (m\<lparr>mPending := q', mScheduler := s\<rparr>)),
      c1\<lparr>workers := (workers c1)(nAPI n \<mapsto> Worker_AddTask W (teTask te) w)\<rparr>)"
    using man.SendWork_sends [OF q unrouted_unassigned [OF un] sel post_reaches [OF a e]] by blast
  let ?m = "assignTask M (nName n) te (m\<lparr>mPending := q', mScheduler := s\<rparr>)"
  have m: "mTaskDb ?m = mTaskDb m" by simp
  obtain e s' where put: "Put (me_taskdb M) (me_uuid_String M (tID (teTask te))) (teTask te) (mTaskDb ?m) = (e, s')" by fastforce
  then have "e = None" using total_store.Put_total [OF tot] by (metis fst_conv)
  then have "keyed_tasks held ok M (?m\<lparr>mTaskDb := s'\<rparr>) \<and>
      known held M (?m\<lparr>mTaskDb := s'\<rparr>) = (known held M m)(tID (teTask te) \<mapsto> teTask te)"
    using man.Put_known [of ?m "teTask te" e s'] k put man.keyed_cong [OF m] man.known_cong [OF m] by simp
  moreover have "finish_send M te (nName n) (Inr (teTask te)) ?m = ?m\<lparr>mTaskDb := s'\<rparr>"
    using put \<open>e = None\<close> by (simp add: finish_send_def Manager_putTask_def)
  ultimately show ?thesis using send by (simp add: assignTask_def)
qed

end

section \<open>A concrete cluster\<close>

definition uuid_text :: "UUID \<Rightarrow> string" where
  "uuid_text i = CHR ''u'' # unary i"

definition uuid_parse :: "string \<Rightarrow> go_error + UUID" where
  "uuid_parse s = Inr (of_nat (length s - 1))"

text \<open>Of the statistics the format carries the memory, which the scheduler cannot do without.\<close>

definition mem_c :: "VirtualMemoryStat option coder" where
  "mem_c = option_c (iso_c (\<lambda>m. (unat (vmTotal m), unat (vmAvailable m)))
     (\<lambda>(a, b). \<lparr>vmTotal = of_nat a, vmAvailable = of_nat b\<rparr>) (pair_c nat_c nat_c))"

lemma sound_mem [simp]: "sound mem_c"
  unfolding mem_c_def by (intro sound_option sound_iso) simp_all

definition decode_mem :: "string \<Rightarrow> go_error + Stats" where
  "decode_mem s = (case from_wire mem_c s of Inl e \<Rightarrow> Inl e | Inr m \<Rightarrow> Inr (zero_Stats\<lparr>MemStats := m\<rparr>))"

definition wire_enc :: "worker_payload body \<Rightarrow> string" where
  "wire_enc b =
     (case b of ErrorBody e \<Rightarrow> to_wire error_c e
      | PayloadBody (TaskPayload t) \<Rightarrow> to_wire task_c t
      | PayloadBody (TasksPayload ts) \<Rightarrow> to_wire (list_c task_c) ts
      | PayloadBody (StatsPayload st) \<Rightarrow> to_wire mem_c (MemStats st))"

definition wire_codec :: codec where
  "wire_codec =
     \<lparr>decode_Stats = decode_mem, decode_Error = from_wire error_c, decode_Task = from_wire task_c,
      decode_Tasks = from_wire (list_c task_c), encode_TaskEvent = (\<lambda>te. Inr (to_wire event_c te))\<rparr>"

fun split_slash :: "string \<Rightarrow> string list" where
  "split_slash [] = [[]]"
| "split_slash (c # cs) =
     (if c = CHR ''/'' then [] # split_slash cs
      else (case split_slash cs of [] \<Rightarrow> [[c]] | x # xs \<Rightarrow> (c # x) # xs))"

definition segments :: "string \<Rightarrow> string list" where
  "segments s = filter (\<lambda>x. x \<noteq> []) (split_slash s)"

fun match_segments :: "string list \<Rightarrow> string list \<Rightarrow> string option" where
  "match_segments [] [] = Some ''''"
| "match_segments (p # ps) (s # ss) =
     (if take 1 p = ''{'' then map_option (\<lambda>_. s) (match_segments ps ss)
      else if p = s then match_segments ps ss else None)"
| "match_segments _ _ = None"

definition seg_chi :: chi where
  "seg_chi rs meth path =
     (case find (\<lambda>i. fst (rs ! i) = meth \<and> match_segments (segments (snd (rs ! i))) (segments path) \<noteq> None) [0..<length rs] of
        None \<Rightarrow> Inl StatusNotFound
      | Some i \<Rightarrow> Inr (i, the (match_segments (segments (snd (rs ! i))) (segments path))))"

definition http_net :: "string \<Rightarrow> (string \<times> string) option" where
  "http_net url =
     (if take 7 url = ''http://''
      then Some (''http://'' @ takeWhile (\<lambda>c. c \<noteq> CHR ''/'') (drop 7 url), dropWhile (\<lambda>c. c \<noteq> CHR ''/'') (drop 7 url))
      else None)"

definition http_addrs :: "string set" where
  "http_addrs = {''http://'' @ h | h. CHR ''/'' \<notin> set h}"

definition wire_wenv :: "(Task list, Task InMemory, string list) wenv" where
  "wire_wenv = calm\<lparr>we_uuid_String := uuid_text, we_uuid_Parse := uuid_parse, we_decode_TaskEvent := from_wire event_c\<rparr>"

definition wire_menv ::
  "(TaskEvent list, Task InMemory, TaskEvent InMemory, (Task list, Task InMemory, string list) world) menv" where
  "wire_menv =
     \<lparr>me_uuid_String = uuid_text, me_uuid_Parse = uuid_parse, me_uuid_New = (\<lambda>w. (9, w)), me_now = (\<lambda>w. (5, w)),
      me_queue = list_collq, me_taskdb = InMemory_store (\<lambda>xs. xs), me_eventdb = InMemory_store (\<lambda>xs. xs),
      me_codec = wire_codec, me_decode_TaskEvent = from_wire event_c,
      me_url_Parse = (\<lambda>s. Inr \<lparr>urlScheme = ''http'', urlHostname = s\<rparr>),
      me_Get = (\<lambda>url. deliver seg_chi http_net wire_enc wire_wenv ''GET'' url ''''),
      me_Post = (\<lambda>url ct request. deliver seg_chi http_net wire_enc wire_wenv ''POST'' url request),
      me_NewRequest = (\<lambda>meth url. None),
      me_Do_Delete = (\<lambda>url. deliver seg_chi http_net wire_enc wire_wenv ''DELETE'' url ''''),
      me_range_first = (\<lambda>w. (0, w)), me_order = (\<lambda>n. [0..<n]),
      me_sched = \<lparr>se_F = exact LIEB, se_codec = wire_codec, se_ctx = live_context,
        se_get = (\<lambda>url. deliver seg_chi http_net wire_enc wire_wenv ''GET'' url ''''), se_order = (\<lambda>n. [0..<n])\<rparr>\<rparr>"

lemma split_slash_plain: "CHR ''/'' \<notin> set x \<Longrightarrow> split_slash x = [x]"
  by (induction x) auto

lemma seg_chi_routes:
  "seg_chi (patterns worker_routes) ''POST'' ''/tasks'' = Inr (0, '''')"
  "seg_chi (patterns worker_routes) ''GET'' ''/tasks'' = Inr (1, '''')"
  "x \<noteq> '''' \<Longrightarrow> CHR ''/'' \<notin> set x \<Longrightarrow> seg_chi (patterns worker_routes) ''DELETE'' (''/tasks/'' @ x) = Inr (2, x)"
proof -
  have u: "[0..<4] = [0, 1, 2, 3 :: nat]" by (simp add: upt_rec)
  show "seg_chi (patterns worker_routes) ''POST'' ''/tasks'' = Inr (0, '''')"
    "seg_chi (patterns worker_routes) ''GET'' ''/tasks'' = Inr (1, '''')"
    by (simp_all add: seg_chi_def worker_routes_def segments_def u)
  show "seg_chi (patterns worker_routes) ''DELETE'' (''/tasks/'' @ x) = Inr (2, x)" if "x \<noteq> ''''" "CHR ''/'' \<notin> set x"
    using that by (simp add: seg_chi_def worker_routes_def segments_def u split_slash_plain)
qed

lemma http_net_addr: "a \<in> http_addrs \<Longrightarrow> http_net (a @ ''/'' @ path) = Some (a, ''/'' @ path)"
proof -
  assume "a \<in> http_addrs"
  then obtain h where h: "a = ''http://'' @ h" "CHR ''/'' \<notin> set h" by (auto simp: http_addrs_def)
  from h(2) have "\<forall>c \<in> set h. c \<noteq> CHR ''/''" by blast
  then have "takeWhile (\<lambda>c. c \<noteq> CHR ''/'') (h @ CHR ''/'' # path) = h"
    "dropWhile (\<lambda>c. c \<noteq> CHR ''/'') (h @ CHR ''/'' # path) = CHR ''/'' # path"
    by (simp_all add: takeWhile_append2 dropWhile_append2 takeWhile_tail dropWhile_append3)
  with h(1) show ?thesis by (simp add: http_net_def)
qed

lemma inj_uuid_text: "inj uuid_text"
  using inj_unary by (auto simp: uuid_text_def inj_def)

lemma wire_manager: "manager_env wire_menv InMemory_held InMemory_ok inner"
proof (rule manager_env.intro)
  show "store_contract (me_taskdb wire_menv) InMemory_held InMemory_ok"
    using total_store.axioms(1) [OF InMemory_total_store [OF iteration_order_id]] by (simp add: wire_menv_def)
  show "queue (me_queue wire_menv) inner"
    using wrapper_is_queue [OF list_collq_fifo] by (simp add: wire_menv_def)
qed (simp add: wire_menv_def inj_uuid_text)

lemma wire_worker: "worker_env wire_wenv InMemory_held InMemory_ok inner"
proof (rule worker_env.intro)
  show "total_store (we_store wire_wenv) InMemory_held InMemory_ok"
    using InMemory_total_store [OF iteration_order_id] by (simp add: wire_wenv_def mem_wenv_def)
  show "queue (we_queue wire_wenv) inner"
    using wrapper_is_queue [OF list_collq_fifo] by (simp add: wire_wenv_def mem_wenv_def)
qed (simp add: wire_wenv_def inj_uuid_text)

lemma wire_cluster:
  "cluster wire_menv InMemory_held InMemory_ok inner wire_wenv InMemory_held InMemory_ok inner
     seg_chi http_net wire_enc http_addrs"
proof (intro cluster.intro wire_manager wire_worker cluster_axioms.intro)
  show "total_store (me_taskdb wire_menv) InMemory_held InMemory_ok"
    using InMemory_total_store [OF iteration_order_id] by (simp add: wire_menv_def)
  show "CHR ''/'' \<notin> set (me_uuid_String wire_menv i)" for i
    by (simp add: wire_menv_def uuid_text_def unary_def)
  show "seg_chi (patterns worker_routes) ''DELETE'' (''/tasks/'' @ x) = Inr (2, x)" if "x \<noteq> ''''" "CHR ''/'' \<notin> set x" for x
    using that by (rule seg_chi_routes(3))
  show "http_net (a @ ''/'' @ path) = Some (a, ''/'' @ path)" if "a \<in> http_addrs" for a path
    using that by (rule http_net_addr)
qed (simp_all add: seg_chi_routes(1,2) [simplified] wire_menv_def wire_wenv_def wire_codec_def wire_enc_def
    uuid_text_def uuid_parse_def unary_def)

interpretation cl: cluster wire_menv InMemory_held InMemory_ok inner wire_wenv InMemory_held InMemory_ok inner
  seg_chi http_net wire_enc http_addrs
  by (rule wire_cluster)

section \<open>Properties\<close>

text \<open>
  C1. A task runs end to end: when the scheduler picks a worker that listens at its address and
  Docker can start the task, one scheduling round hands a pending \<open>Scheduled\<close> task over (the
  manager records it and routes it to the worker), one round of the worker's run loop starts it,
  and one update from the worker makes the manager's record \<open>Running\<close>, with the container and
  the ports that the worker recorded.
\<close>

theorem cluster_runs_task:
  assumes C: "cluster M held ok contents W wheld wok wcontents chi net enc addrs"
    and k: "keyed_tasks held ok M m" and q: "contents (mPending m) = te # es"
    and un: "mTaskWorkerMap m (tID (teTask te)) = None" and st: "tState (teTask te) = Scheduled"
    and sel: "SelectWorker M (teTask te) m c = Inr (Inr n, m0, c0)"
    and a: "nAPI n \<in> addrs" "workerAddress (nName n) m = Some (nAPI n)" "workers c0 (nAPI n) = Some w"
    and w: "wf_worker wheld wok W w" "wcontents (wQueue w) = []" "stored wheld W w (tID (teTask te)) = None"
    and e: "encode_TaskEvent (me_codec M) te = Inr request"
    and starts: "\<And>v. drError (fst (StartTask W (teTask te) v (outside c0))) = None"
  shows "\<exists>m1 c1 m2 w2 p t. SendWork M m c = Inr (m1, c1) \<and>
    known held M m1 (tID (teTask te)) = Some (teTask te) \<and> mTaskWorkerMap m1 (tID (teTask te)) = Some (nName n) \<and>
    workers (run_worker W (nAPI n) c1) (nAPI n) = Some w2 \<and> stored wheld W w2 (tID (teTask te)) = Some p \<and>
    tState p = Running \<and>
    updateTasksFromWorker M (nName n) m1 (run_worker W (nAPI n) c1) = (m2, run_worker W (nAPI n) c1) \<and>
    known held M m2 (tID (teTask te)) = Some t \<and> tState t = Running \<and>
    tContainerID t = tContainerID p \<and> tHostPorts t = tHostPorts p"
proof -
  let ?w = "Worker_AddTask W (teTask te) w" and ?i = "tID (teTask te)"
  let ?c1 = "c0\<lparr>workers := (workers c0)(nAPI n \<mapsto> ?w)\<rparr>"
  obtain m1 where m1: "SendWork M m c = Inr (m1, ?c1)" "keyed_tasks held ok M m1"
    "known held M m1 = (known held M m)(?i \<mapsto> teTask te)" "mTaskWorkerMap m1 ?i = Some (nName n)"
    "mWorkerNodes m1 = mWorkerNodes m"
    using cluster.sends_task [OF C k q un sel a(1,3) e] by blast
  note added = cluster.added_task [OF C]
  have W: "worker_env W wheld wok wcontents" using C by (simp add: cluster_def)
  obtain w' d' s j h where run: "RunTasks_round W ?w (outside c0) = (w', d')" "wf_worker wheld wok W w'"
    "stored wheld W w' ?i = Some (start_succeeded s j h (teTask te))"
    using worker_env.RunTasks_round_starts [OF W, of ?w "teTask te" "outside c0"] w st starts by (auto simp: added)
  define c2 where "c2 = run_worker W (nAPI n) ?c1"
  have c2: "workers c2 (nAPI n) = Some w'" using run(1) by (simp add: c2_def run_worker_def)
  have ad: "workerAddress (nName n) m1 = Some (nAPI n)" using a(2) m1(5) by (simp add: workerAddress_def)
  have kn: "known held M m1 ?i = Some (teTask te)" by (simp add: m1(3))
  obtain m2 where "updateTasksFromWorker M (nName n) m1 c2 = (m2, c2)"
    "known held M m2 ?i = Some (mergeTaskUpdate (teTask te) (start_succeeded s j h (teTask te)))"
    using cluster.update_merges [OF C m1(2) ad a(1) c2 run(2,3) kn] by blast
  moreover have "valid_edge Scheduled Running" by (simp add: valid_edge_iff)
  ultimately show ?thesis
    using m1(1,4) kn c2 run(3) st unfolding c2_def
    by (intro exI [of _ m1] exI [of _ ?c1] exI [of _ m2] exI [of _ w'] exI [of _ "start_succeeded s j h (teTask te)"]
        exI [of _ "mergeTaskUpdate (teTask te) (start_succeeded s j h (teTask te))"])
      (simp add: mergeTaskUpdate_def)
qed

text \<open>The cluster of the witnesses: one worker \<open>a\<close> at \<open>http://h\<close>.\<close>

definition node_h :: Node where
  "node_h = NewNode ''a'' ''http://h'' ''worker''"

definition world_with :: "Task list \<Rightarrow> (Task list, Task InMemory, string list) world" where
  "world_with db =
     \<lparr>workers = [''http://h'' \<mapsto> (worker_with [] [])\<lparr>wDb := \<lparr>Db = map (\<lambda>t. (uuid_text (tID t), t)) db\<rparr>\<rparr>], outside = []\<rparr>"

lemma http_h [simp]: "''http://h'' \<in> http_addrs"
  unfolding http_addrs_def by (rule CollectI, rule exI [of _ "''h''"]) simp

lemma node_h_fields [simp]: "nName node_h = ''a''" "nAPI node_h = ''http://h''"
  by (simp_all add: node_h_def NewNode_def)

lemma world_with_fields [simp]:
  "workers (world_with db) ''http://h'' = Some ((worker_with [] [])\<lparr>wDb := \<lparr>Db = map (\<lambda>t. (uuid_text (tID t), t)) db\<rparr>\<rparr>)"
  "outside (world_with db) = []"
  by (simp_all add: world_with_def)

lemma wire_wenv_docker [simp]: "we_docker wire_wenv = calm_docker" "we_now wire_wenv = (\<lambda>d. (7, d))"
  by (simp_all add: wire_wenv_def mem_wenv_def)

theorem cluster_runs_task_witness:
  "let te = sample_event (sample_task Scheduled 0); m = manager_with rr0 [node_h] [] [te] [] in
   \<exists>m1 c1 m2 t. SendWork wire_menv m (world_with []) = Inr (m1, c1) \<and>
     updateTasksFromWorker wire_menv ''a'' m1 (run_worker wire_wenv ''http://h'' c1) = (m2, run_worker wire_wenv ''http://h'' c1) \<and>
     known InMemory_held wire_menv m2 1 = Some t \<and> tState t = Running"
proof -
  let ?te = "sample_event (sample_task Scheduled 0)"
  let ?m = "manager_with rr0 [node_h] [] [?te] []"
  let ?w = "(worker_with [] [])\<lparr>wDb := \<lparr>Db = []\<rparr>\<rparr>"
  have k: "keyed_tasks InMemory_held InMemory_ok wire_menv ?m"
    by (simp add: keyed_tasks_def manager_with_def InMemory_ok_def InMemory_held_def)
  have q: "inner (mPending ?m) = [?te]" "mTaskWorkerMap ?m (tID (teTask ?te)) = None"
    "tState (teTask ?te) = Scheduled" "workerAddress (nName node_h) ?m = Some (nAPI node_h)"
    by (simp_all add: manager_with_def workerAddress_def)
  have sel: "SelectWorker wire_menv (teTask ?te) ?m (world_with []) = Inr (Inr node_h, ?m, world_with [])"
    by (simp add: SelectWorker_def pickWorker_def manager_with_def rr0_def RoundRobin_SelectCandidateNodes_def
        RoundRobin_Score_def nextWorkerIndex_def scoreNodes_def RoundRobin_Pick_def highestScoringNode_def go_rem_def Let_def)
  have w: "wf_worker InMemory_held InMemory_ok wire_wenv ?w" "inner (wQueue ?w) = []"
    "stored InMemory_held wire_wenv ?w (tID (teTask ?te)) = None"
    by (simp_all add: wf_worker_def worker_with_def stored_def InMemory_ok_def InMemory_held_def)
  have e: "encode_TaskEvent (me_codec wire_menv) ?te = Inr (to_wire event_c ?te)"
    by (simp add: wire_menv_def wire_codec_def)
  have st: "drError (fst (StartTask wire_wenv (teTask ?te) v (outside (world_with [])))) = None" for v
    by (simp add: StartTask_def sample_task_def zero_Task_def NewDocker_def Docker_Run_def Docker_Inspect_def
        logging_client_def NewDockerResult_def create_options_def NewConfig_def Let_def)
  from cluster_runs_task [OF wire_cluster k q(1-3) sel _ q(4) _ w e st] show ?thesis
    unfolding Let_def by simp blast
qed

text \<open>
  C2. A task stops end to end: a pending stop of a task that runs on both sides makes the
  manager record it \<open>Completed\<close> and drop its route as soon as the worker has accepted the
  request; one round of the worker's run loop, with a Docker that can stop the container,
  completes the worker's record; and a later update from the worker leaves the manager's record
  \<open>Completed\<close>.
\<close>

theorem cluster_stops_task:
  assumes C: "cluster M held ok contents W wheld wok wcontents chi net enc addrs"
    and k: "keyed_tasks held ok M m" and q: "contents (mPending m) = te # es"
    and i: "tID (teTask te) = i" and st: "tState (teTask te) = Completed"
    and r: "mTaskWorkerMap m i = Some wn" "known held M m i = Some t" "tState t = Running"
    and a: "workerAddress wn m = Some a" "a \<in> addrs" "workers c a = Some w"
    and w: "wf_worker wheld wok W w" "wcontents (wQueue w) = []" "stored wheld W w i = Some p" "tState p = Running"
    and stops: "\<And>v. drError (fst (StopTask W (p\<lparr>tState := Completed\<rparr>) v (outside c))) = None"
  shows "\<exists>m1 c1 m2 w2 p2 t2. SendWork M m c = Inr (m1, c1) \<and>
    known held M m1 i = Some (t\<lparr>tState := Completed\<rparr>) \<and> mTaskWorkerMap m1 i = None \<and>
    workers (run_worker W a c1) a = Some w2 \<and> stored wheld W w2 i = Some p2 \<and> tState p2 = Completed \<and>
    updateTasksFromWorker M wn m1 (run_worker W a c1) = (m2, run_worker W a c1) \<and>
    known held M m2 i = Some t2 \<and> tState t2 = Completed"
proof -
  let ?p = "p\<lparr>tState := Completed\<rparr>"
  let ?w = "Worker_AddTask W ?p w"
  let ?c1 = "c\<lparr>workers := (workers c)(a \<mapsto> ?w)\<rparr>"
  have M: "manager_env M held ok contents" and W: "worker_env W wheld wok wcontents" using C by (simp_all add: cluster_def)
  have tot: "total_store (me_taskdb M) held ok" by (rule cluster.tot [OF C])
  have pi: "tID p = i" by (rule worker_env.stored_ID [OF W w(1,3)])
  obtain q' where nx: "nextPendingEvent M m = (Some te, m\<lparr>mPending := q'\<rparr>)"
    using manager_env.next_head [OF M q] by blast
  let ?m = "m\<lparr>mPending := q'\<rparr>"
  have km: "keyed_tasks held ok M ?m" "known held M ?m = known held M m"
    using k manager_env.keyed_cong [OF M, of ?m m] manager_env.known_cong [OF M, of ?m m] by simp_all
  have as: "assignmentFor M i ?m = Some (wn, t)"
    using r(1) manager_env.taskLocked_total [OF M tot km(1)] km(2) r(2) by (simp add: assignmentFor_def)
  have "LookupTask W i w = Some p"
    using worker_env.lookupTask_stored [OF W w(1)] w(3) by (simp add: LookupTask_def lookupTask_def)
  moreover have "workerAddress wn ?m = Some a" using a(1) by (simp add: workerAddress_def)
  ultimately have stop: "Manager_stopTask M wn i ?m c = (retireTask M wn i ?m, ?c1)"
    using cluster.stop_reaches [OF C _ a(2,3)] by blast
  define m1 where "m1 = retireTask M wn i ?m"
  have s1: "SendWork M m c = Inr (m1, ?c1)"
    using nx as st r(3) stop i by (simp add: SendWork_def Let_def m1_def)
  have k1: "keyed_tasks held ok M m1" unfolding m1_def by (rule manager_env.retireTask_effect(1) [OF M km(1)])
  have kn: "known held M m1 i = Some (t\<lparr>tState := Completed\<rparr>)"
    using manager_env.retireTask_total [OF M tot km(1)] km(2) r(2) unfolding m1_def by simp
  have ad: "workerAddress wn m1 = Some a" using a(1) manager_env.retireTask_effect(5) [OF M km(1)] by (simp add: m1_def workerAddress_def)
  note added = cluster.added_task [OF C]
  obtain w' d' f where run: "RunTasks_round W ?w (outside c) = (w', d')" "wf_worker wheld wok W w'"
    "stored wheld W w' i = Some (stop_succeeded f p)"
    using worker_env.RunTasks_round_stops [OF W, of ?w ?p p "outside c"] w stops pi by (auto simp: added)
  define c2 where "c2 = run_worker W a ?c1"
  have c2: "workers c2 a = Some w'" using run(1) by (simp add: c2_def run_worker_def)
  obtain m2 where "updateTasksFromWorker M wn m1 c2 = (m2, c2)"
    "known held M m2 i = Some (mergeTaskUpdate (t\<lparr>tState := Completed\<rparr>) (stop_succeeded f p))"
    using cluster.update_merges [OF C k1 ad a(2) c2 run(2,3) kn] by blast
  moreover have "tState (mergeTaskUpdate (t\<lparr>tState := Completed\<rparr>) (stop_succeeded f p)) = Completed"
    by (simp add: mergeTaskUpdate_def)
  moreover have "mTaskWorkerMap m1 i = None" using manager_env.retireTask_effect(4) [OF M km(1)] by (simp add: m1_def)
  ultimately show ?thesis using s1 kn c2 run(3) unfolding c2_def by (metis callbacks_state(3))
qed

theorem cluster_stops_task_witness:
  "let p = (sample_task Running 0)\<lparr>tContainerID := ''c1''\<rparr>; te = sample_event (sample_task Completed 0);
       m = (manager_with rr0 [node_h] [] [te] [(1, ''a'')])\<lparr>mTaskDb := \<lparr>Db = [(uuid_text 1, p)]\<rparr>\<rparr> in
   \<exists>m1 c1 w2 p2. SendWork wire_menv m (world_with [p]) = Inr (m1, c1) \<and> mTaskWorkerMap m1 1 = None \<and>
     workers (run_worker wire_wenv ''http://h'' c1) ''http://h'' = Some w2 \<and>
     stored InMemory_held wire_wenv w2 1 = Some p2 \<and> tState p2 = Completed"
proof -
  let ?p = "(sample_task Running 0)\<lparr>tContainerID := ''c1''\<rparr>" and ?te = "sample_event (sample_task Completed 0)"
  let ?m = "(manager_with rr0 [node_h] [] [?te] [(1, ''a'')])\<lparr>mTaskDb := \<lparr>Db = [(uuid_text 1, ?p)]\<rparr>\<rparr>"
  let ?w = "(worker_with [] [])\<lparr>wDb := \<lparr>Db = map (\<lambda>t. (uuid_text (tID t), t)) [?p]\<rparr>\<rparr>"
  have u: "me_uuid_String wire_menv = uuid_text" "we_uuid_String wire_wenv = uuid_text"
    by (simp_all add: wire_menv_def wire_wenv_def)
  have k: "keyed_tasks InMemory_held InMemory_ok wire_menv ?m"
    by (simp add: keyed_tasks_def manager_with_def InMemory_ok_def InMemory_held_def u)
  have q: "inner (mPending ?m) = [?te]" "tID (teTask ?te) = 1" "tState (teTask ?te) = Completed"
    "mTaskWorkerMap ?m 1 = Some ''a''" "known InMemory_held wire_menv ?m 1 = Some ?p" "tState ?p = Running"
    "workerAddress ''a'' ?m = Some ''http://h''"
    by (simp_all add: manager_with_def workerAddress_def known_def InMemory_held_def u)
  have w: "wf_worker InMemory_held InMemory_ok wire_wenv ?w" "inner (wQueue ?w) = []"
    "stored InMemory_held wire_wenv ?w 1 = Some ?p"
    by (simp_all add: wf_worker_def worker_with_def stored_def InMemory_ok_def InMemory_held_def u)
  have st: "drError (fst (StopTask wire_wenv (?p\<lparr>tState := Completed\<rparr>) v (outside (world_with [?p])))) = None" for v
    by (simp add: StopTask_def NewDocker_def Docker_Stop_def logging_client_def NewDockerResult_def Let_def)
  from cluster_stops_task [OF wire_cluster k q(1-7) http_h world_with_fields(1) w q(6) st] show ?thesis
    unfolding Let_def by blast
qed

end
