(* ===== verification/Orch_Client.thy ===== *)
theory Orch_Client
  imports Orch_Cluster
begin

text \<open>
  The command line against a running manager: the client's requests are delivered through the
  manager's router to its handlers. The world of the client is the manager and the manager's own
  world. The interface is the locale \<open>client_manager\<close>; the wire format of \<open>Orch_Wire\<close> and the
  router of \<open>Orch_Cluster\<close> interpret it.
\<close>

section \<open>The manager's server\<close>

definition Manager_ServeHTTP ::
  "chi \<Rightarrow> (manager_payload body \<Rightarrow> string) \<Rightarrow> ('q, 's, 'e, 'w) menv \<Rightarrow> string \<Rightarrow> string \<Rightarrow> string \<Rightarrow>
   ('q, 's, 'e) Manager \<times> 'w \<Rightarrow> Response \<times> ('q, 's, 'e) Manager \<times> 'w" where
  "Manager_ServeHTTP chi enc M meth path request c =
     (case c of (m, w) \<Rightarrow>
        (case chi (patterns manager_routes) meth path of
           Inl status \<Rightarrow> (\<lparr>StatusCode = status, Body = ''''\<rparr>, m, w)
         | Inr (i, taskID) \<Rightarrow>
             (case snd (snd (manager_routes ! i)) of
                M_StartTask \<Rightarrow> (let (r, m') = Manager_StartTaskHandler M request m in (response enc r, m', w))
              | M_GetTasks \<Rightarrow> (response enc (Manager_GetTasksHandler M m), m, w)
              | M_StopTask \<Rightarrow> (let (r, m', w') = Manager_StopTaskHandler M taskID m w in (response enc r, m', w')))))"

text \<open>A request reaches the manager when its URL names the address the manager listens at.\<close>

definition manager_deliver ::
  "chi \<Rightarrow> (string \<Rightarrow> (string \<times> string) option) \<Rightarrow> (manager_payload body \<Rightarrow> string) \<Rightarrow> string \<Rightarrow> ('q, 's, 'e, 'w) menv \<Rightarrow>
   string \<Rightarrow> string \<Rightarrow> string \<Rightarrow> ('q, 's, 'e) Manager \<times> 'w \<Rightarrow> (go_error + Response) \<times> ('q, 's, 'e) Manager \<times> 'w" where
  "manager_deliver chi net enc listening M meth url request c =
     (case net url of
        None \<Rightarrow> (Inl (External ''no such host''), c)
      | Some (addr, path) \<Rightarrow>
          (if addr \<noteq> listening then (Inl (External ''connection refused''), c)
           else (let (resp, c') = Manager_ServeHTTP chi enc M meth path request c in (Inr resp, c'))))"

lemma manager_routes_nth [simp]:
  "manager_routes ! 0 = (''POST'', ''/tasks/'', M_StartTask)" "manager_routes ! Suc 0 = (''GET'', ''/tasks/'', M_GetTasks)"
  "manager_routes ! 2 = (''DELETE'', ''/tasks/{taskID}/'', M_StopTask)"
  by (simp_all add: manager_routes_def)

section \<open>The interface\<close>

locale client_manager = man: manager_env M held ok contents
  for M :: "('q, 's, 'e, 'w) menv" and held ok contents +
  fixes C :: "('g, ('q, 's, 'e) Manager \<times> 'w) cenv" and chi :: chi and net :: "string \<Rightarrow> (string \<times> string) option"
    and enc :: "manager_payload body \<Rightarrow> string" and listening :: string and tgt :: target
  assumes client: "ce_Get C = (\<lambda>url. manager_deliver chi net enc listening M ''GET'' url '''')"
      "ce_Post C = (\<lambda>url ct request. manager_deliver chi net enc listening M ''POST'' url request)"
      "ce_Do_Delete C = (\<lambda>url. manager_deliver chi net enc listening M ''DELETE'' url '''')"
    and chi: "chi (patterns manager_routes) ''POST'' ''/tasks'' = Inr (0, '''')"
      "chi (patterns manager_routes) ''GET'' ''/tasks'' = Inr (1, '''')"
      "x \<noteq> '''' \<Longrightarrow> CHR ''/'' \<notin> set x \<Longrightarrow> chi (patterns manager_routes) ''DELETE'' (''/tasks/'' @ x) = Inr (2, x)"
    and json: "ce_MarshalIndent C te = Inr request \<Longrightarrow> me_decode_TaskEvent M request = Inr te"
      "decode_Tasks (ce_codec C) (enc (PayloadBody (TaskListPayload ts))) = Inr ts"
    and uuid: "me_uuid_Parse M (ce_uuid_String C i) = Inr i" "ce_uuid_String C i \<noteq> ''''"
      "CHR ''/'' \<notin> set (ce_uuid_String C i)"
    and net: "net (tasksURL tgt) = Some (listening, ''/tasks'')"
      "net (tasksURL tgt @ ''/'' @ x) = Some (listening, ''/tasks/'' @ x)"
      "ce_NewRequest C meth (tasksURL tgt @ ''/'' @ x) = None"
begin

lemma submit_queues:
  assumes "ce_MarshalIndent C te = Inr request"
  shows "\<exists>out. submitTaskEvent C tgt te False (m, w) = (None, out, Manager_AddTask M te m, w)"
  using assms json(1) [OF assms]
  by (simp add: submitTaskEvent_def client manager_deliver_def net Manager_ServeHTTP_def chi
      Manager_StartTaskHandler_def response_def reply_defs status_defs)

lemma stop_known:
  assumes "Manager_LookupTask M i m = Some t"
  shows "\<exists>out te w'. Cli_stopTask C tgt i (m, w) = (None, out, Manager_AddTask M te m, w') \<and>
    teTask te = t\<lparr>tState := Completed\<rparr> \<and> teState te = Completed"
proof -
  obtain u w1 where u: "me_uuid_New M w = (u, w1)" by fastforce
  obtain now w2 where n: "me_now M w1 = (now, w2)" by fastforce
  let ?te = "\<lparr>teID = u, teState = Completed, teTimestamp = now, teTask = t\<lparr>tState := Completed\<rparr>\<rparr>"
  have "Cli_stopTask C tgt i (m, w) =
      (None, ''task '' @ ce_uuid_String C i @ '' scheduled to stop'' @ newline, Manager_AddTask M ?te m, w2)"
    using assms u n
    by (simp add: Cli_stopTask_def client manager_deliver_def net [simplified] Manager_ServeHTTP_def chi(3) [simplified] uuid
        Manager_StopTaskHandler_def response_def reply_defs status_defs Let_def)
  then show ?thesis by (intro exI [of _ "''task '' @ ce_uuid_String C i @ '' scheduled to stop'' @ newline"] exI [of _ ?te]) simp
qed

lemma stop_unknown:
  assumes "Manager_LookupTask M i m = None"
  shows "\<exists>err. Cli_stopTask C tgt i (m, w) = (Some err, '''', m, w)"
  using assms
  by (simp add: Cli_stopTask_def client manager_deliver_def net [simplified] Manager_ServeHTTP_def chi(3) [simplified] uuid
      Manager_StopTaskHandler_def response_def reply_defs status_defs Let_def)

lemma status_lists:
  assumes "Manager_GetTasks M m = Inr ts"
  shows "printTaskStatus C tgt (m, w) =
    (if ts = [] then (None, ''no tasks'' @ newline, m, w)
     else (let (err, out) = ce_Flush C (status_heading @ concat (map (status_row C) ts)) in (err, out, m, w)))"
  using assms
  by (simp add: printTaskStatus_def client manager_deliver_def net Manager_ServeHTTP_def chi
      Manager_GetTasksHandler_def response_def reply_defs json(2) status_defs split: prod.splits)

lemma AddTask_pending: "contents (mPending (Manager_AddTask M te m)) = contents (mPending m) @ [te]"
  by (simp add: Manager_AddTask_def enqueueEvent_def)

end

section \<open>A concrete client\<close>

definition wire_manager_enc :: "manager_payload body \<Rightarrow> string" where
  "wire_manager_enc b =
     (case b of ErrorBody e \<Rightarrow> to_wire error_c e
      | PayloadBody (EventPayload te) \<Rightarrow> to_wire event_c te
      | PayloadBody (TaskListPayload ts) \<Rightarrow> to_wire (list_c task_c) ts)"

definition wire_target :: target where
  "wire_target = \<lparr>host = ''h'', port = 2\<rparr>"

abbreviation wire_request :: "string \<Rightarrow> string \<Rightarrow> string \<Rightarrow>
    (TaskEvent list, Task InMemory, TaskEvent InMemory) Manager \<times> (Task list, Task InMemory, string list) world \<Rightarrow>
    (go_error + Response) \<times> (TaskEvent list, Task InMemory, TaskEvent InMemory) Manager \<times> (Task list, Task InMemory, string list) world" where
  "wire_request \<equiv> manager_deliver seg_chi http_net wire_manager_enc ''http://h:2'' wire_menv"

definition wire_client ::
  "(string, (TaskEvent list, Task InMemory, TaskEvent InMemory) Manager \<times> (Task list, Task InMemory, string list) world) cenv" where
  "wire_client =
     \<lparr>ce_ReadStdin = (\<lambda>w. (Inr '''', w)), ce_ReadFile = (\<lambda>p w. (Inr ''{}'', w)), ce_yaml_Unmarshal = Inr,
      ce_json_Marshal = Inr, ce_decode_TaskEvent = from_wire event_c, ce_MarshalIndent = (\<lambda>te. Inr (to_wire event_c te)),
      ce_Indent = Inr, ce_codec = wire_codec, ce_uuid_String = uuid_text, ce_uuid_Parse = uuid_parse,
      ce_uuid_New = (\<lambda>w. (9, w)), ce_now = (\<lambda>w. (5, w)), ce_Get = (\<lambda>u. wire_request ''GET'' u ''''),
      ce_Post = (\<lambda>u ct b. wire_request ''POST'' u b), ce_NewRequest = (\<lambda>meth u. None),
      ce_Do_Delete = (\<lambda>u. wire_request ''DELETE'' u ''''),
      ce_ReadBody = (\<lambda>r. Inr (Body r)), ce_Status = (\<lambda>r. itoa (StatusCode r)), ce_Flush = (\<lambda>s. (None, s))\<rparr>"

lemma seg_chi_manager:
  "seg_chi (patterns manager_routes) ''POST'' ''/tasks'' = Inr (0, '''')"
  "seg_chi (patterns manager_routes) ''GET'' ''/tasks'' = Inr (1, '''')"
  "x \<noteq> '''' \<Longrightarrow> CHR ''/'' \<notin> set x \<Longrightarrow> seg_chi (patterns manager_routes) ''DELETE'' (''/tasks/'' @ x) = Inr (2, x)"
proof -
  have u: "[0..<3] = [0, 1, 2 :: nat]" by (simp add: upt_rec)
  show "seg_chi (patterns manager_routes) ''POST'' ''/tasks'' = Inr (0, '''')"
    "seg_chi (patterns manager_routes) ''GET'' ''/tasks'' = Inr (1, '''')"
    by (simp_all add: seg_chi_def manager_routes_def segments_def u)
  show "seg_chi (patterns manager_routes) ''DELETE'' (''/tasks/'' @ x) = Inr (2, x)" if "x \<noteq> ''''" "CHR ''/'' \<notin> set x"
    using that by (simp add: seg_chi_def manager_routes_def segments_def u split_slash_plain)
qed

lemma wire_target_url: "tasksURL wire_target = ''http://h:2/tasks''"
  by (simp add: tasksURL_def wire_target_def itoa_2)

lemma wire_target_net:
  "http_net (tasksURL wire_target) = Some (''http://h:2'', ''/tasks'')"
  "http_net (tasksURL wire_target @ ''/'' @ x) = Some (''http://h:2'', ''/tasks/'' @ x)"
  by (simp_all add: wire_target_url http_net_def)

lemma wire_client_manager:
  "client_manager wire_menv InMemory_held InMemory_ok inner wire_client seg_chi http_net wire_manager_enc ''http://h:2'' wire_target"
proof (intro client_manager.intro wire_manager client_manager_axioms.intro)
  show "CHR ''/'' \<notin> set (ce_uuid_String wire_client i)" for i
    by (simp add: wire_client_def uuid_text_def unary_def)
  show "seg_chi (patterns manager_routes) ''DELETE'' (''/tasks/'' @ x) = Inr (2, x)" if "x \<noteq> ''''" "CHR ''/'' \<notin> set x" for x
    using that by (rule seg_chi_manager(3))
  show "http_net (tasksURL wire_target @ ''/'' @ x) = Some (''http://h:2'', ''/tasks/'' @ x)" for x
    by (rule wire_target_net(2))
qed (simp_all add: seg_chi_manager(1,2) [simplified] wire_target_net(1), simp_all add: wire_client_def wire_menv_def
    wire_codec_def wire_manager_enc_def uuid_text_def uuid_parse_def unary_def)

interpretation cm: client_manager wire_menv InMemory_held InMemory_ok inner wire_client seg_chi http_net wire_manager_enc
  "''http://h:2''" wire_target
  by (rule wire_client_manager)

section \<open>Properties\<close>

text \<open>
  C3. The command line drives the manager: against a running manager, submitting an event exits
  with code 0 and puts exactly that event at the end of the manager's queue; stopping a task the
  manager has a record of exits with code 0 and queues a \<open>Completed\<close> copy of that record, while
  for any other task it exits with code 1 and changes nothing; and asking for the status changes
  nothing and shows one row for each record.
\<close>

theorem client_drives_manager:
  assumes CM: "client_manager M held ok contents C chi net enc listening tgt"
    and e: "ce_MarshalIndent C te = Inr request"
  shows "(\<exists>err out m' . submitTaskEvent C tgt te False (m, w) = (err, out, m', w) \<and> fst (main err) = 0 \<and>
      contents (mPending m') = contents (mPending m) @ [te]) \<and>
    (\<exists>err out m' w'. Cli_stopTask C tgt i (m, w) = (err, out, m', w') \<and>
      (case Manager_LookupTask M i m of
         None \<Rightarrow> fst (main err) = 1 \<and> m' = m
       | Some t \<Rightarrow> fst (main err) = 0 \<and>
           (\<exists>se. teTask se = t\<lparr>tState := Completed\<rparr> \<and> contents (mPending m') = contents (mPending m) @ [se]))) \<and>
    (\<forall>ts. Manager_GetTasks M m = Inr ts \<and> ts \<noteq> [] \<longrightarrow>
      (\<exists>err out. ce_Flush C (status_heading @ concat (map (status_row C) ts)) = (err, out) \<and>
         printTaskStatus C tgt (m, w) = (err, out, m, w)))"
proof (intro conjI allI impI)
  note pending = client_manager.AddTask_pending [OF CM]
  obtain out where "submitTaskEvent C tgt te False (m, w) = (None, out, Manager_AddTask M te m, w)"
    using client_manager.submit_queues [OF CM e] by blast
  then show "\<exists>err out m' . submitTaskEvent C tgt te False (m, w) = (err, out, m', w) \<and> fst (main err) = 0 \<and>
      contents (mPending m') = contents (mPending m) @ [te]"
    by (simp add: main_def pending)
  show "\<exists>err out m' w'. Cli_stopTask C tgt i (m, w) = (err, out, m', w') \<and>
      (case Manager_LookupTask M i m of
         None \<Rightarrow> fst (main err) = 1 \<and> m' = m
       | Some t \<Rightarrow> fst (main err) = 0 \<and>
           (\<exists>se. teTask se = t\<lparr>tState := Completed\<rparr> \<and> contents (mPending m') = contents (mPending m) @ [se]))"
  proof (cases "Manager_LookupTask M i m")
    case None
    then show ?thesis using client_manager.stop_unknown [OF CM None, of w] by (auto simp: main_def)
  next
    case (Some t)
    obtain out se w' where "Cli_stopTask C tgt i (m, w) = (None, out, Manager_AddTask M se m, w')"
      "teTask se = t\<lparr>tState := Completed\<rparr>"
      using client_manager.stop_known [OF CM Some] by blast
    then show ?thesis using Some by (auto simp: main_def pending)
  qed
next
  fix ts
  assume "Manager_GetTasks M m = Inr ts \<and> ts \<noteq> []"
  then show "\<exists>err out. ce_Flush C (status_heading @ concat (map (status_row C) ts)) = (err, out) \<and>
      printTaskStatus C tgt (m, w) = (err, out, m, w)"
    using client_manager.status_lists [OF CM, of m ts w]
    by (cases "ce_Flush C (status_heading @ concat (map (status_row C) ts))") simp
qed

theorem client_drives_manager_witness:
  "let te = sample_event (sample_task Scheduled 0); m = manager_with rr0 [node_h] [] [] [] in
   \<exists>err out m'. submitTaskEvent wire_client wire_target te False (m, world_with []) = (err, out, m', world_with []) \<and>
     fst (main err) = 0 \<and> inner (mPending m') = [te]"
proof -
  let ?te = "sample_event (sample_task Scheduled 0)" and ?m = "manager_with rr0 [node_h] [] [] []"
  have "ce_MarshalIndent wire_client ?te = Inr (to_wire event_c ?te)" by (simp add: wire_client_def)
  from client_drives_manager [OF wire_client_manager this, THEN conjunct1, of ?m "world_with []"]
  show ?thesis by (simp add: Let_def manager_with_def)
qed

end
