(* ===== verification/Orch_System.thy ===== *)
theory Orch_System
  imports Orch_Cluster
begin

text \<open>
  Runs of the whole system: one manager, its workers, and clients of both. A step is one request
  to a server or one round of a loop of either program, in any order. What is known of a task is
  followed through the system, from the client's request to the manager's queue, the worker's
  queue, the worker's records and the manager's records, by one predicate for each of these
  places (the locale \<open>task_flow\<close>); its instances are the properties.
\<close>

section \<open>Steps\<close>

text \<open>A round of the update loop and of the statistics loop of the worker at an address.\<close>

definition update_worker :: "('q, 's, 'd) wenv \<Rightarrow> string \<Rightarrow> ('q, 's, 'd) world \<Rightarrow> ('q, 's, 'd) world" where
  "update_worker W addr c =
     (case workers c addr of
        None \<Rightarrow> c
      | Some w \<Rightarrow> (let (w', d) = Worker_updateTasks W w (outside c) in c\<lparr>workers := (workers c)(addr \<mapsto> w'), outside := d\<rparr>))"

definition collect_worker :: "('q, 's, 'd) wenv \<Rightarrow> probes \<Rightarrow> string \<Rightarrow> ('q, 's, 'd) world \<Rightarrow> ('q, 's, 'd) world" where
  "collect_worker W pr addr c =
     (case workers c addr of
        None \<Rightarrow> c
      | Some w \<Rightarrow> c\<lparr>workers := (workers c)(addr \<mapsto> CollectStats_round W pr w)\<rparr>)"

type_synonym ('q, 's, 'e, 'p, 't, 'd) sys = "('q, 's, 'e) Manager \<times> ('p, 't, 'd) world"

text \<open>
  \<open>submits\<close> is what is known of the tasks that clients submit, to the manager or, as the worker's
  API allows, to a worker.
\<close>

text \<open>Every step but a round of the manager's scheduling loop, then every step.\<close>

inductive other_step ::
  "('q, 's, 'e, ('p, 't, 'd) world) menv \<Rightarrow> ('p, 't, 'd) wenv \<Rightarrow> chi \<Rightarrow> (string \<Rightarrow> (string \<times> string) option) \<Rightarrow>
   (worker_payload body \<Rightarrow> string) \<Rightarrow> (Task \<Rightarrow> bool) \<Rightarrow> ('q, 's, 'e, 'p, 't, 'd) sys \<Rightarrow> ('q, 's, 'e, 'p, 't, 'd) sys \<Rightarrow> bool"
  for M W chi net enc submits where
  sys_start: "Manager_StartTaskHandler M request m = (reply, m') \<Longrightarrow>
    (\<And>te. me_decode_TaskEvent M request = Inr te \<Longrightarrow> submits (teTask te)) \<Longrightarrow>
    other_step M W chi net enc submits (m, c) (m', c)"
| sys_stop: "Manager_StopTaskHandler M taskID m c = (reply, m', c') \<Longrightarrow> other_step M W chi net enc submits (m, c) (m', c')"
| sys_update: "Manager_updateTasks M m c = (m', c') \<Longrightarrow> other_step M W chi net enc submits (m, c) (m', c')"
| sys_health: "doHealthChecks M m c = Inr (m', c') \<Longrightarrow> other_step M W chi net enc submits (m, c) (m', c')"
| sys_client: "deliver chi net enc W meth url request c = (reply, c') \<Longrightarrow>
    (\<And>te. we_decode_TaskEvent W request = Inr te \<Longrightarrow> submits (teTask te)) \<Longrightarrow>
    other_step M W chi net enc submits (m, c) (m, c')"
| sys_run: "other_step M W chi net enc submits (m, c) (m, run_worker W addr c)"
| sys_refresh: "other_step M W chi net enc submits (m, c) (m, update_worker W addr c)"
| sys_collect: "other_step M W chi net enc submits (m, c) (m, collect_worker W pr addr c)"
| sys_outside: "other_step M W chi net enc submits (m, c) (m, c\<lparr>outside := d\<rparr>)"

inductive system_step ::
  "('q, 's, 'e, ('p, 't, 'd) world) menv \<Rightarrow> ('p, 't, 'd) wenv \<Rightarrow> chi \<Rightarrow> (string \<Rightarrow> (string \<times> string) option) \<Rightarrow>
   (worker_payload body \<Rightarrow> string) \<Rightarrow> (Task \<Rightarrow> bool) \<Rightarrow> ('q, 's, 'e, 'p, 't, 'd) sys \<Rightarrow> ('q, 's, 'e, 'p, 't, 'd) sys \<Rightarrow> bool"
  for M W chi net enc submits where
  sys_send: "SendWork M m c = Inr (m', c') \<Longrightarrow> system_step M W chi net enc submits (m, c) (m', c')"
| sys_other: "other_step M W chi net enc submits x y \<Longrightarrow> system_step M W chi net enc submits x y"

inductive system_run ::
  "('q, 's, 'e, ('p, 't, 'd) world) menv \<Rightarrow> ('p, 't, 'd) wenv \<Rightarrow> chi \<Rightarrow> (string \<Rightarrow> (string \<times> string) option) \<Rightarrow>
   (worker_payload body \<Rightarrow> string) \<Rightarrow> (Task \<Rightarrow> bool) \<Rightarrow> ('q, 's, 'e, 'p, 't, 'd) sys \<Rightarrow> ('q, 's, 'e, 'p, 't, 'd) sys \<Rightarrow> bool"
  for M W chi net enc submits where
  sys_refl: "system_run M W chi net enc submits x x"
| sys_snoc: "system_run M W chi net enc submits x y \<Longrightarrow> system_step M W chi net enc submits y z \<Longrightarrow>
    system_run M W chi net enc submits x z"

inductive_cases system_stepE: "system_step M W chi net enc submits x y"
inductive_cases other_stepE: "other_step M W chi net enc submits x y"

text \<open>Seen from the manager, every step is one of its own or happens in its world.\<close>

lemma system_step_manager: "system_step M W chi net enc submits x y \<Longrightarrow> manager_step M x y"
  by (erule system_stepE) (auto intro: manager_step.intros elim!: other_stepE)

lemma system_run_manager: "system_run M W chi net enc submits x y \<Longrightarrow> manager_run M x y"
  by (induction rule: system_run.induct) (auto intro: manager_run.intros dest: system_step_manager)

section \<open>What the manager's calls leave alone\<close>

text \<open>A view of the world that no request and no wait changes is not changed by a score.\<close>

lemma retry_loop_view:
  assumes "\<And>u x. v (snd (fn u x)) = v x" and "\<And>n x. v (snd (wait_or_done ctx n x)) = v x"
    and "retry_loop ctx cfg fn url n vars w = (r, w')"
  shows "v w' = v w"
  using assms(3)
proof (induction n arbitrary: vars w)
  case (Suc n)
  obtain a w1 where f: "fn url w = (a, w1)" by fastforce
  then have w1: "v w1 = v w" using assms(1) [of url w] by simp
  obtain b w2 where d: "wait_or_done ctx (delay cfg) w1 = (b, w2)" by fastforce
  then have w2: "v w2 = v w" using assms(2) [of "delay cfg" w1] w1 by simp
  show ?case using Suc.prems Suc.IH f d w1 w2 by (auto split: sum.splits option.splits if_splits) 
qed simp

lemma GetStats_view:
  assumes "\<And>u x. v (snd (get u x)) = v x" and "\<And>n x. v (snd (wait_or_done ctx n x)) = v x"
    and "GetStats J ctx get n w = (r, w')"
  shows "v w' = v w"
proof -
  obtain a where "HTTPWithRetry ctx get (statsURL n) [] w = (a, w')"
    using assms(3) by (auto simp: GetStats_def Let_def simp del: default_limit split: prod.splits option.splits if_splits sum.splits)
  then show ?thesis using retry_loop_view [OF assms(1,2)] by (simp add: HTTPWithRetry_def Let_def)
qed

locale scoring_view =
  fixes env :: "'w sched_env" and v :: "'w \<Rightarrow> 'a"
  assumes get_view: "v (snd (se_get env url w)) = v w"
    and wait_view: "v (snd (wait_or_done (se_ctx env) n w)) = v w"
begin

lemma score_candidate_view: "score_candidate env t n w = (r, w') \<Longrightarrow> v w' = v w"
  using GetStats_view [of v "se_get env" "se_ctx env" "se_codec env" n w, OF get_view wait_view]
  by (auto simp: score_candidate_def split: prod.splits sum.splits)

lemma run_goroutines_view: "run_goroutines env t cands is st w = Inr (st', w') \<Longrightarrow> v w' = v w"
proof (induction "is" arbitrary: st w)
  case (Cons i "is")
  obtain r w1 where "score_candidate env t (cands ! i) w = (r, w1)" by fastforce
  with Cons score_candidate_view [OF this] show ?case by (auto split: sum.splits)
qed simp

lemma Score_view: "Score env t nodes s w = Inr (r, s', w') \<Longrightarrow> v w' = v w"
  using run_goroutines_view
  by (cases s) (auto simp: MarginalCost_Score_def Let_def split: sum.splits prod.splits if_splits)

end

lemma SelectWorker_view:
  assumes "scoring_view (me_sched M) v" and "SelectWorker M t m w = Inr (r, m1, w1)"
  shows "v w1 = v w"
  using assms(2) scoring_view.Score_view [OF assms(1)]
  by (auto simp: SelectWorker_def pickWorker_def Let_def split: sum.splits option.splits prod.splits if_splits)

section \<open>Tasks on their way\<close>

text \<open>
  \<open>E\<close> is known of the pending events' tasks, \<open>K\<close> of the manager's records, \<open>U\<close> of the tasks
  in the workers' queues and \<open>R\<close> of the workers' records, when \<open>submits\<close> is known of what clients
  submit, \<open>H\<close> of the host ports that Docker reports and \<open>I\<close> of a task and a container launched
  for it. The laws say that everything the code does to a task stays within them.
\<close>

locale task_flow =
  fixes submits E K U R :: "Task \<Rightarrow> bool" and H :: "PortMap \<Rightarrow> bool" and I :: "Task \<Rightarrow> string \<Rightarrow> bool"
  assumes submit: "submits t \<Longrightarrow> E t" "submits t \<Longrightarrow> U t"
    and send: "E t \<Longrightarrow> U t" "E t \<Longrightarrow> K t"
    and stop: "K t \<Longrightarrow> E (t\<lparr>tState := Completed\<rparr>)" "K t \<Longrightarrow> K (t\<lparr>tState := Completed\<rparr>)"
    and restart: "K t \<Longrightarrow> E (restarted t)" "K t \<Longrightarrow> K (restarted t)"
    and report: "K t \<Longrightarrow> R r \<Longrightarrow> tID t = tID r \<Longrightarrow> K (mergeTaskUpdate t r)"
    and accept: "U t \<Longrightarrow> R t"
    and worker_stop: "R t \<Longrightarrow> U (t\<lparr>tState := Completed\<rparr>)"
    and callbacks: "R t \<Longrightarrow> R (start_failed s t)" "R t \<Longrightarrow> R (stop_succeeded s t)" "R t \<Longrightarrow> R (mark_failed t)"
    and ports: "R t \<Longrightarrow> U q \<Longrightarrow> tID t = tID q \<Longrightarrow> I q i \<Longrightarrow> R (start_succeeded s i (tHostPorts q) t)"
      "R t \<Longrightarrow> U q \<Longrightarrow> tID t = tID q \<Longrightarrow> I q i \<Longrightarrow> H h \<Longrightarrow> R (start_succeeded s i h t)" "R t \<Longrightarrow> H h \<Longrightarrow> R (refresh h x t)"

text \<open>What the whole system relies on beyond \<open>cluster\<close>: chi matches methods, the scheduler
  fetches statistics over the same network, and clocks, identifiers, waits and the start of a
  map range leave the workers alone.\<close>

locale system = cluster M held ok contents W wheld wok wcontents chi net enc addrs
  for M :: "('q, 's, 'e, ('p, 't, 'd) world) menv" and held ok contents
    and W :: "('p, 't, 'd) wenv" and wheld wok wcontents and chi net enc addrs +
  assumes chi_method: "chi (patterns worker_routes) meth path = Inr (i, x) \<Longrightarrow> i < length worker_routes \<and> fst (worker_routes ! i) = meth"
    and stats_get: "se_get (me_sched M) = httpapi_Get (me_NewRequest M) (\<lambda>url. deliver chi net enc W ''GET'' url '''')"
    and quiet: "workers (snd (wait_or_done (se_ctx (me_sched M)) n c)) = workers c"
      "workers (snd (me_uuid_New M c)) = workers c" "workers (snd (me_now M c)) = workers c"
      "workers (snd (me_range_first M c)) = workers c"

lemma worker_routes_3 [simp]: "worker_routes ! 3 = (''GET'', ''/stats/'', W_GetStats)"
  by (simp add: worker_routes_def)

context system
begin

lemma routed:
  assumes "chi (patterns worker_routes) meth path = Inr (i, x)"
  shows "i < 4" "fst (worker_routes ! i) = meth"
proof -
  have "length worker_routes = 4" by (simp add: worker_routes_def)
  then show "i < 4" "fst (worker_routes ! i) = meth" using chi_method [OF assms] by simp_all
qed

text \<open>What a worker's handlers do to the worker.\<close>

lemma served_effect:
  assumes "Worker_ServeHTTP chi enc W meth path request w = (resp, w')"
  shows "w' = w \<or>
    (\<exists>te. meth = ''POST'' \<and> we_decode_TaskEvent W request = Inr te \<and> w' = Worker_AddTask W (teTask te) w) \<or>
    (\<exists>i t. meth = ''DELETE'' \<and> LookupTask W i w = Some t \<and> w' = Worker_AddTask W (t\<lparr>tState := Completed\<rparr>) w)"
proof (cases "chi (patterns worker_routes) meth path")
  case (Inr r)
  obtain i x where r: "r = (i, x)" by (cases r)
  note i = routed [OF Inr [unfolded r]]
  from i consider "i = 0" | "i = 1" | "i = 2" | "i = 3" by linarith
  then show ?thesis
  proof cases
    case 1
    then show ?thesis
      using assms Inr r i
      by (auto simp: Worker_ServeHTTP_def Worker_StartTaskHandler_def split: sum.splits)
  next
    case 3
    then show ?thesis
      using assms Inr r i
      by (auto simp: Worker_ServeHTTP_def Worker_StopTaskHandler_def split: sum.splits option.splits if_splits)
  qed (use assms Inr r in \<open>simp_all add: Worker_ServeHTTP_def\<close>)
qed (use assms in \<open>simp add: Worker_ServeHTTP_def\<close>)

lemma deliver_effect:
  assumes "deliver chi net enc W meth url request c = (reply, c')"
  shows "c' = c \<or> (\<exists>a w w'. workers c a = Some w \<and> c' = c\<lparr>workers := (workers c)(a \<mapsto> w')\<rparr> \<and>
    ((\<exists>te. meth = ''POST'' \<and> we_decode_TaskEvent W request = Inr te \<and> w' = Worker_AddTask W (teTask te) w) \<or>
     (\<exists>i t. meth = ''DELETE'' \<and> LookupTask W i w = Some t \<and> w' = Worker_AddTask W (t\<lparr>tState := Completed\<rparr>) w)))"
proof (cases "net url")
  case (Some ap)
  obtain a path where ap: "ap = (a, path)" by (cases ap)
  show ?thesis
  proof (cases "workers c a")
    case w: (Some w)
    obtain resp w' where r: "Worker_ServeHTTP chi enc W meth path request w = (resp, w')" by fastforce
    then have c': "c' = c\<lparr>workers := (workers c)(a \<mapsto> w')\<rparr>" using assms Some ap w by (simp add: deliver_def)
    from served_effect [OF r] show ?thesis
    proof
      assume "w' = w"
      then have "c' = c" using c' w by (simp add: fun_upd_idem)
      then show ?thesis ..
    qed (use c' w in blast)
  qed (use assms Some ap in \<open>simp add: deliver_def\<close>)
qed (use assms in \<open>simp add: deliver_def\<close>)

lemma deliver_cases:
  assumes "deliver chi net enc W meth url request c = (reply, c')"
  obtains (same) "c' = c"
  | (start) te a w where "meth = ''POST''" "we_decode_TaskEvent W request = Inr te" "workers c a = Some w"
      "c' = c\<lparr>workers := (workers c)(a \<mapsto> Worker_AddTask W (teTask te) w)\<rparr>"
  | (stop) i t a w where "meth = ''DELETE''" "workers c a = Some w" "LookupTask W i w = Some t"
      "c' = c\<lparr>workers := (workers c)(a \<mapsto> Worker_AddTask W (t\<lparr>tState := Completed\<rparr>) w)\<rparr>"
  using deliver_effect [OF assms] by blast

text \<open>A GET changes nothing.\<close>

lemma deliver_get: "snd (deliver chi net enc W ''GET'' url request c) = c"
proof -
  obtain reply c' where d: "deliver chi net enc W ''GET'' url request c = (reply, c')" by fastforce
  from deliver_effect [OF d] have "c' = c" by simp
  with d show ?thesis by simp
qed

lemma scoring: "scoring_view (me_sched M) workers"
  by unfold_locales (simp_all add: stats_get httpapi_Get_def deliver_get quiet split: option.splits)

end

text \<open>The statistics of a worker, once collected, name the memory.\<close>

definition stats_complete :: "('q, 's) Worker \<Rightarrow> bool" where
  "stats_complete w \<longleftrightarrow> (\<forall>st. wStats w = Some st \<longrightarrow> MemStats st \<noteq> None)"

lemma stats_complete_cong: "wStats w' = wStats w \<Longrightarrow> stats_complete w' = stats_complete w"
  by (simp add: stats_complete_def)

lemma wStats_kept [simp]:
  "wStats (upsertTask W b f w) = wStats w" "wStats (putTask W t w) = wStats w" "wStats (Worker_AddTask W t w) = wStats w"
  "wStats (snd (dequeueTask W w)) = wStats w"
  by (simp_all add: upsertTask_def putTask_def putTaskLocked_def Worker_AddTask_def enqueueTask_def dequeueTask_def Let_def split_beta)

locale system_flow = system M held ok contents W wheld wok wcontents chi net enc addrs + task_flow submits E K U R H I
  for M :: "('q, 's, 'e, ('p, 't, 'd) world) menv" and held ok contents
    and W :: "('p, 't, 'd) wenv" and wheld wok wcontents and chi net enc addrs and submits E K U R H I +
  assumes daemon: "reported (we_docker W) h \<Longrightarrow> H h" and runs: "launched (we_docker W) q i \<Longrightarrow> I q i"
begin

definition worker_flows :: "('p, 't) Worker \<Rightarrow> bool" where
  "worker_flows w \<longleftrightarrow> wf_worker wheld wok W w \<and> (\<forall>q \<in> set (wcontents (wQueue w)). U q) \<and>
     (\<forall>i t. stored wheld W w i = Some t \<longrightarrow> R t) \<and> stats_complete w"

definition world_flows :: "('p, 't, 'd) world \<Rightarrow> bool" where
  "world_flows c \<longleftrightarrow> (\<forall>a w. workers c a = Some w \<longrightarrow> worker_flows w)"

definition manager_flows :: "('q, 's, 'e) Manager \<Rightarrow> bool" where
  "manager_flows m \<longleftrightarrow> keyed_tasks held ok M m \<and> (\<forall>n \<in> set (mWorkerNodes m). nAPI n \<in> addrs) \<and>
     (\<forall>te \<in> set (contents (mPending m)). E (teTask te)) \<and> (\<forall>i t. known held M m i = Some t \<longrightarrow> K t)"

lemma world_flows_cong: "workers c' = workers c \<Longrightarrow> world_flows c' = world_flows c"
  by (simp add: world_flows_def)

lemma world_flows_upd: "world_flows c \<Longrightarrow> worker_flows w \<Longrightarrow> workers c' = (workers c)(a \<mapsto> w) \<Longrightarrow> world_flows c'"
  by (simp add: world_flows_def)

subsection \<open>The workers\<close>

lemma AddTask_flows: "worker_flows w \<Longrightarrow> U t \<Longrightarrow> worker_flows (Worker_AddTask W t w)"
  by (simp add: worker_flows_def added_task(2,3) stats_complete_cong [of "Worker_AddTask W t w" w])
    (simp add: Worker_AddTask_def enqueueTask_def)

lemma upsert_flows:
  assumes "worker_flows w" and "R b" and f: "\<And>p. tID (f p) = tID p" "\<And>p. R p \<Longrightarrow> tID p = tID b \<Longrightarrow> R (f p)"
  shows "worker_flows (upsertTask W b f w)"
proof -
  have wf: "wf_worker wheld wok W w" using assms(1) by (simp add: worker_flows_def)
  have "R (wrk.current b w)"
    using assms(1,2) by (auto simp: wrk.current_def worker_flows_def split: option.splits)
  moreover have "wQueue (upsertTask W b f w) = wQueue w" by (simp add: upsertTask_def putTaskLocked_def Let_def)
  ultimately show ?thesis
    using assms(1) wrk.upsertTask_stored [OF wf f(1)] f(2) wrk.current_ID [OF wf, of b] stats_complete_cong [of "upsertTask W b f w" w]
    by (auto simp: worker_flows_def)
qed

lemma StartTask_flows:
  assumes "worker_flows w" and "U q" and "StartTask W q w d = (r, w', d')"
  shows "worker_flows w'"
proof -
  note up = upsert_flows [OF assms(1) accept [OF assms(2)]]
  show ?thesis
  proof (rule StartTask_ports [OF assms(3)])
    show "worker_flows (upsertTask W q (start_failed s) w)" for s
      by (rule up) (simp_all add: callbacks(1))
    show "worker_flows (upsertTask W q (start_succeeded s i (tHostPorts q)) w)" if "launched (we_docker W) q i" for s i
      by (rule up) (simp_all add: ports(1) [OF _ assms(2)] runs [OF that])
    show "worker_flows (upsertTask W q (start_succeeded s i (Some h)) w)" if "launched (we_docker W) q i" "reported (we_docker W) (Some h)" for s i h
      by (rule up) (simp_all add: ports(2) [OF _ assms(2)] runs [OF that(1)] daemon [OF that(2)])
  qed
qed

lemma StopTask_flows:
  assumes "worker_flows w" and "U q" and "StopTask W q w d = (r, w', d')"
  shows "worker_flows w'"
  using assms(3) by (cases rule: StopTask_cases) (auto intro: assms(1) upsert_flows [OF assms(1) accept [OF assms(2)]] callbacks)

lemma dequeue_flows:
  assumes w: "worker_flows w" and d: "dequeueTask W w = (r, w')"
  shows "worker_flows w'" and "r = Some q \<Longrightarrow> U q"
proof -
  note deq = wrk.dequeueTask_only [OF d]
  have s1: "stats_complete w' = stats_complete w"
    using stats_complete_cong [of w' w] wStats_kept(4) [of W w] d by simp
  have "set (wcontents (wQueue w')) \<subseteq> set (wcontents (wQueue w))"
  proof (cases r)
    case None
    then show ?thesis
      using d wrk.tq.contents_Dequeue [of "wQueue w"] deq(3)
      by (auto simp: dequeueTask_def simp del: wrk.tq.contents_Dequeue split: prod.splits)
  qed (use deq in auto)
  then show "worker_flows w'" using w deq(1,2) s1 by (auto simp: worker_flows_def)
  show "r = Some q \<Longrightarrow> U q" using w deq by (auto simp: worker_flows_def)
qed

lemma put_worker_flows: "worker_flows w \<Longrightarrow> U q \<Longrightarrow> worker_flows (putTask W q w)"
  using wrk.putTask_stored [of w q] accept stats_complete_cong [OF wStats_kept(2) [of W q w]]
  by (auto simp: worker_flows_def putTask_def) (simp add: putTaskLocked_def)

lemma RunTask_flows:
  assumes w: "worker_flows w" and "RunTask W w d = (r, w', d')"
  shows "worker_flows w'"
  using assms(2)
proof (cases rule: RunTask_cases)
  case empty
  then show ?thesis using dequeue_flows(1) [OF w] by blast
next
  case (task q w1 p w2)
  have w1: "worker_flows w1" "U q" using dequeue_flows [OF w task(1)] by simp_all
  have "worker_flows w2" using task(2) w1 put_worker_flows by (auto split: option.splits)
  then show ?thesis
    using task(3) StartTask_flows [OF _ w1(2), of w2 d r w' d'] StopTask_flows [OF _ w1(2), of w2 d r w' d']
    by (auto split: if_splits)
qed

lemma run_worker_flows: "world_flows c \<Longrightarrow> world_flows (run_worker W a c)"
proof (cases "workers c a")
  case (Some w)
  assume c: "world_flows c"
  then have w: "worker_flows w" using Some by (auto simp: world_flows_def)
  obtain w' d where r: "RunTasks_round W w (outside c) = (w', d)" by fastforce
  then have "worker_flows w'"
    using w RunTask_flows [OF w] by (auto simp: RunTasks_round_def split: if_splits prod.splits)
  then show ?thesis using Some r c by (auto simp: run_worker_def intro: world_flows_upd)
qed (simp add: run_worker_def)

lemma listed_flows:
  assumes "worker_flows w" and "Worker_GetTasks W w = Inr ts" and "t \<in> set ts"
  shows "R t"
proof -
  have wf: "wf_worker wheld wok W w" using assms(1) by (simp add: worker_flows_def)
  have "List (we_store W) (wDb w) = Inr ts" using assms(2) by (auto simp: Worker_GetTasks_def listTasks_def split: sum.splits)
  then have "wheld (wDb w) (we_uuid_String W (tID t)) = Some t"
    using wrk.ts.List_distinct_keys [of "wDb w" ts "\<lambda>t. we_uuid_String W (tID t)"] wf assms(3) by (simp add: wf_worker_def)
  then have "stored wheld W w (tID t) = Some t" by (simp add: stored_def)
  then show ?thesis using assms(1) by (simp add: worker_flows_def)
qed

lemma inspected_ports: "InspectTask W t d = (resp, d1) \<Longrightarrow> diContainer resp = Some c \<Longrightarrow> H (irPorts c)"
  by (auto simp: InspectTask_def intro: daemon Docker_Inspect_reported split: prod.splits sum.splits)

lemma inspected_flows:
  "worker_flows w \<Longrightarrow> R t \<Longrightarrow> (\<And>c. diContainer resp = Some c \<Longrightarrow> H (irPorts c)) \<Longrightarrow> worker_flows (update_inspected W t resp w)"
  by (auto simp: update_inspected_def intro!: upsert_flows callbacks(3) ports(3) split: option.splits)

lemma updateTasks_loop_flows:
  assumes "worker_flows w" and "\<forall>t \<in> set ts. R t" and "updateTasks_loop W ts w d = (w', d')"
  shows "worker_flows w'"
  using assms
proof (induction ts arbitrary: w d)
  case (Cons t ts)
  have "worker_flows (update_inspected W t resp w)" if "InspectTask W t d = (resp, d1)" for resp d1
    using inspected_flows [of w t resp] inspected_ports [OF that] Cons.prems(1,2) by simp
  then show ?case
    using Cons.prems Cons.IH by (auto simp: Let_def split: if_splits prod.splits)
qed simp

lemma update_worker_flows: "world_flows c \<Longrightarrow> world_flows (update_worker W a c)"
proof (cases "workers c a")
  case (Some w)
  assume c: "world_flows c"
  then have w: "worker_flows w" using Some by (auto simp: world_flows_def)
  obtain w' d where r: "Worker_updateTasks W w (outside c) = (w', d)" by fastforce
  have "worker_flows w'"
  proof (cases "listTasks W w")
    case (Inr ts)
    then have "\<forall>t \<in> set ts. R t" using listed_flows [OF w] by (simp add: Worker_GetTasks_def)
    moreover have "updateTasks_loop W ts w (outside c) = (w', d)" using r Inr by (simp add: Worker_updateTasks_def)
    ultimately show ?thesis by (rule updateTasks_loop_flows [OF w])
  qed (use r w in \<open>simp add: Worker_updateTasks_def\<close>)
  then show ?thesis using Some r c by (auto simp: update_worker_def intro: world_flows_upd)
qed (simp add: update_worker_def)

lemma collect_flows: "worker_flows w \<Longrightarrow> worker_flows (CollectStats_round W pr w)"
proof -
  assume "worker_flows w"
  moreover have "stats_complete (CollectStats_round W pr w)"
    using NewStats_MemStats [of pr] by (auto simp: stats_complete_def CollectStats_round_def setStats_def)
  ultimately show ?thesis
    by (simp add: worker_flows_def CollectStats_round_def) (simp add: setStats_def)
qed

lemma collect_worker_flows: "world_flows c \<Longrightarrow> world_flows (collect_worker W pr a c)"
proof (cases "workers c a")
  case (Some w)
  assume c: "world_flows c"
  then have "worker_flows w" using Some by (auto simp: world_flows_def)
  then have "worker_flows (CollectStats_round W pr w)" by (rule collect_flows)
  then show ?thesis using Some c by (auto simp: collect_worker_def intro: world_flows_upd)
qed (simp add: collect_worker_def)

subsection \<open>Requests to a worker\<close>

lemma LookupTask_flows: "worker_flows w \<Longrightarrow> LookupTask W i w = Some t \<Longrightarrow> R t"
  using wrk.lookupTask_stored [of w i] by (simp add: LookupTask_def lookupTask_def worker_flows_def)

lemma deliver_flows:
  assumes c: "world_flows c" and d: "deliver chi net enc W meth url request c = (reply, c')"
    and sub: "meth = ''POST'' \<Longrightarrow> (\<And>te. we_decode_TaskEvent W request = Inr te \<Longrightarrow> U (teTask te))"
  shows "world_flows c'"
proof -
  have w: "worker_flows w" if "workers c a = Some w" for a w using c that by (auto simp: world_flows_def)
  show ?thesis
    using d
  proof (cases rule: deliver_cases)
    case (start te a w)
    then show ?thesis using world_flows_upd [OF c AddTask_flows [OF w [OF start(3)] sub]] by simp
  next
    case (stop i t a w)
    then show ?thesis
      using world_flows_upd [OF c AddTask_flows [OF w [OF stop(2)] worker_stop [OF LookupTask_flows [OF w [OF stop(2)]]]]] by simp
  qed (use c in simp)
qed

subsection \<open>The manager\<close>

lemma flows_keyed: "manager_flows m \<Longrightarrow> keyed_tasks held ok M m"
  by (simp add: manager_flows_def)

lemma known_flows: "manager_flows m \<Longrightarrow> known held M m i = Some t \<Longrightarrow> K t"
  by (simp add: manager_flows_def)

lemma lookup_known: "manager_flows m \<Longrightarrow> Manager_LookupTask M i m = Some t \<Longrightarrow> K t"
  by (rule known_flows [of m i]) (auto simp: Manager_LookupTask_def man.taskLocked_Inr [OF flows_keyed] split: sum.splits)

lemma address_flows: "manager_flows m \<Longrightarrow> workerAddress wn m = Some a \<Longrightarrow> a \<in> addrs"
  using workerAddress_node [of wn m a] by (auto simp: manager_flows_def)

lemma manager_flows_upd:
  assumes "manager_flows m" and "keyed_tasks held ok M m'" and "mWorkerNodes m' = mWorkerNodes m"
    and "mPending m' = mPending m"
    and "known held M m' = known held M m \<or> (\<exists>i t. K t \<and> known held M m' = (known held M m)(i \<mapsto> t))"
  shows "manager_flows m'"
  using assms by (auto simp: manager_flows_def split: if_splits)

lemma manager_flows_same:
  assumes "mTaskDb m' = mTaskDb m" and "mWorkerNodes m' = mWorkerNodes m" and "mPending m' = mPending m"
  shows "manager_flows m' = manager_flows m"
  by (simp add: manager_flows_def man.keyed_cong [OF assms(1)] man.known_cong [OF assms(1)] assms(2,3))

lemma enqueue_flows: "manager_flows m \<Longrightarrow> E (teTask te) \<Longrightarrow> manager_flows (enqueueEvent M te m)"
  by (simp add: manager_flows_def)

lemma next_flows:
  assumes "manager_flows m" and "nextPendingEvent M m = (r, m0)"
  shows "manager_flows m0" and "r = Some te \<Longrightarrow> E (teTask te)"
proof -
  note f = nextPendingEvent_frame [OF assms(2)]
  have c: "contents (mPending m0) = tl (contents (mPending m))"
    using assms(2) by (auto simp: nextPendingEvent_def simp flip: man.tq.contents_Dequeue split: prod.splits)
  then show "manager_flows m0"
    using assms(1) f man.keyed_cong [OF f(2)] man.known_cong [OF f(2)]
    by (cases "contents (mPending m)") (auto simp: manager_flows_def)
  show "r = Some te \<Longrightarrow> E (teTask te)"
    using assms man.tq.Dequeue_front [of "mPending m" te]
    by (auto simp: nextPendingEvent_def manager_flows_def split: prod.splits)
qed

lemma apply_reports_flows: "manager_flows m \<Longrightarrow> \<forall>r \<in> set rs. R r \<Longrightarrow> manager_flows (apply_reports M rs m)"
proof (induction rs arbitrary: m)
  case (Cons r rs)
  note eff = man.applyWorkerReport_effect [OF flows_keyed [OF Cons.prems(1)], of r]
  have "K (mergeTaskUpdate p r)" if "known held M m (tID r) = Some p" for p
    using known_flows [OF Cons.prems(1) that] man.known_ID [OF flows_keyed [OF Cons.prems(1)] that] Cons.prems(2) report by simp
  then have "manager_flows (snd (applyWorkerReport M r m))"
    using eff by (intro manager_flows_upd [OF Cons.prems(1) eff(2)]) auto
  then show ?case using Cons by simp
qed simp

lemma updateTasksFromWorker_flows:
  assumes m: "manager_flows m" and c: "world_flows c" and u: "updateTasksFromWorker M wn m c = (m', c')"
  shows "manager_flows m' \<and> c' = c"
proof (cases "workerAddress wn m")
  case (Some a)
  have a: "a \<in> addrs" by (rule address_flows [OF m Some])
  show ?thesis
  proof (cases "workers c a")
    case w: (Some w)
    then have wf: "worker_flows w" using c by (auto simp: world_flows_def)
    show ?thesis
    proof (cases "Worker_GetTasks W w")
      case (Inl e)
      have "c\<lparr>workers := (workers c)(a \<mapsto> w)\<rparr> = c" using w by (simp add: fun_upd_idem)
      then show ?thesis
        using u Some a w Inl m
        by (simp add: updateTasksFromWorker_def client deliver_def urls Worker_ServeHTTP_def chi
            Worker_GetTasksHandler_def response_def reply_defs status_defs)
    next
      case (Inr ts)
      then show ?thesis
        using update_reaches [OF Some a w Inr] u apply_reports_flows [OF m] listed_flows [OF wf Inr] by auto
    qed
  qed (use u Some a m in \<open>simp add: updateTasksFromWorker_def client deliver_def urls\<close>)
qed (use u m in \<open>simp add: updateTasksFromWorker_def\<close>)

lemma update_goroutines_flows:
  "manager_flows m \<Longrightarrow> world_flows c \<Longrightarrow> update_goroutines M is m c = (m', c') \<Longrightarrow> manager_flows m' \<and> c' = c"
proof (induction "is" arbitrary: m c)
  case (Cons i "is")
  obtain m1 c1 where u: "updateTasksFromWorker M (nName (mWorkerNodes m ! i)) m c = (m1, c1)" by fastforce
  with updateTasksFromWorker_flows [OF Cons.prems(1,2) u] Cons.prems Cons.IH [of m1 c] show ?case by simp
qed simp

lemma post_flows:
  assumes "world_flows c" and "E (teTask te)" and "a \<in> addrs" and "postTaskEvent M op wn a te c = (r, c')"
  shows "world_flows c'" and "r = Inr t \<Longrightarrow> E t"
proof -
  have "world_flows c' \<and> (\<forall>t. r = Inr t \<longrightarrow> E t)"
  proof (cases "encode_TaskEvent (me_codec M) te")
    case (Inl e)
    then show ?thesis using assms by (auto simp: postTaskEvent_def)
  next
    case (Inr request)
    show ?thesis
    proof (cases "workers c a")
      case None
      then show ?thesis using assms Inr by (auto simp: postTaskEvent_def client deliver_def urls)
    next
      case (Some w)
      then have "worker_flows (Worker_AddTask W (teTask te) w)"
        using assms(1) AddTask_flows [OF _ send(1) [OF assms(2)]] by (auto simp: world_flows_def)
      then show ?thesis
        using post_reaches [OF assms(3) Some Inr, of op wn] assms by (auto intro: world_flows_upd)
    qed
  qed
  then show "world_flows c'" "r = Inr t \<Longrightarrow> E t" by blast+
qed

lemma put_flows:
  assumes m: "manager_flows m" and "K t"
  shows "manager_flows (snd (Manager_putTask M t m))"
proof -
  obtain e s where put: "Put (me_taskdb M) (me_uuid_String M (tID t)) t (mTaskDb m) = (e, s)" by fastforce
  have "manager_flows (m\<lparr>mTaskDb := s\<rparr>)"
    using man.Put_known [OF flows_keyed [OF m] put] assms(2) by (intro manager_flows_upd [OF m]) (auto split: if_splits)
  then show ?thesis using put by (simp add: Manager_putTask_def split: option.splits)
qed

lemma route_flows:
  "manager_flows (unassignTask wn i m) = manager_flows m" "manager_flows (assignTask M wn te m) = manager_flows m"
  by (rule manager_flows_same; simp add: unassignTask_def)+

lemma retire_flows:
  assumes m: "manager_flows m"
  shows "manager_flows (retireTask M wn i m)"
proof -
  note eff = man.retireTask_effect [OF flows_keyed [OF m], of wn i]
  have "K (t\<lparr>tState := Completed\<rparr>)" if "known held M m i = Some t" for t
    by (rule task_flow.stop(2) [OF task_flow_axioms known_flows [OF m that]])
  then have "known held M (retireTask M wn i m) = known held M m \<or>
      (\<exists>j t. K t \<and> known held M (retireTask M wn i m) = (known held M m)(j \<mapsto> t))" using eff(2) by blast
  with eff(5,6) show ?thesis by (intro manager_flows_upd [OF m eff(1)])
qed

lemma begin_flows:
  assumes m: "manager_flows m" and b: "beginRestart M i m = (r, m1)"
  shows "manager_flows m1" and "r = Some t \<Longrightarrow> E t \<and> K t"
proof -
  note eff = man.beginRestart_effect [OF flows_keyed [OF m] b]
  have t: "E t \<and> K t" if some: "r = Some t" for t
  proof -
    obtain t0 where t0: "K t0" "t = restarted t0" using eff(3) known_flows [OF m] some by auto
    show ?thesis unfolding t0(2) using restart [OF t0(1)] by blast
  qed
  then show "r = Some t \<Longrightarrow> E t \<and> K t" .
  have "known held M m1 = known held M m \<or> (\<exists>j t. K t \<and> known held M m1 = (known held M m)(j \<mapsto> t))"
    using eff(3) t by (cases r) auto
  with eff(1) show "manager_flows m1" by (intro manager_flows_upd [OF m eff(2)]) auto
qed

lemma finish_send_flows:
  assumes m: "manager_flows m" and te: "E (teTask te)" and r: "\<And>t. r = Inr t \<Longrightarrow> E t"
  shows "manager_flows (finish_send M te wn r m)"
  using assms send(2) by (cases r) (auto simp: finish_send_def route_flows intro: enqueue_flows put_flows)

lemma SendWork_flows:
  assumes m: "manager_flows m" and c: "world_flows c" and s: "SendWork M m c = Inr (m', c')"
  shows "manager_flows m' \<and> world_flows c'"
  using s
proof (cases rule: SendWork_cases)
  case idle
  then show ?thesis using next_flows(1) [OF m] c by blast
next
  case (stop te m0 wn p)
  note m0 = next_flows [OF m stop(1)]
  have "manager_flows (retireTask M wn i m0)" for i by (rule retire_flows [OF m0(1)])
  moreover have "world_flows c'"
    using stop(5) c deliver_flows [OF c, of "''DELETE''"]
    by (auto simp: Manager_stopTask_def Let_def client split: sum.splits option.splits prod.splits if_splits)
  ultimately show ?thesis using Manager_stopTask_cases [OF stop(5)] m0 by auto
next
  case ignored
  then show ?thesis using next_flows(1) [OF m] c by blast
next
  case (unplaced te m0 e)
  then show ?thesis
    using next_flows(1) [OF m unplaced(1)] SelectWorker_outcome(1) [OF unplaced(3)] SelectWorker_view [OF scoring unplaced(3)]
      manager_flows_same [of m' m0] world_flows_cong [of c' c] c by auto
next
  case (sent te m0 n m1 w1 r)
  note m0 = next_flows [OF m sent(1)]
  obtain sc where m1: "m1 = m0\<lparr>mScheduler := sc\<rparr>" using SelectWorker_outcome(1) [OF sent(3)] by blast
  have n: "nAPI n \<in> addrs"
    using SelectWorker_outcome(2) [OF sent(3)] m0(1) by (simp add: manager_flows_def)
  have w1: "world_flows w1" using SelectWorker_view [OF scoring sent(3)] world_flows_cong c by blast
  have te: "E (teTask te)" using m0(2) by simp
  have "manager_flows (assignTask M (nName n) te m1)"
    using m0(1) m1 manager_flows_same [of m1 m0] by (simp add: route_flows)
  then show ?thesis
    using finish_send_flows [OF _ te] post_flows [OF w1 te n sent(4)] sent(5) by blast
qed

lemma restartTask_flows:
  assumes m: "manager_flows m" and c: "world_flows c" and r: "restartTask M t m c = (m', c')"
  shows "manager_flows m' \<and> world_flows c'"
proof (cases "(\<exists>wn a t1 m1. workerForTask (tID t) m = Some wn \<and> workerAddress wn m = Some a \<and> beginRestart M (tID t) m = (Some t1, m1))")
  case False
  obtain o1 m1 where b: "beginRestart M (tID t) m = (o1, m1)" by fastforce
  show ?thesis
    using False r b m c begin_flows(1) [OF m b]
    by (auto simp: restartTask_def requireWorkerAddress_def split: option.splits sum.splits)
next
  case True
  then obtain wn a t1 m1 where w: "workerForTask (tID t) m = Some wn" "workerAddress wn m = Some a"
    "beginRestart M (tID t) m = (Some t1, m1)" by blast
  have m1: "manager_flows m1" and t1: "E t1" using begin_flows [OF m w(3)] by auto
  obtain te c1 where te: "restart_event M t1 c = (te, c1)" by fastforce
  then have e: "E (teTask te)" and c1: "world_flows c1"
    using t1 c world_flows_cong [of c1 c] quiet(2) [of c] quiet(3)
    by (auto simp: restart_event_def Let_def split: prod.splits) (metis quiet(2) quiet(3) snd_conv)
  obtain sent c2 where p: "postTaskEvent M ''manager.restartTask'' wn a te c1 = (sent, c2)" by fastforce
  have "manager_flows m' \<and> c' = c2"
    using r w te p m1 enqueue_flows [OF m1 e]
    by (auto simp: restartTask_def requireWorkerAddress_def split: sum.splits if_splits)
  then show ?thesis using post_flows(1) [OF c1 e address_flows [OF m w(2)] p] by simp
qed

lemma checkTaskHealth_view: "checkTaskHealth M t m c = Inr (r, c') \<Longrightarrow> workers c' = workers c"
proof -
  assume h: "checkTaskHealth M t m c = Inr (r, c')"
  obtain i c1 where c1: "me_range_first M c = (i, c1)" by fastforce
  then have "workers c1 = workers c" using quiet(4) [of c] by simp
  moreover have "c' = c \<or> c' = c1"
    using h c1 deliver_get
    by (auto simp: checkTaskHealth_def Let_def client split: option.splits sum.splits prod.splits if_splits) (metis snd_conv)+
  ultimately show ?thesis by auto
qed

lemma healthChecks_loop_flows:
  assumes "manager_flows m" and "world_flows c" and "healthChecks_loop M ts m c = Inr (m', c')"
  shows "manager_flows m' \<and> world_flows c'"
  using assms
proof (induction ts arbitrary: m c)
  case (Cons t ts)
  have go: "manager_flows m' \<and> world_flows c'"
    if "world_flows ca" "restartTask M t m ca = (m1, cb)" "healthChecks_loop M ts m1 cb = Inr (m', c')" for m1 ca cb
    using restartTask_flows [OF Cons.prems(1) that(1,2)] Cons.IH [OF _ _ that(3)] by blast
  show ?case
  proof (cases "decideHealthAction t")
    case healthActionCheck
    show ?thesis
    proof (cases "checkTaskHealth M t m c")
      case (Inr x)
      obtain e c1 where x: "x = (e, c1)" by (cases x)
      then have "world_flows c1" using Inr checkTaskHealth_view world_flows_cong Cons.prems(2) by blast
      with Inr x healthActionCheck Cons.prems Cons.IH go show ?thesis by (cases e) (auto split: prod.splits)
    qed (use healthActionCheck Cons.prems in simp)
  next
    case healthActionRestart
    then show ?thesis using Cons.prems go by (auto split: prod.splits)
  qed (use Cons in simp_all)
qed simp

text \<open>Every step keeps what is known of the tasks.\<close>

lemma other_step_flows:
  assumes "manager_flows m" and "world_flows c" and "other_step M W chi net enc submits (m, c) (m', c')"
  shows "manager_flows m' \<and> world_flows c'"
  using assms(3)
proof (cases rule: other_step.cases)
  case (sys_start request reply)
  then show ?thesis
    using assms enqueue_flows submit(1) by (auto simp: Manager_StartTaskHandler_def Manager_AddTask_def split: sum.splits)
next
  case (sys_stop taskID reply)
  have q: "workers (snd (me_now M (snd (me_uuid_New M c)))) = workers c" by (simp add: quiet)
  have k: "E (t\<lparr>tState := Completed\<rparr>)" if l: "Manager_LookupTask M i m = Some t" for i t
    by (rule task_flow.stop(1) [OF task_flow_axioms lookup_known [OF assms(1) l]])
  show ?thesis
    using sys_stop assms(1,2) world_flows_cong [OF q]
    by (auto simp: Manager_StopTaskHandler_def Manager_AddTask_def Let_def split_beta split: sum.splits option.splits if_splits
        intro!: enqueue_flows k)
next
  case sys_update
  then show ?thesis using update_goroutines_flows assms unfolding Manager_updateTasks_def by blast
next
  case sys_health
  then show ?thesis
    using healthChecks_loop_flows [OF assms(1,2)] assms by (auto simp: doHealthChecks_def split: sum.splits)
next
  case sys_client
  then show ?thesis using deliver_flows [OF assms(2) sys_client(2)] submit(2) assms(1) by blast
next
  case sys_run
  then show ?thesis using run_worker_flows assms by simp
next
  case sys_refresh
  then show ?thesis using update_worker_flows assms by simp
next
  case sys_collect
  then show ?thesis using collect_worker_flows assms by simp
next
  case sys_outside
  then show ?thesis using assms world_flows_cong [of c' c] by simp
qed

lemma system_step_flows:
  assumes "manager_flows m" and "world_flows c" and "system_step M W chi net enc submits (m, c) (m', c')"
  shows "manager_flows m' \<and> world_flows c'"
  using assms(3) by (cases rule: system_step.cases) (use SendWork_flows other_step_flows assms(1,2) in blast)+

lemma system_run_flows:
  assumes "system_run M W chi net enc submits x y" and "manager_flows (fst x)" and "world_flows (snd x)"
  shows "manager_flows (fst y) \<and> world_flows (snd y)"
  using assms
proof (induction rule: system_run.induct)
  case (sys_snoc x y z)
  then show ?case using system_step_flows [of "fst y" "snd y" "fst z" "snd z"] by simp
qed simp

end

lemma system_flowI:
  "system M held ok contents W wheld wok wcontents chi net enc addrs \<Longrightarrow> task_flow submits Ev K U R H I \<Longrightarrow>
   (\<And>h. reported (we_docker W) h \<Longrightarrow> H h) \<Longrightarrow> (\<And>q i. launched (we_docker W) q i \<Longrightarrow> I q i) \<Longrightarrow>
   system_flow M held ok contents W wheld wok wcontents chi net enc addrs submits Ev K U R H I"
  by (intro system_flow.intro system_flow_axioms.intro)

section \<open>What is known of a task\<close>

text \<open>The fields of a task that no part of the program ever writes.\<close>

definition job :: "Task \<Rightarrow> UUID \<times> string \<times> string \<times> int \<times> int \<times> string \<times> string" where
  "job t = (tID t, tName t, tImage t, tMemory t, tDisk t, tRestartPolicy t, tHealthCheck t)"

lemma same_job: "inj_on fst J \<Longrightarrow> tID t = tID t' \<Longrightarrow> job t \<in> J \<Longrightarrow> job t' \<in> J \<Longrightarrow> job t = job t'"
  by (rule inj_onD [of fst J]) (simp_all add: job_def)

definition sound_task ::
  "(UUID \<times> string \<times> string \<times> int \<times> int \<times> string \<times> string) set \<Rightarrow> State set \<Rightarrow> int set \<Rightarrow> Task \<Rightarrow> bool" where
  "sound_task J Q N t \<longleftrightarrow> job t \<in> J \<and> tState t \<in> Q \<and> tRestartCount t \<in> N"

text \<open>
  Jobs stay, restart counts are counted up, states move as the code moves them; what is sent to a
  worker (\<open>Q\<close>) may be known better than what is recorded (\<open>Q'\<close>).
\<close>

lemma sound_flow:
  assumes "{Scheduled, Completed} \<subseteq> Q" "Q \<subseteq> Q'" "{Running, Failed} \<subseteq> Q'" and "\<And>n. n \<in> N \<Longrightarrow> wrap64 (n + 1) \<in> N"
  shows "task_flow (sound_task J Q N) (sound_task J Q N) (sound_task J Q' N) (sound_task J Q N) (sound_task J Q' N) (\<lambda>_. True) (\<lambda>_ _. True)"
proof -
  have Q: "Scheduled \<in> Q" "Completed \<in> Q" "\<And>x. x \<in> Q \<Longrightarrow> x \<in> Q'" "Running \<in> Q'" "Failed \<in> Q'" "Scheduled \<in> Q'" "Completed \<in> Q'"
    using assms(1-3) by auto
  show ?thesis
    by unfold_locales
      (auto simp: sound_task_def job_def restarted_def start_failed_def start_succeeded_def stop_succeeded_def
        mark_failed_def refresh_def Let_def merge_state Q assms(4) simp del: valid_edge_iff)
qed

definition states :: "State set" where
  "states = {Pending, Scheduled, Running, Completed, Failed}"

interpretation any_job: task_flow "sound_task J UNIV UNIV" "sound_task J UNIV UNIV" "sound_task J UNIV UNIV"
  "sound_task J UNIV UNIV" "sound_task J UNIV UNIV" "\<lambda>_. True" "\<lambda>_ _. True"
  by (rule sound_flow) simp_all

section \<open>A concrete system\<close>

lemma wire_system: "system wire_menv InMemory_held InMemory_ok inner wire_wenv InMemory_held InMemory_ok inner
  seg_chi http_net wire_enc http_addrs"
proof (intro system.intro wire_cluster system_axioms.intro)
  fix meth path i x
  assume "seg_chi (patterns worker_routes) meth path = Inr (i, x)"
  then have "find (\<lambda>i. fst (patterns worker_routes ! i) = meth \<and>
      match_segments (segments (snd (patterns worker_routes ! i))) (segments path) \<noteq> None) [0..<length (patterns worker_routes)] = Some i"
    by (auto simp: seg_chi_def split: option.splits)
  then have "i < length worker_routes \<and> fst (patterns worker_routes ! i) = meth" by (auto simp: find_Some_iff)
  then show "i < length worker_routes \<and> fst (worker_routes ! i) = meth" by (auto simp: split_beta)
qed (simp_all add: wire_menv_def live_context_def httpapi_Get_def fun_eq_iff)

interpretation sy: system wire_menv InMemory_held InMemory_ok inner wire_wenv InMemory_held InMemory_ok inner
  seg_chi http_net wire_enc http_addrs
  by (rule wire_system)

interpretation sf: system_flow wire_menv InMemory_held InMemory_ok inner wire_wenv InMemory_held InMemory_ok inner
  seg_chi http_net wire_enc http_addrs
  "sound_task J UNIV UNIV" "sound_task J UNIV UNIV" "sound_task J UNIV UNIV" "sound_task J UNIV UNIV" "sound_task J UNIV UNIV"
  "\<lambda>_. True" "\<lambda>_ _. True"
  by (intro system_flowI wire_system any_job.task_flow_axioms) simp_all

interpretation sv: scoring_view "me_sched wire_menv" workers
  by (rule sy.scoring)

section \<open>Properties\<close>

text \<open>Every task of the system, wherever it is kept.\<close>

definition system_tasks ::
  "('s \<Rightarrow> string \<rightharpoonup> Task) \<Rightarrow> ('q Queue \<Rightarrow> TaskEvent list) \<Rightarrow> ('t \<Rightarrow> string \<rightharpoonup> Task) \<Rightarrow> ('p Queue \<Rightarrow> Task list) \<Rightarrow>
   ('q, 's, 'e, ('p, 't, 'd) world) menv \<Rightarrow> ('p, 't, 'd) wenv \<Rightarrow> ('q, 's, 'e, 'p, 't, 'd) sys \<Rightarrow> Task set" where
  "system_tasks held contents wheld wcontents M W x =
     (case x of (m, c) \<Rightarrow> teTask ` set (contents (mPending m)) \<union> ran (known held M m) \<union>
        (\<Union>w \<in> ran (workers c). set (wcontents (wQueue w)) \<union> ran (stored wheld W w)))"

text \<open>
  Where a system starts: a new manager with an empty store and workers at well-formed addresses,
  and workers without tasks.
\<close>

definition system_start ::
  "('s \<Rightarrow> string \<rightharpoonup> Task) \<Rightarrow> ('s \<Rightarrow> bool) \<Rightarrow> ('t \<Rightarrow> string \<rightharpoonup> Task) \<Rightarrow> ('t \<Rightarrow> bool) \<Rightarrow> ('p Queue \<Rightarrow> Task list) \<Rightarrow> string set \<Rightarrow>
   ('q, 's, 'e, ('p, 't, 'd) world) menv \<Rightarrow> ('p, 't, 'd) wenv \<Rightarrow> ('q, 's, 'e, 'p, 't, 'd) sys \<Rightarrow> bool" where
  "system_start held ok wheld wok wcontents addrs M W x \<longleftrightarrow>
     (case x of (m, c) \<Rightarrow>
        (\<exists>ws st dbType db edb. NewManager M ws st dbType (Inr (db, edb)) = Inr m \<and> ok db \<and> held db = Map.empty \<and>
           wmAddress ` set ws \<subseteq> addrs) \<and>
        (\<forall>w \<in> ran (workers c). wok (wDb w) \<and> wheld (wDb w) = Map.empty \<and> wcontents (wQueue w) = [] \<and> wStats w = None))"

context system_flow
begin

lemma start_flows:
  assumes "system_start held ok wheld wok wcontents addrs M W (m, c)"
  shows "manager_flows m" and "world_flows c"
proof -
  obtain ws st dbType db edb where new: "NewManager M ws st dbType (Inr (db, edb)) = Inr m"
    and db: "ok db" "held db = Map.empty" "wmAddress ` set ws \<subseteq> addrs"
    using assms by (auto simp: system_start_def)
  have m: "mTaskDb m = db" "contents (mPending m) = []"
    using new by (auto simp: NewManager_def Let_def split: sum.splits)
  note N = man.NewManager_keeps [OF new db(1)]
  show "manager_flows m" using N(1,3) db m by (auto simp: manager_flows_def known_def NewNode_def)
  show "world_flows c"
    using assms by (auto simp: system_start_def world_flows_def worker_flows_def wf_worker_def stored_def ran_def stats_complete_def)
qed

lemma reached_flows:
  assumes "system_start held ok wheld wok wcontents addrs M W x" and "system_run M W chi net enc submits x (m, c)"
  shows "manager_flows m" and "world_flows c"
  using system_run_flows [OF assms(2)] start_flows [of "fst x" "snd x"] assms(1) by simp_all

lemma reached_tasks:
  assumes "system_start held ok wheld wok wcontents addrs M W x" and "system_run M W chi net enc submits x y"
    and "\<And>t. E t \<Longrightarrow> P t" "\<And>t. K t \<Longrightarrow> P t" "\<And>t. U t \<Longrightarrow> P t" "\<And>t. R t \<Longrightarrow> P t"
    and "t \<in> system_tasks held contents wheld wcontents M W y"
  shows "P t"
proof -
  obtain m c where y: "y = (m, c)" by (cases y)
  note f = reached_flows [OF assms(1) assms(2) [unfolded y]]
  show ?thesis
    using assms(3-7) f
    by (fastforce simp: y system_tasks_def manager_flows_def world_flows_def worker_flows_def ran_def)
qed

end

text \<open>
  C6. The system invents no task and mixes none up: in every state that the manager, its workers
  and their clients reach together, every task anywhere, pending at the manager, queued at a
  worker or recorded by either, is one a client submitted, with the identifier, name, image,
  memory, disk, restart policy and health check it was submitted with; and when clients submit
  one job under each identifier, the manager and the workers agree on what each task is.
\<close>

theorem system_invents_no_task:
  assumes S: "system M held ok contents W wheld wok wcontents chi net enc addrs"
    and x: "system_start held ok wheld wok wcontents addrs M W x"
    and run: "system_run M W chi net enc (\<lambda>t. job t \<in> J) x y"
  shows "job ` system_tasks held contents wheld wcontents M W y \<subseteq> J \<and>
    (inj_on fst J \<longrightarrow> (\<forall>t \<in> system_tasks held contents wheld wcontents M W y.
       \<forall>t' \<in> system_tasks held contents wheld wcontents M W y. tID t = tID t' \<longrightarrow> job t = job t'))"
proof -
  have f: "system_flow M held ok contents W wheld wok wcontents chi net enc addrs
      (sound_task J UNIV UNIV) (sound_task J UNIV UNIV) (sound_task J UNIV UNIV) (sound_task J UNIV UNIV) (sound_task J UNIV UNIV)
      (\<lambda>_. True) (\<lambda>_ _. True)" by (intro system_flowI S any_job.task_flow_axioms) simp_all
  have r: "system_run M W chi net enc (sound_task J UNIV UNIV) x y"
    using run by (simp add: sound_task_def [abs_def])
  have j: "job t \<in> J" if "t \<in> system_tasks held contents wheld wcontents M W y" for t
    using system_flow.reached_tasks [OF f x r, of "\<lambda>t. job t \<in> J"] that by (auto simp: sound_task_def)
  have "job t = job t'" if "inj_on fst J" "tID t = tID t'" "job t \<in> J" "job t' \<in> J" for t t'
    using that by (rule same_job)
  with j show ?thesis by blast
qed

text \<open>A run of the concrete system in which one task is submitted.\<close>

lemma wire_starts:
  assumes s: "GetScheduler st = Inr s"
  obtains m where "NewManager wire_menv [\<lparr>wmName = ''a'', wmAddress = ''http://h''\<rparr>] st ''IN_MEMORY''
      (Inr (NewInMemory, NewInMemory)) = Inr m"
    and "system_start InMemory_held InMemory_ok InMemory_held InMemory_ok inner http_addrs wire_menv wire_wenv (m, world_with [])"
proof -
  obtain m where m: "NewManager wire_menv [\<lparr>wmName = ''a'', wmAddress = ''http://h''\<rparr>] st ''IN_MEMORY''
      (Inr (NewInMemory, NewInMemory)) = Inr m"
    using s by (simp add: NewManager_def Let_def)
  have d: "InMemory_ok NewInMemory" "InMemory_held NewInMemory = Map.empty"
    by (simp_all add: NewInMemory_def InMemory_ok_def InMemory_held_def fun_eq_iff)
  have "wmAddress ` set [\<lparr>wmName = ''a'', wmAddress = ''http://h''\<rparr>] \<subseteq> http_addrs" by simp
  moreover have "\<forall>w \<in> ran (workers (world_with [])). InMemory_ok (wDb w) \<and> InMemory_held (wDb w) = Map.empty \<and> inner (wQueue w) = [] \<and> wStats w = None"
    by (auto simp: world_with_def worker_with_def InMemory_ok_def InMemory_held_def fun_eq_iff split: if_splits)
  ultimately have "system_start InMemory_held InMemory_ok InMemory_held InMemory_ok inner http_addrs wire_menv wire_wenv (m, world_with [])"
    using m d unfolding system_start_def by blast
  with m show ?thesis by (rule that)
qed

lemma wire_start:
  "\<exists>m. NewManager wire_menv [\<lparr>wmName = ''a'', wmAddress = ''http://h''\<rparr>] ''round-robin'' ''IN_MEMORY''
       (Inr (NewInMemory, NewInMemory)) = Inr m \<and>
     system_start InMemory_held InMemory_ok InMemory_held InMemory_ok inner http_addrs wire_menv wire_wenv (m, world_with [])"
proof -
  have "\<exists>s. GetScheduler ''round-robin'' = Inr s" by (simp add: GetScheduler_def RoundRobin_name_def MarginalCost_name_def)
  then show ?thesis using wire_starts by metis
qed

lemma wire_submits:
  assumes "P (teTask te)"
  shows "system_run wire_menv wire_wenv seg_chi http_net wire_enc P (m, c) (Manager_AddTask wire_menv te m, c)"
    and "teTask te \<in> system_tasks held inner wheld wcontents wire_menv wire_wenv (Manager_AddTask wire_menv te m, c)"
proof -
  have d: "me_decode_TaskEvent wire_menv (to_wire event_c te) = Inr te" by (simp add: wire_menv_def)
  obtain reply where "Manager_StartTaskHandler wire_menv (to_wire event_c te) m = (reply, Manager_AddTask wire_menv te m)"
    using d by (simp add: Manager_StartTaskHandler_def)
  from sys_snoc [OF sys_refl sys_other [OF sys_start [OF this]]] d assms
  show "system_run wire_menv wire_wenv seg_chi http_net wire_enc P (m, c) (Manager_AddTask wire_menv te m, c)" by simp
  show "teTask te \<in> system_tasks held inner wheld wcontents wire_menv wire_wenv (Manager_AddTask wire_menv te m, c)"
    by (simp add: system_tasks_def Manager_AddTask_def wire_menv_def)
qed

theorem system_invents_no_task_witness:
  "let te = sample_event (sample_task Scheduled 0) in
   \<exists>m. teTask te \<in> system_tasks InMemory_held inner InMemory_held inner wire_menv wire_wenv (m, world_with []) \<and>
     job ` system_tasks InMemory_held inner InMemory_held inner wire_menv wire_wenv (m, world_with []) \<subseteq> {job (teTask te)}"
proof -
  let ?te = "sample_event (sample_task Scheduled 0)"
  obtain m where x: "system_start InMemory_held InMemory_ok InMemory_held InMemory_ok inner http_addrs wire_menv wire_wenv (m, world_with [])"
    using wire_start by blast
  have run: "system_run wire_menv wire_wenv seg_chi http_net wire_enc (\<lambda>t. job t \<in> {job (teTask ?te)}) (m, world_with [])
      (Manager_AddTask wire_menv ?te m, world_with [])" by (rule wire_submits(1)) simp
  have mem: "teTask ?te \<in> system_tasks InMemory_held inner InMemory_held inner wire_menv wire_wenv (Manager_AddTask wire_menv ?te m, world_with [])"
    by (rule wire_submits(2) [of "\<lambda>_. True"]) simp
  from system_invents_no_task [OF wire_system x run] mem show ?thesis unfolding Let_def by blast
qed

text \<open>
  C9. Workers are only ever asked to start or to stop: when clients submit nothing but
  \<open>Scheduled\<close> and \<open>Completed\<close> tasks, the manager, whatever it requeues, restarts and stops, keeps
  nothing else pending and puts nothing else into a worker's queue, so \<open>RunTask\<close> never refuses
  a task for a state it does not know; and no record is ever \<open>Pending\<close>.
\<close>

theorem workers_start_and_stop_only:
  assumes S: "system M held ok contents W wheld wok wcontents chi net enc addrs"
    and x: "system_start held ok wheld wok wcontents addrs M W x"
    and run: "system_run M W chi net enc (\<lambda>t. tState t \<in> {Scheduled, Completed}) x (m, c)"
    and w: "workers c a = Some w"
  shows "(\<forall>te \<in> set (contents (mPending m)). tState (teTask te) \<in> {Scheduled, Completed}) \<and>
    (\<forall>q \<in> set (wcontents (wQueue w)). tState q \<in> {Scheduled, Completed}) \<and>
    (\<forall>i t. known held M m i = Some t \<or> stored wheld W w i = Some t \<longrightarrow>
       tState t \<in> {Scheduled, Running, Completed, Failed})"
proof -
  let ?q = "sound_task UNIV {Scheduled, Completed} UNIV" and ?r = "sound_task UNIV {Scheduled, Running, Completed, Failed} UNIV"
  have f: "system_flow M held ok contents W wheld wok wcontents chi net enc addrs ?q ?q ?r ?q ?r (\<lambda>_. True) (\<lambda>_ _. True)"
    by (intro system_flowI S sound_flow) auto
  have r: "system_run M W chi net enc ?q x (m, c)" using run by (simp add: sound_task_def [abs_def])
  note R = system_flow.reached_flows [OF f x r]
  have "system_flow.worker_flows W wheld wok wcontents ?q ?r w"
    using R(2) w by (simp add: system_flow.world_flows_def [OF f])
  with R(1) show ?thesis
    by (auto simp: system_flow.manager_flows_def [OF f] system_flow.worker_flows_def [OF f] sound_task_def)
qed

theorem workers_start_and_stop_only_witness:
  "\<exists>m. inner (mPending m) = [sample_event (sample_task Scheduled 0)] \<and>
     system_run wire_menv wire_wenv seg_chi http_net wire_enc (\<lambda>t. tState t \<in> {Scheduled, Completed})
       (m\<lparr>mPending := New (me_queue wire_menv)\<rparr>, world_with []) (m, world_with []) \<and>
     (\<forall>te \<in> set (inner (mPending m)). tState (teTask te) \<in> {Scheduled, Completed})"
proof -
  let ?te = "sample_event (sample_task Scheduled 0)" and ?P = "\<lambda>t. tState t \<in> {Scheduled, Completed}"
  obtain m where new: "NewManager wire_menv [\<lparr>wmName = ''a'', wmAddress = ''http://h''\<rparr>] ''round-robin'' ''IN_MEMORY''
      (Inr (NewInMemory, NewInMemory)) = Inr m"
    and x: "system_start InMemory_held InMemory_ok InMemory_held InMemory_ok inner http_addrs wire_menv wire_wenv (m, world_with [])"
    using wire_start by blast
  have q: "mPending m = New (me_queue wire_menv)" using new by (auto simp: NewManager_def Let_def split: sum.splits)
  let ?m = "Manager_AddTask wire_menv ?te m"
  have p: "?P (teTask ?te)" by simp
  have run: "system_run wire_menv wire_wenv seg_chi http_net wire_enc ?P (m, world_with []) (?m, world_with [])"
    by (rule wire_submits(1) [of ?P ?te, OF p])
  have m: "inner (mPending ?m) = [?te]" "?m\<lparr>mPending := New (me_queue wire_menv)\<rparr> = m"
    using q by (simp_all add: Manager_AddTask_def enqueueEvent_def wire_menv_def list_collq_def New_def Enqueue_def)
  from workers_start_and_stop_only [OF wire_system x run world_with_fields(1)] m run show ?thesis
    by (intro exI [of _ ?m]) simp
qed

text \<open>
  C23. A manager that starts anew adopts nothing: whatever its workers still run and record, as long
  as no client submits, it never records or queues a task, its list is empty, and every request
  to stop a task is answered with 400 or 404 and changes nothing at the manager; so what a
  restarted manager's workers were running can no longer be seen or stopped through it.
\<close>

theorem new_manager_adopts_nothing:
  assumes S: "system M held ok contents W wheld wok wcontents chi net enc addrs"
    and new: "NewManager M ws st dbType (Inr (db, edb)) = Inr m0" "ok db" "held db = Map.empty" "wmAddress ` set ws \<subseteq> addrs"
    and w: "\<forall>w \<in> ran (workers c0). wf_worker wheld wok W w \<and> stats_complete w"
    and run: "system_run M W chi net enc (\<lambda>t. False) (m0, c0) (m, c)"
  shows "known held M m = Map.empty \<and> contents (mPending m) = [] \<and> (\<forall>tasks. Manager_GetTasks M m = Inr tasks \<longrightarrow> tasks = []) \<and>
    (\<forall>taskID. rStatus (fst (Manager_StopTaskHandler M taskID m c)) \<in> {StatusBadRequest, StatusNotFound} \<and>
       snd (Manager_StopTaskHandler M taskID m c) = (m, c))"
proof -
  let ?F = "\<lambda>t :: Task. False" and ?T = "\<lambda>t :: Task. True"
  have f: "system_flow M held ok contents W wheld wok wcontents chi net enc addrs ?F ?F ?F ?T ?T (\<lambda>_. True) (\<lambda>_ _. True)"
    by (intro system_flowI S task_flow.intro) simp_all
  have man: "manager_env M held ok contents" using S by (simp add: system_def cluster_def)
  have "mTaskDb m0 = db" "contents (mPending m0) = []"
    using new(1) queue.contents_New [OF manager_env.que [OF man]] by (auto simp: NewManager_def Let_def split: sum.splits)
  then have "system_flow.manager_flows M held ok contents addrs ?F ?F m0"
    using manager_env.NewManager_keeps(1,3) [OF man new(1,2)] new(3,4)
    by (auto simp: system_flow.manager_flows_def [OF f] known_def NewNode_def)
  moreover have "system_flow.world_flows W wheld wok wcontents ?T ?T c0"
    using w by (auto simp: system_flow.world_flows_def [OF f] system_flow.worker_flows_def [OF f] ran_def)
  ultimately have flows: "system_flow.manager_flows M held ok contents addrs ?F ?F m"
    using system_flow.system_run_flows [OF f run] by simp
  have k: "keyed_tasks held ok M m" "known held M m = Map.empty" "contents (mPending m) = []"
    using flows by (auto simp: system_flow.manager_flows_def [OF f] fun_eq_iff)
  have "held (mTaskDb m) x = None" for x
  proof (cases "held (mTaskDb m) x")
    case (Some t)
    then have "known held M m (tID t) = Some t" using k(1) by (auto simp: keyed_tasks_def known_def)
    then show ?thesis using k(2) by simp
  qed
  then have "tasks = []" if "Manager_GetTasks M m = Inr tasks" for tasks
    using that store_contract.List_Inr [OF manager_env.store [OF man] manager_env.keyed_ok [OF man k(1)], of tasks]
    by (auto simp: Manager_GetTasks_def snapshotTasks_def dom_def split: sum.splits)
  moreover have "Manager_LookupTask M i m = None" for i
    using manager_env.taskLocked_Inr [OF man k(1)] k(2) by (fastforce simp: Manager_LookupTask_def split: sum.splits)
  then have "rStatus (fst (Manager_StopTaskHandler M taskID m c)) \<in> {StatusBadRequest, StatusNotFound} \<and>
       snd (Manager_StopTaskHandler M taskID m c) = (m, c)" for taskID
    by (auto simp: Manager_StopTaskHandler_def reply_defs split: sum.splits)
  ultimately show ?thesis using k(2,3) by blast
qed

theorem new_manager_adopts_nothing_witness:
  "let p = (sample_task Running 0)\<lparr>tContainerID := ''c1''\<rparr> in
   \<exists>m m' c'. NewManager wire_menv [\<lparr>wmName = ''a'', wmAddress = ''http://h''\<rparr>] ''round-robin'' ''IN_MEMORY''
       (Inr (NewInMemory, NewInMemory)) = Inr m \<and>
     Manager_updateTasks wire_menv m (world_with [p]) = (m', c') \<and>
     known InMemory_held wire_menv m' = Map.empty \<and>
     rStatus (fst (Manager_StopTaskHandler wire_menv (uuid_text 1) m' c')) \<in> {StatusBadRequest, StatusNotFound}"
proof -
  let ?p = "(sample_task Running 0)\<lparr>tContainerID := ''c1''\<rparr>"
  let ?ws = "[\<lparr>wmName = ''a'', wmAddress = ''http://h''\<rparr>]"
  obtain m where m: "NewManager wire_menv ?ws ''round-robin'' ''IN_MEMORY'' (Inr (NewInMemory, NewInMemory)) = Inr m"
    using wire_start by blast
  have d: "InMemory_ok NewInMemory" "InMemory_held NewInMemory = Map.empty" "wmAddress ` set ?ws \<subseteq> http_addrs"
    by (simp_all add: NewInMemory_def InMemory_ok_def InMemory_held_def fun_eq_iff)
  have w: "\<forall>w \<in> ran (workers (world_with [?p])). wf_worker InMemory_held InMemory_ok wire_wenv w \<and> stats_complete w"
    by (auto simp: stats_complete_def world_with_def worker_with_def wf_worker_def InMemory_ok_def InMemory_held_def wire_wenv_def split: if_splits)
  obtain m' c' where u: "Manager_updateTasks wire_menv m (world_with [?p]) = (m', c')" by fastforce
  have "system_run wire_menv wire_wenv seg_chi http_net wire_enc (\<lambda>t. False) (m, world_with [?p]) (m', c')"
    by (rule sys_snoc [OF sys_refl sys_other [OF sys_update [OF u]]])
  from new_manager_adopts_nothing [OF wire_system m d w this] m u show ?thesis unfolding Let_def by blast
qed

end
