(* ===== verification/Orch_Threads.thy ===== *)
theory Orch_Threads
  imports Orch_System
begin

text \<open>
  Runs of the whole system at the granularity of critical sections: the goroutines of the manager
  and of every worker, and the handlers of their APIs, take turns one critical section or one
  request at a time (\<open>threads_step\<close>). What a goroutine holds between two of them, a task taken off a
  queue, a snapshot, a reply, a task that a stop handler has looked up, is part of the state. The
  laws of \<open>task_flow\<close> cover what is done to these too, so what was shown of every task of the system
  holds under every interleaving.
\<close>

section \<open>Steps\<close>

text \<open>
  The manager with its two loops, the tasks that its stop handlers hold, the reports that its
  update goroutines hold; each worker with its two loops, and the tasks its stop handlers hold.
\<close>

record ('q, 's, 'e, 'p, 't) threads =
  thManager :: "('q, 's, 'e) Manager"
  thSend :: send_pc
  thHealth :: health_pc
  thStops :: "Task set"
  thReports :: "Task set"
  thWorkers :: "string \<rightharpoonup> ('p, 't) wconc"
  thWstops :: "string \<Rightarrow> Task set"

text \<open>
  A request of the manager reaches its worker (\<open>th_sent\<close>, \<open>th_resent\<close>, \<open>th_wlookup\<close>) in a step of
  its own, and the answer that the manager's loop sees is not tied to it: a request may arrive
  and be answered, arrive and time out, be sent again or not arrive. Reports are applied in
  any order, as goroutines for different workers run at once.
\<close>

inductive threads_step ::
  "('q, 's, 'e, ('p, 't, 'd) world) menv \<Rightarrow> ('p, 't, 'd) wenv \<Rightarrow> (Task \<Rightarrow> bool) \<Rightarrow>
   ('q, 's, 'e, 'p, 't) threads \<Rightarrow> ('q, 's, 'e, 'p, 't) threads \<Rightarrow> bool"
  for M W submits where
  th_submit: "submits (teTask te) \<Longrightarrow> threads_step M W submits x (x\<lparr>thManager := Manager_AddTask M te (thManager x)\<rparr>)"
| th_lookup: "Manager_LookupTask M i (thManager x) = Some t \<Longrightarrow>
    threads_step M W submits x (x\<lparr>thStops := insert t (thStops x)\<rparr>)"
| th_stop: "t \<in> thStops x \<Longrightarrow> teTask te = t\<lparr>tState := Completed\<rparr> \<Longrightarrow>
    threads_step M W submits x (x\<lparr>thManager := Manager_AddTask M te (thManager x)\<rparr>)"
| th_loop: "thread_step M (thManager x, thSend x, thHealth x) (m, s, h) \<Longrightarrow>
    threads_step M W submits x (x\<lparr>thManager := m, thSend := s, thHealth := h\<rparr>)"
| th_fetch: "thWorkers x a = Some (w, r, u) \<Longrightarrow> Worker_GetTasks W w = Inr ts \<Longrightarrow>
    threads_step M W submits x (x\<lparr>thReports := thReports x \<union> set ts\<rparr>)"
| th_report: "t \<in> thReports x \<Longrightarrow>
    threads_step M W submits x (x\<lparr>thManager := snd (applyWorkerReport M t (thManager x))\<rparr>)"
| th_sent: "thSend x = SSending te n \<Longrightarrow> thWorkers x (nAPI n) = Some (w, r, u) \<Longrightarrow>
    threads_step M W submits x (x\<lparr>thWorkers := (thWorkers x)(nAPI n \<mapsto> (Worker_AddTask W (teTask te) w, r, u))\<rparr>)"
| th_resent: "thHealth x = HSend t wn ts \<Longrightarrow> workerAddress wn (thManager x) = Some a \<Longrightarrow> thWorkers x a = Some (w, r, u) \<Longrightarrow>
    threads_step M W submits x (x\<lparr>thWorkers := (thWorkers x)(a \<mapsto> (Worker_AddTask W t w, r, u))\<rparr>)"
| th_wsubmit: "submits t \<Longrightarrow> thWorkers x a = Some (w, r, u) \<Longrightarrow>
    threads_step M W submits x (x\<lparr>thWorkers := (thWorkers x)(a \<mapsto> (Worker_AddTask W t w, r, u))\<rparr>)"
| th_wlookup: "thWorkers x a = Some (w, r, u) \<Longrightarrow> LookupTask W i w = Some t \<Longrightarrow>
    threads_step M W submits x (x\<lparr>thWstops := (thWstops x)(a := insert t (thWstops x a))\<rparr>)"
| th_wstop: "t \<in> thWstops x a \<Longrightarrow> thWorkers x a = Some (w, r, u) \<Longrightarrow>
    threads_step M W submits x (x\<lparr>thWorkers := (thWorkers x)(a \<mapsto> (Worker_AddTask W (t\<lparr>tState := Completed\<rparr>) w, r, u))\<rparr>)"
| th_wloop: "thWorkers x a = Some c \<Longrightarrow> loop_step W c c' \<Longrightarrow>
    threads_step M W submits x (x\<lparr>thWorkers := (thWorkers x)(a \<mapsto> c')\<rparr>)"

inductive threads_run ::
  "('q, 's, 'e, ('p, 't, 'd) world) menv \<Rightarrow> ('p, 't, 'd) wenv \<Rightarrow> (Task \<Rightarrow> bool) \<Rightarrow>
   ('q, 's, 'e, 'p, 't) threads \<Rightarrow> ('q, 's, 'e, 'p, 't) threads \<Rightarrow> bool"
  for M W submits where
  threads_refl: "threads_run M W submits x x"
| threads_snoc: "threads_run M W submits x y \<Longrightarrow> threads_step M W submits y z \<Longrightarrow> threads_run M W submits x z"

text \<open>The tasks that a goroutine holds.\<close>

fun send_tasks :: "send_pc \<Rightarrow> Task set" where
  "send_tasks (SGot te) = {teTask te}"
| "send_tasks (SPlace te) = {teTask te}"
| "send_tasks (SChosen te n) = {teTask te}"
| "send_tasks (SSending te n) = {teTask te}"
| "send_tasks (SRollback te wn) = {teTask te}"
| "send_tasks (SRequeue te) = {teTask te}"
| "send_tasks (SRecord t) = {t}"
| "send_tasks _ = {}"

fun health_tasks :: "health_pc \<Rightarrow> Task set" where
  "health_tasks (HPass ts) = set ts"
| "health_tasks (HRestart t ts) = set (t # ts)"
| "health_tasks (HRouted t wn ts) = set (t # ts)"
| "health_tasks (HSend t wn ts) = set (t # ts)"

fun run_tasks :: "run_pc \<Rightarrow> Task set" where
  "run_tasks RIdle = {}"
| "run_tasks (RGot q) = {q}"
| "run_tasks (RFresh q) = {q}"
| "run_tasks (RCheck q p) = {q, p}"
| "run_tasks (RStarting q) = {q}"
| "run_tasks (RStopping q) = {q}"

fun update_tasks :: "update_pc \<Rightarrow> Task set" where
  "update_tasks (UPass ts) = set ts"
| "update_tasks (UInspected t resp ts) = set (t # ts)"

text \<open>Every task of the system, wherever it is kept or held.\<close>

definition threads_tasks ::
  "('s \<Rightarrow> string \<rightharpoonup> Task) \<Rightarrow> ('q Queue \<Rightarrow> TaskEvent list) \<Rightarrow> ('t \<Rightarrow> string \<rightharpoonup> Task) \<Rightarrow> ('p Queue \<Rightarrow> Task list) \<Rightarrow>
   ('q, 's, 'e, ('p, 't, 'd) world) menv \<Rightarrow> ('p, 't, 'd) wenv \<Rightarrow> ('q, 's, 'e, 'p, 't) threads \<Rightarrow> Task set" where
  "threads_tasks held contents wheld wcontents M W x =
     teTask ` set (contents (mPending (thManager x))) \<union> ran (known held M (thManager x)) \<union>
     send_tasks (thSend x) \<union> health_tasks (thHealth x) \<union> thStops x \<union> thReports x \<union> (\<Union>a. thWstops x a) \<union>
     (\<Union>(w, r, u) \<in> ran (thWorkers x).
        set (wcontents (wQueue w)) \<union> ran (stored wheld W w) \<union> run_tasks r \<union> update_tasks u)"

text \<open>The loops stand at their beginning, and no handler holds a task.\<close>

definition threads_at :: "('q, 's, 'e, 'p, 't, 'd) sys \<Rightarrow> ('q, 's, 'e, 'p, 't) threads" where
  "threads_at x =
     (case x of (m, c) \<Rightarrow>
        \<lparr>thManager = m, thSend = SIdle, thHealth = HPass [], thStops = {}, thReports = {},
         thWorkers = (\<lambda>a. map_option (\<lambda>w. (w, RIdle, UPass [])) (workers c a)), thWstops = (\<lambda>a. {})\<rparr>)"

section \<open>What is known of the tasks in flight\<close>

context system_flow
begin

fun send_flows :: "send_pc \<Rightarrow> bool" where
  "send_flows (SGot te) = E (teTask te)"
| "send_flows (SPlace te) = E (teTask te)"
| "send_flows (SChosen te n) = (E (teTask te) \<and> nAPI n \<in> addrs)"
| "send_flows (SSending te n) = (E (teTask te) \<and> nAPI n \<in> addrs)"
| "send_flows (SRollback te wn) = E (teTask te)"
| "send_flows (SRequeue te) = E (teTask te)"
| "send_flows (SRecord t) = E t"
| "send_flows _ = True"

fun health_flows :: "health_pc \<Rightarrow> bool" where
  "health_flows (HSend t wn ts) = (E t \<and> (\<forall>t \<in> set (t # ts). K t))"
| "health_flows h = (\<forall>t \<in> health_tasks h. K t)"

fun run_flows :: "run_pc \<Rightarrow> bool" where
  "run_flows RIdle = True"
| "run_flows (RGot q) = U q"
| "run_flows (RFresh q) = U q"
| "run_flows (RCheck q p) = (U q \<and> R p)"
| "run_flows (RStarting q) = U q"
| "run_flows (RStopping q) = U q"

fun update_flows :: "update_pc \<Rightarrow> bool" where
  "update_flows (UPass ts) = (\<forall>t \<in> set ts. R t)"
| "update_flows (UInspected t resp ts) =
     ((\<forall>t \<in> set (t # ts). R t) \<and> (\<forall>c. diContainer resp = Some c \<longrightarrow> H (irPorts c)))"

definition wconc_flows :: "('p, 't) wconc \<Rightarrow> bool" where
  "wconc_flows c \<longleftrightarrow> (case c of (w, r, u) \<Rightarrow> worker_flows w \<and> run_flows r \<and> update_flows u)"

definition threads_flows :: "('q, 's, 'e, 'p, 't) threads \<Rightarrow> bool" where
  "threads_flows x \<longleftrightarrow> manager_flows (thManager x) \<and> send_flows (thSend x) \<and> health_flows (thHealth x) \<and>
     (\<forall>t \<in> thStops x. K t) \<and> (\<forall>t \<in> thReports x. R t) \<and>
     (\<forall>a. \<forall>t \<in> thWstops x a. R t) \<and> (\<forall>a c. thWorkers x a = Some c \<longrightarrow> wconc_flows c)"

lemma snapshot_known:
  assumes m: "manager_flows m" and "Manager_GetTasks M m = Inr ts" and "t \<in> set ts"
  shows "K t"
proof -
  have k: "keyed_tasks held ok M m" by (rule flows_keyed [OF m])
  have l: "List (me_taskdb M) (mTaskDb m) = Inr ts"
    using assms(2) by (auto simp: Manager_GetTasks_def snapshotTasks_def split: sum.splits)
  obtain key where "held (mTaskDb m) key = Some t"
    using man.ts.List_held [OF man.keyed_ok [OF k] l assms(3)] by blast
  then have "known held M m (tID t) = Some t" using k by (auto simp: keyed_tasks_def known_def)
  then show ?thesis by (rule known_flows [OF m])
qed

text \<open>In whatever state of the workers: what a worker answers to a task it accepts is that task.\<close>

lemma accepted_same: "postTaskEvent M op wn a te c = (Inr t, c') \<Longrightarrow> a \<in> addrs \<Longrightarrow> t = teTask te"
proof -
  assume p: "postTaskEvent M op wn a te c = (Inr t, c')" and a: "a \<in> addrs"
  obtain request where r: "encode_TaskEvent (me_codec M) te = Inr request"
    using p by (auto simp: postTaskEvent_def split: sum.splits)
  show ?thesis
  proof (cases "workers c a")
    case None
    then show ?thesis using p r a by (auto simp: postTaskEvent_def client deliver_def urls)
  next
    case (Some w)
    then show ?thesis using p post_reaches [OF a Some r] by simp
  qed
qed

subsection \<open>The manager's loops\<close>

lemma thread_step_flows:
  assumes "thread_step M (m, s, h) (m', s', h')" and "manager_flows m" and "send_flows s" and "health_flows h"
  shows "manager_flows m' \<and> send_flows s' \<and> health_flows h'"
  using assms(1)
proof (cases rule: thread_step.cases)
  case ts_none
  then show ?thesis using next_flows(1) [OF assms(2)] assms by simp
next
  case (ts_next te)
  then show ?thesis using next_flows [OF assms(2)] assms by simp
next
  case (ts_unplaced te c e c')
  then show ?thesis
    using SelectWorker_outcome(1) [OF ts_unplaced(4)] manager_flows_same [of m' m] assms by auto
next
  case (ts_choose te c n c')
  obtain sc where m': "m' = m\<lparr>mScheduler := sc\<rparr>" using SelectWorker_outcome(1) [OF ts_choose(4)] by blast
  have "n \<in> set (mWorkerNodes m)" using SelectWorker_outcome(2) [OF ts_choose(4)] by blast
  then show ?thesis
    using ts_choose m' manager_flows_same [of m' m] assms by (auto simp: manager_flows_def)
next
  case (ts_accepted n te c t c')
  then show ?thesis using accepted_same [OF ts_accepted(5)] assms by auto
next
  case (ts_record t)
  then show ?thesis using put_flows [OF assms(2) send(2)] assms by simp
next
  case (th_start ts)
  then show ?thesis using snapshot_known [OF assms(2)] assms by auto
next
  case (th_begin wn a t t' ts)
  then show ?thesis using begin_flows [OF assms(2)] assms by auto
next
  case (th_no_begin wn a t ts)
  then show ?thesis using begin_flows(1) [OF assms(2)] assms by auto
next
  case (th_requeue te t wn ts)
  then show ?thesis using enqueue_flows [OF assms(2)] assms by auto
qed (use assms route_flows retire_flows enqueue_flows in auto)

subsection \<open>The workers' loops\<close>

lemma loop_step_flows:
  assumes "loop_step W c c'" and "wconc_flows c"
  shows "wconc_flows c'"
  using assms
proof (induction rule: loop_step.induct)
  case (tw_stats w r u pr)
  then show ?case using collect_flows by (simp add: wconc_flows_def)
next
  case (tr_next w q w' u)
  then show ?case using dequeue_flows [OF _ tr_next(1)] by (simp add: wconc_flows_def)
next
  case (tr_seen q w p u)
  then show ?case using LookupTask_flows [of w "tID q" p] by (simp add: wconc_flows_def LookupTask_def)
next
  case (tr_put w q u)
  then show ?case using put_worker_flows accept by (simp add: wconc_flows_def)
next
  case (tr_started q w d res w' d' u)
  then show ?case using StartTask_flows [OF _ _ tr_started(1)] by (simp add: wconc_flows_def)
next
  case (tr_stopped q w d res w' d' u)
  then show ?case using StopTask_flows [OF _ _ tr_stopped(1)] by (simp add: wconc_flows_def)
next
  case (tu_list w ts r)
  then show ?case using listed_flows [of w ts] by (auto simp: wconc_flows_def Worker_GetTasks_def)
next
  case (tu_inspect t d resp d' w r ts)
  then show ?case using inspected_ports [OF tu_inspect(2)] by (simp add: wconc_flows_def)
next
  case (tu_update w r t resp ts)
  then show ?case using inspected_flows [of w t resp] by (simp add: wconc_flows_def)
qed (simp_all add: wconc_flows_def)

subsection \<open>The system\<close>

lemma threads_flowsD:
  assumes "threads_flows x"
  shows "manager_flows (thManager x)" "send_flows (thSend x)" "health_flows (thHealth x)"
    and "t \<in> thStops x \<Longrightarrow> K t" "t \<in> thReports x \<Longrightarrow> R t" "t \<in> thWstops x a \<Longrightarrow> R t"
    and "thWorkers x a = Some (w, r, u) \<Longrightarrow> worker_flows w \<and> run_flows r \<and> update_flows u"
  using assms by (auto simp: threads_flows_def wconc_flows_def split: prod.splits)

lemma threads_worker:
  assumes "threads_flows x" and "thWorkers x a = Some (w, r, u)" and "U t"
  shows "threads_flows (x\<lparr>thWorkers := (thWorkers x)(a' \<mapsto> (Worker_AddTask W t w, r, u))\<rparr>)"
  using assms AddTask_flows [of w t] by (simp add: threads_flows_def wconc_flows_def split: prod.splits)

lemma threads_manager:
  "threads_flows x \<Longrightarrow> manager_flows m \<Longrightarrow> threads_flows (x\<lparr>thManager := m\<rparr>)"
  by (simp add: threads_flows_def)

lemma threads_step_flows:
  assumes "threads_step M W submits x y" and x: "threads_flows x"
  shows "threads_flows y"
  using assms(1)
proof (cases rule: threads_step.cases)
  case (th_submit te)
  then show ?thesis
    using threads_manager [OF x enqueue_flows [OF threads_flowsD(1) [OF x] submit(1)]] by (simp add: Manager_AddTask_def)
next
  case (th_lookup i t)
  then show ?thesis using x lookup_known [OF threads_flowsD(1) [OF x] th_lookup(2)] by (simp add: threads_flows_def)
next
  case (th_stop t te)
  have "E (teTask te)" using task_flow.stop(1) [OF task_flow_axioms threads_flowsD(4) [OF x th_stop(2)]] th_stop(3) by simp
  then show ?thesis
    using th_stop(1) threads_manager [OF x enqueue_flows [OF threads_flowsD(1) [OF x]]] by (simp add: Manager_AddTask_def)
next
  case (th_loop m s h)
  then show ?thesis
    using x thread_step_flows [OF th_loop(2) threads_flowsD(1-3) [OF x]] by (simp add: threads_flows_def)
next
  case (th_fetch a w r u ts)
  then show ?thesis using x listed_flows threads_flowsD(7) [OF x th_fetch(2)] by (auto simp: threads_flows_def)
next
  case (th_report t)
  then show ?thesis
    using threads_manager [OF x apply_reports_flows [OF threads_flowsD(1) [OF x], of "[t]"]] threads_flowsD(5) [OF x] by simp
next
  case (th_sent te n w r u)
  then show ?thesis using threads_worker [OF x th_sent(3) send(1)] threads_flowsD(2) [OF x] by simp
next
  case (th_resent t wn ts a w r u)
  then show ?thesis using threads_worker [OF x th_resent(4) send(1)] threads_flowsD(3) [OF x] by simp
next
  case (th_wsubmit t a w r u)
  then show ?thesis using threads_worker [OF x th_wsubmit(3) submit(2)] by simp
next
  case (th_wlookup a w r u i t)
  then show ?thesis
    using x LookupTask_flows [of w i t] threads_flowsD(7) [OF x th_wlookup(2)] by (auto simp: threads_flows_def)
next
  case (th_wstop t a w r u)
  then show ?thesis using threads_worker [OF x th_wstop(3) worker_stop [OF threads_flowsD(6) [OF x th_wstop(2)]]] by simp
next
  case (th_wloop a c c')
  have "wconc_flows c" using x th_wloop(2) by (cases c) (simp add: threads_flows_def)
  then have "wconc_flows c'" by (rule loop_step_flows [OF th_wloop(3)])
  then show ?thesis using x th_wloop by (cases c') (simp add: threads_flows_def)
qed

lemma threads_run_flows: "threads_run M W submits x y \<Longrightarrow> threads_flows x \<Longrightarrow> threads_flows y"
  by (induction rule: threads_run.induct) (auto intro: threads_step_flows)

lemma threads_at_flows: "manager_flows m \<Longrightarrow> world_flows c \<Longrightarrow> threads_flows (threads_at (m, c))"
  by (auto simp: threads_at_def threads_flows_def wconc_flows_def world_flows_def)

lemma health_known: "health_flows h \<Longrightarrow> t \<in> health_tasks h \<Longrightarrow> K t"
  by (cases h) auto

text \<open>What the code knows of every task, it knows of each task kept or held.\<close>

lemma threads_tasks_flows:
  assumes "threads_flows x" and "t \<in> threads_tasks held contents wheld wcontents M W x"
  shows "E t \<or> K t \<or> U t \<or> R t"
proof -
  have s: "E t" if "t \<in> send_tasks (thSend x)"
    using that threads_flowsD(2) [OF assms(1)] by (cases "thSend x") auto
  have h: "K t" if "t \<in> health_tasks (thHealth x)"
    using that threads_flowsD(3) [OF assms(1)] by (cases "thHealth x") auto
  have r: "U t \<or> R t" if "thWorkers x a = Some (w, r, u)" "t \<in> run_tasks r" for a w r u
    using that threads_flowsD(7) [OF assms(1) that(1)] by (cases r) auto
  have u: "R t" if "thWorkers x a = Some (w, r, u)" "t \<in> update_tasks u" for a w r u
    using that threads_flowsD(7) [OF assms(1) that(1)] by (cases u) auto
  have q: "U t" if "thWorkers x a = Some (w, r, u)" "t \<in> set (wcontents (wQueue w))" for a w r u
    using that threads_flowsD(7) [OF assms(1) that(1)] by (auto simp: worker_flows_def)
  have k: "R t" if "thWorkers x a = Some (w, r, u)" "t \<in> ran (stored wheld W w)" for a w r u
    using that threads_flowsD(7) [OF assms(1) that(1)] by (auto simp: worker_flows_def ran_def)
  note M = threads_flowsD(1) [OF assms(1), unfolded manager_flows_def]
  have p: "E t" if "t \<in> teTask ` set (contents (mPending (thManager x)))" using that M by blast
  have n: "K t" if "t \<in> ran (known held M (thManager x))" using that M by (auto simp: ran_def)
  from assms(2) consider
      "t \<in> teTask ` set (contents (mPending (thManager x)))" | "t \<in> ran (known held M (thManager x))"
    | "t \<in> send_tasks (thSend x)" | "t \<in> health_tasks (thHealth x)" | "t \<in> thStops x" | "t \<in> thReports x"
    | a where "t \<in> thWstops x a"
    | a w r u where "thWorkers x a = Some (w, r, u)"
        "t \<in> set (wcontents (wQueue w)) \<union> ran (stored wheld W w) \<union> run_tasks r \<union> update_tasks u"
    unfolding threads_tasks_def ran_def by blast
  then show ?thesis
  proof cases
    case 8
    then show ?thesis using q [OF 8(1)] k [OF 8(1)] r [OF 8(1)] u [OF 8(1)] by (elim UnE) simp_all
  qed (simp_all add: p n s h threads_flowsD(4-6) [OF assms(1)])
qed

end






section \<open>Properties\<close>

text \<open>
  C7. No interleaving invents a task, mixes two up or breaks a type: when clients submit jobs of
  \<open>J\<close> with a named state and a restart count of an \<open>int\<close>, then whenever the goroutines of the
  manager and of its workers are suspended between two critical sections or requests, every task
  that is pending, queued, recorded, or held by a goroutine, has its job in \<open>J\<close>, a named state and
  such a count; and with one job per identifier all copies of a task agree on what it is.
\<close>

theorem interleavings_invent_no_task:
  assumes S: "system M held ok contents W wheld wok wcontents chi net enc addrs"
    and x: "system_start held ok wheld wok wcontents addrs M W x"
    and run: "threads_run M W (\<lambda>t. job t \<in> J \<and> tState t \<in> states \<and> in64 (tRestartCount t)) (threads_at x) y"
  shows "(\<forall>t \<in> threads_tasks held contents wheld wcontents M W y.
      job t \<in> J \<and> tState t \<in> {Pending, Scheduled, Running, Completed, Failed} \<and> in64 (tRestartCount t)) \<and>
    (inj_on fst J \<longrightarrow> (\<forall>t \<in> threads_tasks held contents wheld wcontents M W y.
       \<forall>t' \<in> threads_tasks held contents wheld wcontents M W y. tID t = tID t' \<longrightarrow> job t = job t'))"
proof -
  let ?s = "sound_task J states {n. in64 n}"
  have flow: "task_flow ?s ?s ?s ?s ?s (\<lambda>_. True) (\<lambda>_ _. True)" by (rule sound_flow) (auto simp: states_def)
  have f: "system_flow M held ok contents W wheld wok wcontents chi net enc addrs ?s ?s ?s ?s ?s (\<lambda>_. True) (\<lambda>_ _. True)"
    by (intro system_flowI S flow) simp_all
  obtain m c where mc: "x = (m, c)" by (cases x)
  have start: "system_flow.threads_flows M held ok contents W wheld wok wcontents addrs ?s ?s ?s ?s (\<lambda>_. True) (threads_at x)"
    using system_flow.threads_at_flows [OF f] system_flow.start_flows [OF f] x unfolding mc by blast
  have "threads_run M W ?s (threads_at x) y" using run by (simp add: sound_task_def [abs_def])
  from system_flow.threads_tasks_flows [OF f system_flow.threads_run_flows [OF f this start]]
  have t: "job t \<in> J \<and> tState t \<in> states \<and> in64 (tRestartCount t)"
    if "t \<in> threads_tasks held contents wheld wcontents M W y" for t
    using that by (auto simp: sound_task_def)
  with same_job [of J] show ?thesis unfolding states_def by blast
qed

text \<open>A task is submitted to the concrete system and taken off the queue by the scheduling loop.\<close>

theorem interleavings_invent_no_task_witness:
  "let te = sample_event (sample_task Scheduled 0) in
   \<exists>y. thSend y = SGot te \<and>
     teTask te \<in> threads_tasks InMemory_held inner InMemory_held inner wire_menv wire_wenv y \<and>
     job ` threads_tasks InMemory_held inner InMemory_held inner wire_menv wire_wenv y \<subseteq> {job (teTask te)}"
proof -
  let ?te = "sample_event (sample_task Scheduled 0)"
  let ?P = "\<lambda>t. job t \<in> {job (teTask ?te)} \<and> tState t \<in> states \<and> in64 (tRestartCount t)"
  obtain m where new: "NewManager wire_menv [\<lparr>wmName = ''a'', wmAddress = ''http://h''\<rparr>] ''round-robin'' ''IN_MEMORY''
      (Inr (NewInMemory, NewInMemory)) = Inr m"
    and x: "system_start InMemory_held InMemory_ok InMemory_held InMemory_ok inner http_addrs wire_menv wire_wenv (m, world_with [])"
    using wire_start by blast
  have q: "mPending m = New (me_queue wire_menv)" using new by (auto simp: NewManager_def Let_def split: sum.splits)
  let ?x = "threads_at (m, world_with [])" and ?m = "Manager_AddTask wire_menv ?te m"
  let ?x1 = "?x\<lparr>thManager := ?m\<rparr>"
  let ?y = "?x1\<lparr>thManager := m, thSend := SGot ?te, thHealth := HPass []\<rparr>"
  have at: "thManager ?x = m" "thSend ?x = SIdle" "thHealth ?x = HPass []" by (simp_all add: threads_at_def)
  have "?P (teTask ?te)" by (simp add: states_def in64_def)
  from th_submit [where submits = ?P and te = ?te, OF this, of wire_menv wire_wenv ?x]
  have sub: "threads_step wire_menv wire_wenv ?P ?x ?x1" unfolding at .
  have n: "nextPendingEvent wire_menv ?m = (Some ?te, m)"
    using q by (simp add: nextPendingEvent_def Manager_AddTask_def enqueueEvent_def wire_menv_def list_collq_def New_def Enqueue_def Dequeue_def)
  have "thread_step wire_menv (thManager ?x1, thSend ?x1, thHealth ?x1) (m, SGot ?te, HPass [])"
    using ts_next [OF n] at by simp
  from threads_snoc [OF threads_snoc [OF threads_refl sub] th_loop [OF this]]
  have run: "threads_run wire_menv wire_wenv ?P ?x ?y" .
  have "teTask ?te \<in> threads_tasks InMemory_held inner InMemory_held inner wire_menv wire_wenv ?y"
    by (simp add: threads_tasks_def)
  moreover have "job ` threads_tasks InMemory_held inner InMemory_held inner wire_menv wire_wenv ?y \<subseteq> {job (teTask ?te)}"
    using interleavings_invent_no_task [OF wire_system x run] by blast
  moreover have "thSend ?y = SGot ?te" by simp
  ultimately show ?thesis unfolding Let_def by blast
qed



end
