(* ===== verification/Orch_Safety.thy ===== *)
theory Orch_Safety
  imports Orch_Threads
begin

text \<open>
  The manager process stays up. A panic in one of its loops ends the process; the code can panic
  in two places, in a goroutine that scores a worker (package \<open>scheduler\<close>) and in the health
  check of a task (\<open>getHostPort\<close>). Both read what a worker replied, so the proof that neither
  is reached needs the whole system: what a worker's handlers can reply is an invariant of the
  runs of \<open>Orch_System\<close> and of the interleavings of \<open>Orch_Threads\<close> (preservation), and it is enough
  for the manager's next round and for the next step of each of its goroutines (progress).
\<close>

section \<open>Statistics on the wire\<close>

text \<open>A response of the retry loop came from one of its requests, and no request or wait changed \<open>v\<close>.\<close>

lemma retry_loop_response:
  assumes "\<And>u x. v (snd (fn u x)) = v x" and "\<And>n x. v (snd (wait_or_done ctx n x)) = v x"
    and "fst (retry_loop ctx cfg fn url n (None, e) w) = (Some res, e')"
  shows "\<exists>x. v x = v w \<and> fst (fn url x) = Inr res"
  using assms(3)
proof (induction n arbitrary: e w)
  case (Suc n)
  obtain a w1 where f: "fn url w = (a, w1)" by fastforce
  then have w1: "v w1 = v w" using assms(1) [of url w] by simp
  show ?case
  proof (cases a)
    case (Inr r)
    then show ?thesis using Suc.prems f by (intro exI [of _ w]) simp
  next
    case (Inl err)
    obtain b w2 where d: "wait_or_done ctx (delay cfg) w1 = (b, w2)" by fastforce
    then have w2: "v w2 = v w" using assms(2) [of "delay cfg" w1] w1 by simp
    have "\<exists>w'. v w' = v w \<and> fst (retry_loop ctx cfg fn url n (None, Some err) w') = (Some res, e')"
      using Suc.prems f Inl d w1 w2 by (auto split: option.splits if_splits)
    then show ?thesis using Suc.IH by metis
  qed
qed simp

text \<open>
  The laws beyond \<open>system\<close>: chi routes the path that \<open>statsURL\<close> names, \<open>encoding/json\<close> brings a
  pointer that is not nil back as one, and every goroutine of a scoring pass finishes once.
\<close>

locale stats_system = system M held ok contents W wheld wok wcontents chi net enc addrs
  for M :: "('q, 's, 'e, ('p, 't, 'd) world) menv" and held ok contents
    and W :: "('p, 't, 'd) wenv" and wheld wok wcontents and chi net enc addrs +
  assumes stats_route: "chi (patterns worker_routes) ''GET'' ''/stats'' = Inr (3, '''')"
    and stats_json: "decode_Stats (se_codec (me_sched M)) (enc (PayloadBody (StatsPayload st))) = Inr st' \<Longrightarrow>
      MemStats st \<noteq> None \<Longrightarrow> MemStats st' \<noteq> None"
    and once: "completion_order (se_order (me_sched M))"
begin

definition all_complete :: "('p, 't, 'd) world \<Rightarrow> bool" where
  "all_complete c \<longleftrightarrow> (\<forall>a w. workers c a = Some w \<longrightarrow> stats_complete w)"

lemma all_complete_cong: "workers c' = workers c \<Longrightarrow> all_complete c' = all_complete c"
  by (simp add: all_complete_def)

text \<open>A worker that answers with status 200 has collected its statistics.\<close>

lemma stats_reply:
  assumes a: "a \<in> addrs" and c: "all_complete c"
    and r: "fst (se_get (me_sched M) (a @ ''/stats'') c) = Inr resp" "StatusCode resp = StatusOK"
    and d: "decode_Stats (se_codec (me_sched M)) (Body resp) = Inr st'"
  shows "MemStats st' \<noteq> None"
proof -
  have u: "net (a @ ''/stats'') = Some (a, ''/stats'')" "me_NewRequest M ''GET'' (a @ ''/stats'') = None"
    using net(1) [OF a, of "''stats''"] net(2) [OF a, of "''GET''" "''stats''"] by simp_all
  show ?thesis
  proof (cases "workers c a")
    case None
    then show ?thesis using r(1) u by (simp add: stats_get httpapi_Get_def deliver_def)
  next
    case (Some w)
    have resp: "resp = response enc (Worker_GetStatsHandler w)"
      using r(1) u Some by (simp add: stats_get httpapi_Get_def deliver_def Worker_ServeHTTP_def stats_route split: prod.splits)
    show ?thesis
    proof (cases "wStats w")
      case None
      then show ?thesis
        using r(2) resp by (simp add: response_def Worker_GetStatsHandler_def SnapshotStats_def reply_defs status_defs)
    next
      case st: (Some st)
      then have "Body resp = enc (PayloadBody (StatsPayload st))"
        using resp by (simp add: response_def Worker_GetStatsHandler_def SnapshotStats_def reply_defs)
      moreover have "MemStats st \<noteq> None" using c Some st by (auto simp: all_complete_def stats_complete_def)
      ultimately show ?thesis using stats_json d by simp
    qed
  qed
qed

lemma fetched_complete:
  assumes "nAPI n \<in> addrs" and "all_complete c"
    and g: "fst (GetStats (se_codec (me_sched M)) (se_ctx (me_sched M)) (se_get (me_sched M)) n c) = Inr (Inr st)"
  shows "MemStats st \<noteq> None"
proof -
  obtain resp where resp: "fst (HTTPWithRetry (se_ctx (me_sched M)) (se_get (me_sched M)) (statsURL n) [] c) = (Some resp, None)"
      "StatusCode resp = StatusOK" "decode_Stats (se_codec (me_sched M)) (Body resp) = Inr st"
    using g GetStats_outcome [of "se_codec (me_sched M)" "se_ctx (me_sched M)" "se_get (me_sched M)" n c st] by auto
  have "\<exists>x. workers x = workers c \<and> fst (se_get (me_sched M) (statsURL n) x) = Inr resp"
    by (rule retry_loop_response [OF scoring_view.get_view [OF scoring] scoring_view.wait_view [OF scoring]
          resp(1) [unfolded default_limit]])
  then obtain x where "workers x = workers c" "fst (se_get (me_sched M) (statsURL n) x) = Inr resp" by blast
  moreover from this(1) have "all_complete x" using all_complete_cong [of x c] assms(2) by simp
  ultimately show ?thesis
    using stats_reply [OF assms(1) _ _ resp(2,3), of x] by (simp add: statsURL_def)
qed

lemma SelectWorker_no_panic:
  assumes c: "all_complete c" and n: "\<forall>n \<in> set (mWorkerNodes m). nAPI n \<in> addrs"
  shows "\<exists>r. SelectWorker M t m c = Inr r"
proof -
  let ?S = "me_sched M"
  have "\<exists>r. Score ?S t cands s c = Inr r" if "set cands \<subseteq> set (mWorkerNodes m)" for cands s
  proof (cases s)
    case (MarginalCostS e)
    have "(\<exists>r. fst (score_candidate ?S t (cands ! i) x) = Inr r) \<and> all_complete (snd (score_candidate ?S t (cands ! i) x))"
      if i: "i \<in> set (se_order ?S (length cands))" and x: "all_complete x" for i x
    proof
      have "cands ! i \<in> set cands" using i once by (simp add: completion_order_def)
      then have "nAPI (cands ! i) \<in> addrs" using n \<open>set cands \<subseteq> _\<close> by blast
      then show "\<exists>r. fst (score_candidate ?S t (cands ! i) x) = Inr r"
        by (intro score_candidate_no_panic fetched_complete [OF _ x])
      show "all_complete (snd (score_candidate ?S t (cands ! i) x))"
        using scoring_view.score_candidate_view [OF scoring prod.collapse [symmetric]] x
        by (simp add: all_complete_def)
    qed
    from MarginalCost_Score_no_panic [OF this c] MarginalCostS show ?thesis by auto
  qed (simp split: prod.splits)
  from this [of "SelectCandidateNodes (mScheduler m) t (mWorkerNodes m)" "mScheduler m"]
  show ?thesis
    using subseq_set [OF sch.select_subseq]
    by (auto simp: SelectWorker_def pickWorker_def Let_def split: sum.splits option.splits prod.splits simp del: Score.simps)
qed

lemma SendWork_no_panic:
  assumes "all_complete c" and "\<forall>n \<in> set (mWorkerNodes m). nAPI n \<in> addrs"
  shows "\<exists>r. SendWork M m c = Inr r"
proof -
  obtain r m0 where nx: "nextPendingEvent M m = (r, m0)" by fastforce
  have "\<exists>x. SelectWorker M t m0 c = Inr x" for t
    using nextPendingEvent_frame(4) [OF nx] assms by (intro SelectWorker_no_panic) auto
  with nx show ?thesis
    by (auto simp: SendWork_def Let_def split: option.splits prod.splits sum.splits) (metis sum.distinct(1))+
qed

end

text \<open>Port lists without an empty list of bindings stay so.\<close>

interpretation bound: task_flow bound_ports bound_ports bound_ports bound_ports bound_ports bound_map "\<lambda>_ _. True"
  by unfold_locales
    (auto simp: bound_ports_def restarted_def start_failed_def start_succeeded_def stop_succeeded_def mark_failed_def
      refresh_def mergeTaskUpdate_def Let_def)

section \<open>Rounds of the scheduling loop\<close>

text \<open>A run with \<open>k\<close> rounds of the scheduling loop, among any steps of everything else.\<close>

inductive system_rounds ::
  "('q, 's, 'e, ('p, 't, 'd) world) menv \<Rightarrow> ('p, 't, 'd) wenv \<Rightarrow> chi \<Rightarrow> (string \<Rightarrow> (string \<times> string) option) \<Rightarrow>
   (worker_payload body \<Rightarrow> string) \<Rightarrow> (Task \<Rightarrow> bool) \<Rightarrow> nat \<Rightarrow> ('q, 's, 'e, 'p, 't, 'd) sys \<Rightarrow> ('q, 's, 'e, 'p, 't, 'd) sys \<Rightarrow> bool"
  for M W chi net enc submits where
  rounds_refl: "system_rounds M W chi net enc submits 0 x x"
| rounds_send: "system_rounds M W chi net enc submits k x (m, c) \<Longrightarrow> SendWork M m c = Inr y \<Longrightarrow>
    system_rounds M W chi net enc submits (Suc k) x y"
| rounds_other: "system_rounds M W chi net enc submits k x y \<Longrightarrow> other_step M W chi net enc submits y z \<Longrightarrow>
    system_rounds M W chi net enc submits k x z"

lemma system_rounds_run:
  "system_rounds M W chi net enc submits k x y \<Longrightarrow> system_run M W chi net enc submits x y"
proof (induction rule: system_rounds.induct)
  case (rounds_send k x m c y)
  then show ?case by (cases y) (auto intro: sys_snoc sys_send)
qed (auto intro: sys_snoc sys_refl sys_other)

lemma system_run_trans:
  "system_run M W chi net enc submits y z \<Longrightarrow> system_run M W chi net enc submits x y \<Longrightarrow> system_run M W chi net enc submits x z"
  by (induction rule: system_run.induct) (auto intro: sys_snoc)

context system
begin

text \<open>Everything but the scheduling loop only appends to the pending queue.\<close>

lemma other_step_appends:
  assumes "other_step M W chi net enc submits (m, c) (m', c')" and k: "keyed_tasks held ok M m"
  shows "\<exists>es. contents (mPending m') = contents (mPending m) @ es"
  using assms(1)
proof (cases rule: other_step.cases)
  case (sys_start request reply)
  then show ?thesis by (auto simp: Manager_StartTaskHandler_def Manager_AddTask_def split: sum.splits)
next
  case (sys_stop taskID reply)
  then show ?thesis
    by (auto simp: Manager_StopTaskHandler_def Manager_AddTask_def Let_def split_beta
        split: sum.splits option.splits if_splits)
next
  case sys_update
  then show ?thesis using man.Manager_updateTasks_pass [OF k, of c] by (simp add: man.pass_def)
next
  case sys_health
  then show ?thesis using man.doHealthChecks_pass [OF k] by (simp add: man.pass_def)
qed simp_all

text \<open>\<open>k\<close> rounds take the first \<open>k\<close> events off the queue; what comes in, or comes back, is behind the rest.\<close>

lemma system_rounds_pending:
  assumes rounds: "system_rounds M W chi net enc submits k x y"
    and keyed: "\<And>y. system_run M W chi net enc submits x y \<Longrightarrow> keyed_tasks held ok M (fst y)"
    and k: "k \<le> length (contents (mPending (fst x)))"
  shows "\<exists>es. contents (mPending (fst y)) = drop k (contents (mPending (fst x))) @ es"
  using rounds keyed k
proof (induction rule: system_rounds.induct)
  case (rounds_send k x m c y)
  obtain m' c' where y: "y = (m', c')" by (cases y)
  obtain es where es: "contents (mPending m) = drop k (contents (mPending (fst x))) @ es"
    using rounds_send by auto
  then have "contents (mPending m) \<noteq> [] \<and> tl (contents (mPending m)) = drop (Suc k) (contents (mPending (fst x))) @ es"
    using rounds_send.prems(2) by (auto simp: tl_append2 drop_Suc tl_drop)
  then show ?case
    using man.SendWork_pending [OF rounds_send.hyps(2) [unfolded y]] y by auto
next
  case (rounds_other k x y z)
  have "keyed_tasks held ok M (fst y)"
    using rounds_other.prems(1) system_rounds_run [OF rounds_other.hyps(1)] by blast
  then obtain es where "contents (mPending (fst z)) = contents (mPending (fst y)) @ es"
    using other_step_appends [of submits "fst y" "snd y" "fst z" "snd z"]
      rounds_other.hyps(2) by auto
  with rounds_other.IH [OF rounds_other.prems] show ?case by auto
qed simp

end

section \<open>The concrete system\<close>

lemma wire_stats_system: "stats_system wire_menv InMemory_held InMemory_ok inner wire_wenv InMemory_held InMemory_ok inner
  seg_chi http_net wire_enc http_addrs"
proof (intro stats_system.intro wire_system stats_system_axioms.intro)
  have u: "[0..<4] = [0, 1, 2, 3 :: nat]" by (simp add: upt_rec)
  show "seg_chi (patterns worker_routes) ''GET'' ''/stats'' = Inr (3, '''')"
    by (simp add: seg_chi_def worker_routes_def segments_def u)
  show "completion_order (se_order (me_sched wire_menv))" by (auto simp: completion_order_def wire_menv_def)
  fix st st'
  assume "decode_Stats (se_codec (me_sched wire_menv)) (wire_enc (PayloadBody (StatsPayload st))) = Inr st'"
    and "MemStats st \<noteq> None"
  then show "MemStats st' \<noteq> None" by (auto simp: wire_menv_def wire_codec_def wire_enc_def decode_mem_def)
qed

interpretation ss: stats_system wire_menv InMemory_held InMemory_ok inner wire_wenv InMemory_held InMemory_ok inner
  seg_chi http_net wire_enc http_addrs
  by (rule wire_stats_system)

lemma wire_docker: "\<forall>h. reported (we_docker wire_wenv) h \<longrightarrow> bound_map h"
  by (auto simp: reported_def wire_wenv_def mem_wenv_def logging_client_def Let_def bound_map_def)

section \<open>What holds in every state reached\<close>

lemma system_manager_env:
  "system M held ok contents W wheld wok wcontents chi net enc addrs \<Longrightarrow> manager_env M held ok contents"
  by (simp add: system_def cluster_def)

lemma bound_system:
  assumes "system M held ok contents W wheld wok wcontents chi net enc addrs"
    and "\<forall>h. reported (we_docker W) h \<longrightarrow> bound_map h"
  shows "system_flow M held ok contents W wheld wok wcontents chi net enc addrs
    bound_ports bound_ports bound_ports bound_ports bound_ports bound_map (\<lambda>_ _. True)"
  using assms by (intro system_flowI bound.task_flow_axioms) blast+

lemma reached_sends:
  assumes S: "stats_system M held ok contents W wheld wok wcontents chi net enc addrs"
    and docker: "\<forall>h. reported (we_docker W) h \<longrightarrow> bound_map h"
    and x: "system_start held ok wheld wok wcontents addrs M W x"
    and run: "system_run M W chi net enc bound_ports x (m, c)"
  shows "\<exists>r. SendWork M m c = Inr r"
proof -
  note f = bound_system [OF stats_system.axioms(1) [OF S] docker]
  have "stats_system.all_complete c"
    using system_flow.reached_flows(2) [OF f x run]
    by (auto simp: stats_system.all_complete_def [OF S] system_flow.world_flows_def [OF f] system_flow.worker_flows_def [OF f])
  moreover have "\<forall>n \<in> set (mWorkerNodes m). nAPI n \<in> addrs"
    using system_flow.reached_flows(1) [OF f x run] by (simp add: system_flow.manager_flows_def [OF f])
  ultimately show ?thesis by (rule stats_system.SendWork_no_panic [OF S])
qed

lemma reached_checks:
  assumes S: "stats_system M held ok contents W wheld wok wcontents chi net enc addrs"
    and docker: "\<forall>h. reported (we_docker W) h \<longrightarrow> bound_map h"
    and x: "system_start held ok wheld wok wcontents addrs M W x"
    and run: "system_run M W chi net enc bound_ports x (m, c)"
  shows "\<exists>r. doHealthChecks M m c = Inr r"
proof -
  note f = bound_system [OF stats_system.axioms(1) [OF S] docker]
  note m = system_flow.reached_flows(1) [OF f x run, unfolded system_flow.manager_flows_def [OF f]]
  show ?thesis
    by (rule doHealthChecks_no_panic [OF system_manager_env [OF stats_system.axioms(1) [OF S]]]) (use m in auto)
qed

section \<open>Properties\<close>

text \<open>
  C4. No goroutine panics: whenever the goroutines of the manager and of its workers are suspended
  between two critical sections or requests, under any interleaving, the scheduling loop's next
  choice of a worker and the health check of every task of the snapshot that the health loop
  holds return, with either scheduler; and so does a whole scheduling round or health check pass
  that starts there. What it takes: clients submit no port without a binding, and Docker, which
  the workers ask to publish all ports, reports none.
\<close>

theorem goroutines_never_panic:
  assumes S: "stats_system M held ok contents W wheld wok wcontents chi net enc addrs"
    and docker: "\<forall>h. reported (we_docker W) h \<longrightarrow> bound_map h"
    and x: "system_start held ok wheld wok wcontents addrs M W x"
    and run: "threads_run M W bound_ports (threads_at x) y"
    and c: "\<forall>a. workers c a = map_option fst (thWorkers y a)"
  shows "(\<forall>t. \<exists>r. SelectWorker M t (thManager y) c = Inr r) \<and>
    (\<forall>t \<in> health_tasks (thHealth y). \<exists>r. checkTaskHealth M t (thManager y) c = Inr r) \<and>
    (\<exists>m' c'. SendWork M (thManager y) c = Inr (m', c')) \<and> (\<exists>m' c'. doHealthChecks M (thManager y) c = Inr (m', c'))"
proof (intro conjI allI ballI)
  note f = bound_system [OF stats_system.axioms(1) [OF S] docker]
  obtain m0 c0 where x0: "x = (m0, c0)" by (cases x)
  note flows = system_flow.threads_run_flows [OF f run system_flow.threads_at_flows [OF f system_flow.start_flows [OF f x [unfolded x0]], folded x0]]
  note m = system_flow.threads_flowsD(1) [OF f flows, unfolded system_flow.manager_flows_def [OF f]]
  have "stats_complete w" if "workers c a = Some w" for a w
    using c that system_flow.threads_flowsD(7) [OF f flows, of a w]
    by (cases "thWorkers y a") (auto simp: system_flow.worker_flows_def [OF f])
  then have complete: "stats_system.all_complete c" by (simp add: stats_system.all_complete_def [OF S])
  have n: "\<forall>n \<in> set (mWorkerNodes (thManager y)). nAPI n \<in> addrs" using m by blast
  show "\<exists>r. SelectWorker M t (thManager y) c = Inr r" for t by (rule stats_system.SelectWorker_no_panic [OF S complete n])
  show "\<exists>m' c'. SendWork M (thManager y) c = Inr (m', c')"
    using stats_system.SendWork_no_panic [OF S complete n] by auto
  have "\<exists>r. doHealthChecks M (thManager y) c = Inr r"
    by (rule doHealthChecks_no_panic [OF system_manager_env [OF stats_system.axioms(1) [OF S]]]) (use m in auto)
  then show "\<exists>m' c'. doHealthChecks M (thManager y) c = Inr (m', c')" by auto
  show "\<exists>r. checkTaskHealth M t (thManager y) c = Inr r" if "t \<in> health_tasks (thHealth y)" for t
    by (rule checkTaskHealth_no_panic [OF system_flow.health_known [OF f system_flow.threads_flowsD(3) [OF f flows] that]])
qed

text \<open>A task is submitted, a worker collects its statistics; the scheduler is marginal cost.\<close>

theorem goroutines_never_panic_witness:
  "\<forall>pr. let te = sample_event (sample_task Scheduled 0); c = collect_worker wire_wenv pr ''http://h'' (world_with []) in
     \<exists>m e. mScheduler m = MarginalCostS e \<and> inner (mPending m) = [te] \<and>
       (\<exists>w. workers c ''http://h'' = Some w \<and> wStats w \<noteq> None) \<and>
       (\<exists>r. SelectWorker wire_menv (teTask te) m c = Inr r) \<and>
       (\<exists>m' c'. SendWork wire_menv m c = Inr (m', c')) \<and> (\<exists>m' c'. doHealthChecks wire_menv m c = Inr (m', c'))"
proof
  fix pr
  let ?te = "sample_event (sample_task Scheduled 0)" and ?c = "collect_worker wire_wenv pr ''http://h'' (world_with [])"
  have s: "GetScheduler ''marginal-cost'' = Inr (MarginalCostS \<lparr>mcName = MarginalCost_name\<rparr>)"
    by (simp add: GetScheduler_def MarginalCost_name_def)
  obtain m where m: "NewManager wire_menv [\<lparr>wmName = ''a'', wmAddress = ''http://h''\<rparr>] ''marginal-cost'' ''IN_MEMORY''
      (Inr (NewInMemory, NewInMemory)) = Inr m"
    and x: "system_start InMemory_held InMemory_ok InMemory_held InMemory_ok inner http_addrs wire_menv wire_wenv (m, world_with [])"
    using wire_starts [OF s] by blast
  let ?m = "Manager_AddTask wire_menv ?te m" and ?x = "threads_at (m, world_with [])"
  let ?w = "(worker_with [] [])\<lparr>wDb := \<lparr>Db = []\<rparr>\<rparr>"
  let ?x1 = "?x\<lparr>thManager := ?m\<rparr>"
  let ?y = "?x1\<lparr>thWorkers := (thWorkers ?x1)(''http://h'' \<mapsto> (CollectStats_round wire_wenv pr ?w, RIdle, UPass []))\<rparr>"
  have b: "bound_ports (teTask ?te)" by (simp add: bound_ports_def bound_map_def sample_task_def zero_Task_def)
  have at: "thManager ?x = m" "thWorkers ?x1 ''http://h'' = Some (?w, RIdle, UPass [])" by (simp_all add: threads_at_def)
  have sub: "threads_step wire_menv wire_wenv bound_ports ?x ?x1"
    using th_submit [where submits = bound_ports and te = ?te, OF b, of wire_menv wire_wenv ?x] unfolding at(1) .
  have run: "threads_run wire_menv wire_wenv bound_ports ?x ?y"
    by (rule threads_snoc [OF threads_snoc [OF threads_refl sub] th_wloop [OF at(2) tw_stats]])
  have c: "\<forall>a. workers ?c a = map_option fst (thWorkers ?y a)"
    by (simp add: collect_worker_def threads_at_def) (simp add: world_with_def)
  have "mScheduler m = MarginalCostS \<lparr>mcName = MarginalCost_name\<rparr>" "inner (mPending m) = []"
    using m s by (auto simp: NewManager_def Let_def wire_menv_def list_collq_def New_def)
  then have f: "mScheduler ?m = MarginalCostS \<lparr>mcName = MarginalCost_name\<rparr>" "inner (mPending ?m) = [?te]"
    by (simp_all add: Manager_AddTask_def enqueueEvent_def wire_menv_def list_collq_def Enqueue_def)
  have y: "thManager ?y = ?m" by simp
  have "\<exists>w. workers ?c ''http://h'' = Some w \<and> wStats w \<noteq> None"
    by (simp add: collect_worker_def CollectStats_round_def setStats_def)
  with f goroutines_never_panic [OF wire_stats_system wire_docker x run c, unfolded y]
  show "let te = ?te; c = ?c in \<exists>m e. mScheduler m = MarginalCostS e \<and> inner (mPending m) = [te] \<and>
       (\<exists>w. workers c ''http://h'' = Some w \<and> wStats w \<noteq> None) \<and>
       (\<exists>r. SelectWorker wire_menv (teTask te) m c = Inr r) \<and>
       (\<exists>m' c'. SendWork wire_menv m c = Inr (m', c')) \<and> (\<exists>m' c'. doHealthChecks wire_menv m c = Inr (m', c'))"
    unfolding Let_def by blast
qed

text \<open>
  The manager never goes down: in every state that the manager, its workers and their clients
  reach together, the next round of the scheduling loop and the next health check pass return
  and do not panic, with either scheduler; the other steps of the manager have no panic to
  reach. What it takes: clients submit no port without a binding, and Docker, which the workers
  ask to publish all ports, reports none.
\<close>

theorem manager_never_goes_down:
  assumes S: "stats_system M held ok contents W wheld wok wcontents chi net enc addrs"
    and docker: "\<forall>h. reported (we_docker W) h \<longrightarrow> bound_map h"
    and x: "system_start held ok wheld wok wcontents addrs M W x"
    and run: "system_run M W chi net enc bound_ports x (m, c)"
  shows "(\<exists>m' c'. SendWork M m c = Inr (m', c')) \<and> (\<exists>m' c'. doHealthChecks M m c = Inr (m', c'))"
  using reached_sends [OF S docker x run] reached_checks [OF S docker x run] by auto

theorem manager_never_goes_down_witness:
  "\<forall>pr. let te = sample_event (sample_task Scheduled 0); c = collect_worker wire_wenv pr ''http://h'' (world_with []) in
     \<exists>m e. mScheduler m = MarginalCostS e \<and> inner (mPending m) = [te] \<and>
       (\<exists>w. workers c ''http://h'' = Some w \<and> wStats w \<noteq> None) \<and>
       (\<exists>m' c'. SendWork wire_menv m c = Inr (m', c')) \<and> (\<exists>m' c'. doHealthChecks wire_menv m c = Inr (m', c'))"
proof
  fix pr
  let ?te = "sample_event (sample_task Scheduled 0)" and ?c = "collect_worker wire_wenv pr ''http://h'' (world_with [])"
  have s: "GetScheduler ''marginal-cost'' = Inr (MarginalCostS \<lparr>mcName = MarginalCost_name\<rparr>)"
    by (simp add: GetScheduler_def MarginalCost_name_def)
  obtain m where m: "NewManager wire_menv [\<lparr>wmName = ''a'', wmAddress = ''http://h''\<rparr>] ''marginal-cost'' ''IN_MEMORY''
      (Inr (NewInMemory, NewInMemory)) = Inr m"
    and x: "system_start InMemory_held InMemory_ok InMemory_held InMemory_ok inner http_addrs wire_menv wire_wenv (m, world_with [])"
    using wire_starts [OF s] by blast
  let ?m = "Manager_AddTask wire_menv ?te m"
  have b: "bound_ports (teTask ?te)" by (simp add: bound_ports_def bound_map_def sample_task_def zero_Task_def)
  have run: "system_run wire_menv wire_wenv seg_chi http_net wire_enc bound_ports (m, world_with []) (?m, ?c)"
    by (rule sys_snoc [OF wire_submits(1) [of bound_ports ?te, OF b] sys_other [OF sys_collect]])
  have "mScheduler m = MarginalCostS \<lparr>mcName = MarginalCost_name\<rparr>" "inner (mPending m) = []"
    using m s by (auto simp: NewManager_def Let_def wire_menv_def list_collq_def New_def)
  then have f: "mScheduler ?m = MarginalCostS \<lparr>mcName = MarginalCost_name\<rparr>" "inner (mPending ?m) = [?te]"
    by (simp_all add: Manager_AddTask_def enqueueEvent_def wire_menv_def list_collq_def Enqueue_def)
  have "\<exists>w. workers ?c ''http://h'' = Some w \<and> wStats w \<noteq> None"
    by (simp add: collect_worker_def CollectStats_round_def setStats_def)
  with f manager_never_goes_down [OF wire_stats_system wire_docker x run]
  show "let te = ?te; c = ?c in \<exists>m e. mScheduler m = MarginalCostS e \<and> inner (mPending m) = [te] \<and>
       (\<exists>w. workers c ''http://h'' = Some w \<and> wStats w \<noteq> None) \<and>
       (\<exists>m' c'. SendWork wire_menv m c = Inr (m', c')) \<and> (\<exists>m' c'. doHealthChecks wire_menv m c = Inr (m', c'))"
    unfolding Let_def by blast
qed

text \<open>
  C5. No task starves: in every state the system reaches, an event with \<open>k\<close> events pending before
  it is the next one that the scheduling loop takes after \<open>k\<close> of its rounds, whatever the
  manager's other loops, the workers and the clients do before, between and after these rounds
  and whatever was requeued; and that next round does not panic.
\<close>

theorem system_no_starvation:
  assumes S: "stats_system M held ok contents W wheld wok wcontents chi net enc addrs"
    and docker: "\<forall>h. reported (we_docker W) h \<longrightarrow> bound_map h"
    and x: "system_start held ok wheld wok wcontents addrs M W x"
    and run: "system_run M W chi net enc bound_ports x (m, c)"
    and k: "k < length (contents (mPending m))"
    and rounds: "system_rounds M W chi net enc bound_ports k (m, c) (m', c')"
  shows "(\<exists>m''. nextPendingEvent M m' = (Some (contents (mPending m) ! k), m'')) \<and> (\<exists>y. SendWork M m' c' = Inr y)"
proof
  have sys: "system M held ok contents W wheld wok wcontents chi net enc addrs"
    using S by (simp add: stats_system_def)
  have reach: "system_run M W chi net enc bound_ports x y"
    if "system_run M W chi net enc bound_ports (m, c) y" for y
    by (rule system_run_trans [OF that run])
  note flows = system_flow.reached_flows [OF bound_system [OF sys docker] x reach]
  have keyed: "keyed_tasks held ok M (fst y)" if "system_run M W chi net enc bound_ports (m, c) y" for y
    using flows(1) [of "fst y" "snd y"] that by (simp add: system_flow.manager_flows_def [OF bound_system [OF sys docker]])
  obtain es where "contents (mPending m') = drop k (contents (mPending m)) @ es"
    using system.system_rounds_pending [OF sys rounds keyed] k by auto
  then have "contents (mPending m') = contents (mPending m) ! k # (drop (Suc k) (contents (mPending m)) @ es)"
    using k by (simp add: Cons_nth_drop_Suc [symmetric])
  with manager_env.next_head [OF system_manager_env [OF sys]]
  show "\<exists>m''. nextPendingEvent M m' = (Some (contents (mPending m) ! k), m'')" by blast
  show "\<exists>y. SendWork M m' c' = Inr y"
    by (rule reached_sends [OF S docker x reach [OF system_rounds_run [OF rounds]]])
qed

text \<open>Two tasks are submitted; a round of the loop, then one of the worker the first was sent to.\<close>

theorem system_no_starvation_witness:
  "let te = sample_event (sample_task Scheduled 0); te2 = sample_event ((sample_task Scheduled 0)\<lparr>tID := 2\<rparr>) in
   \<exists>m m' c' m''. inner (mPending m) = [te, te2] \<and>
     system_rounds wire_menv wire_wenv seg_chi http_net wire_enc bound_ports 1 (m, world_with []) (m', run_worker wire_wenv ''http://h'' c') \<and>
     nextPendingEvent wire_menv m' = (Some te2, m'') \<and>
     (\<exists>y. SendWork wire_menv m' (run_worker wire_wenv ''http://h'' c') = Inr y)"
proof -
  let ?te = "sample_event (sample_task Scheduled 0)" and ?te2 = "sample_event ((sample_task Scheduled 0)\<lparr>tID := 2\<rparr>)"
  let ?rounds = "system_rounds wire_menv wire_wenv seg_chi http_net wire_enc bound_ports"
  have s: "GetScheduler ''marginal-cost'' = Inr (MarginalCostS \<lparr>mcName = MarginalCost_name\<rparr>)"
    by (simp add: GetScheduler_def MarginalCost_name_def)
  obtain m where m: "NewManager wire_menv [\<lparr>wmName = ''a'', wmAddress = ''http://h''\<rparr>] ''marginal-cost'' ''IN_MEMORY''
      (Inr (NewInMemory, NewInMemory)) = Inr m"
    and x: "system_start InMemory_held InMemory_ok InMemory_held InMemory_ok inner http_addrs wire_menv wire_wenv (m, world_with [])"
    using wire_starts [OF s] by blast
  let ?m1 = "Manager_AddTask wire_menv ?te m"
  let ?m = "Manager_AddTask wire_menv ?te2 ?m1"
  have b: "bound_ports (teTask ?te)" "bound_ports (teTask ?te2)"
    by (simp_all add: bound_ports_def bound_map_def sample_task_def zero_Task_def)
  have run: "system_run wire_menv wire_wenv seg_chi http_net wire_enc bound_ports (m, world_with []) (?m, world_with [])"
    by (rule system_run_trans [OF wire_submits(1) [of bound_ports ?te2, OF b(2)] wire_submits(1) [of bound_ports ?te, OF b(1)]])
  have "inner (mPending m) = []" using m s by (auto simp: NewManager_def Let_def wire_menv_def list_collq_def New_def)
  then have q: "inner (mPending ?m) = [?te, ?te2]"
    by (simp add: Manager_AddTask_def enqueueEvent_def wire_menv_def list_collq_def Enqueue_def)
  obtain m' c' where send: "SendWork wire_menv ?m (world_with []) = Inr (m', c')"
    using reached_sends [OF wire_stats_system wire_docker x run] by auto
  have r: "?rounds 1 (?m, world_with []) (m', run_worker wire_wenv ''http://h'' c')"
    using rounds_other [OF rounds_send [OF rounds_refl send] sys_run] by simp
  have "1 < length (inner (mPending ?m))" "inner (mPending ?m) ! 1 = ?te2" using q by simp_all
  with system_no_starvation [OF wire_stats_system wire_docker x run _ r] q r show ?thesis unfolding Let_def by metis
qed

end
