(* ===== verification/Orch_Refinement.thy ===== *)
theory Orch_Refinement
  imports Orch_Threads
begin

text \<open>
  The runs of \<open>Orch_System\<close>, in which a step is a whole handler or round, are runs of
  \<open>Orch_Threads\<close>, in which goroutines take turns between critical sections. Every step is replayed
  one critical section or request at a time (\<open>replays\<close>), so an invariant of the interleavings is one
  of the coarse runs.
\<close>

section \<open>Replaying\<close>

definition idle_workers :: "('p, 't, 'd) world \<Rightarrow> string \<rightharpoonup> ('p, 't) wconc" where
  "idle_workers c a = map_option (\<lambda>w. (w, RIdle, UPass [])) (workers c a)"

text \<open>\<open>x\<close> is at manager \<open>m\<close>, with its loops at \<open>s\<close> and \<open>h\<close>, and the workers of \<open>c\<close> between their rounds.\<close>

definition stands ::
  "('q, 's, 'e) Manager \<Rightarrow> send_pc \<Rightarrow> health_pc \<Rightarrow> ('p, 't, 'd) world \<Rightarrow> ('q, 's, 'e, 'p, 't) threads \<Rightarrow> bool" where
  "stands m s h c x \<longleftrightarrow> thManager x = m \<and> thSend x = s \<and> thHealth x = h \<and> thWorkers x = idle_workers c"

lemma idle_workers_upd:
  "workers c' = (workers c)(a \<mapsto> w) \<Longrightarrow> idle_workers c' = (idle_workers c)(a \<mapsto> (w, RIdle, UPass []))"
  by (simp add: idle_workers_def fun_eq_iff)

lemma idle_workers_Some: "workers c a = Some w \<Longrightarrow> idle_workers c a = Some (w, RIdle, UPass [])"
  by (simp add: idle_workers_def)

lemma idle_workers_cong: "workers c' = workers c \<Longrightarrow> idle_workers c' = idle_workers c"
  by (simp add: idle_workers_def fun_eq_iff)

lemma threads_trans:
  "threads_run M W submits y z \<Longrightarrow> threads_run M W submits x y \<Longrightarrow> threads_run M W submits x z"
  by (induction rule: threads_run.induct) (auto intro: threads_snoc)

lemma threads_one: "threads_step M W submits x y \<Longrightarrow> threads_run M W submits x y"
  by (rule threads_snoc [OF threads_refl])

lemma threads_loops:
  "loops_run M (thManager x, thSend x, thHealth x) (m, s, h) \<Longrightarrow>
   threads_run M W submits x (x\<lparr>thManager := m, thSend := s, thHealth := h\<rparr>)"
proof (induction "(m, s, h)" arbitrary: m s h rule: rtranclp_induct)
  case base
  then show ?case by (simp add: threads_refl)
next
  case (step y)
  obtain m1 s1 h1 where y: "y = (m1, s1, h1)" by (cases y)
  show ?case
    using threads_snoc [OF step.hyps(3) [OF y] th_loop [of M _ m s h]] step.hyps(2) y by simp
qed

lemma threads_wloops:
  "wloops_run W c c' \<Longrightarrow> thWorkers x a = Some c \<Longrightarrow>
   threads_run M W submits x (x\<lparr>thWorkers := (thWorkers x)(a \<mapsto> c')\<rparr>)"
proof (induction rule: rtranclp_induct)
  case base
  then have "x\<lparr>thWorkers := (thWorkers x)(a \<mapsto> c)\<rparr> = x" by (simp add: fun_upd_idem)
  then show ?case by (metis threads_refl)
next
  case (step c1 c2)
  let ?x1 = "x\<lparr>thWorkers := (thWorkers x)(a \<mapsto> c1)\<rparr>"
  have "threads_step M W submits ?x1 (?x1\<lparr>thWorkers := (thWorkers ?x1)(a \<mapsto> c2)\<rparr>)"
    by (rule th_wloop [OF _ step.hyps(2)]) simp
  note run = threads_snoc [OF step.IH [OF step.prems] this]
  have "?x1\<lparr>thWorkers := (thWorkers ?x1)(a \<mapsto> c2)\<rparr> = x\<lparr>thWorkers := (thWorkers x)(a \<mapsto> c2)\<rparr>" by simp
  with run show ?case by (simp only:)
qed

text \<open>From every state that stands at the one, a run leads to a state that stands at the other.\<close>

definition replays ::
  "('q, 's, 'e, ('p, 't, 'd) world) menv \<Rightarrow> ('p, 't, 'd) wenv \<Rightarrow> (Task \<Rightarrow> bool) \<Rightarrow>
   ('q, 's, 'e) Manager \<times> send_pc \<times> health_pc \<times> ('p, 't, 'd) world \<Rightarrow>
   ('q, 's, 'e) Manager \<times> send_pc \<times> health_pc \<times> ('p, 't, 'd) world \<Rightarrow> bool" where
  "replays M W submits p q \<longleftrightarrow>
     (case p of (m, s, h, c) \<Rightarrow> case q of (m', s', h', c') \<Rightarrow>
        \<forall>x. stands m s h c x \<longrightarrow> (\<exists>y. threads_run M W submits x y \<and> stands m' s' h' c' y))"

lemma replaysI:
  "(\<And>x. stands m s h c x \<Longrightarrow> \<exists>y. threads_run M W submits x y \<and> stands m' s' h' c' y) \<Longrightarrow>
   replays M W submits (m, s, h, c) (m', s', h', c')"
  by (simp add: replays_def)

lemma replays_trans: "replays M W submits q r \<Longrightarrow> replays M W submits p q \<Longrightarrow> replays M W submits p r"
  by (cases p; cases q; cases r) (simp add: replays_def, blast intro: threads_trans)

lemma replays_world: "workers c' = workers c \<Longrightarrow> replays M W submits (m, s, h, c) (m, s, h, c')"
  using idle_workers_cong [of c' c] by (intro replaysI) (auto simp: stands_def intro: threads_refl)

lemma replays_refl: "replays M W submits p p"
  by (cases p) (simp add: replays_world)

lemma replays_loops: "loops_run M (m, s, h) (m', s', h') \<Longrightarrow> replays M W submits (m, s, h, c) (m', s', h', c)"
  using threads_loops [of M _ m' s' h' W submits]
  by (intro replaysI) (fastforce simp: stands_def)

text \<open>A step that changes one worker.\<close>

lemma replays_worker:
  assumes "workers c a = Some w" and "workers c' = (workers c)(a \<mapsto> w')"
    and f: "\<And>x. thManager (f x) = thManager x" "\<And>x. thSend (f x) = thSend x" "\<And>x. thHealth (f x) = thHealth x"
    and run: "\<And>x. stands m s h c x \<Longrightarrow> thWorkers x a = Some (w, RIdle, UPass []) \<Longrightarrow>
      threads_run M W submits x ((f x)\<lparr>thWorkers := (thWorkers x)(a \<mapsto> (w', RIdle, UPass []))\<rparr>)"
  shows "replays M W submits (m, s, h, c) (m, s, h, c')"
proof (rule replaysI)
  fix x
  assume x: "stands m s h c x"
  then have "thWorkers x a = Some (w, RIdle, UPass [])"
    using idle_workers_Some [of c a w, OF assms(1)] by (simp add: stands_def)
  note r = run [OF x this]
  have "stands m s h c' ((f x)\<lparr>thWorkers := (thWorkers x)(a \<mapsto> (w', RIdle, UPass []))\<rparr>)"
    using x idle_workers_upd [OF assms(2)] by (simp add: stands_def f)
  with r show "\<exists>y. threads_run M W submits x y \<and> stands m s h c' y" by blast
qed

lemma replays_wloops:
  assumes "workers c a = Some w" and "wloops_run W (w, RIdle, UPass []) (w', RIdle, UPass [])"
    and "workers c' = (workers c)(a \<mapsto> w')"
  shows "replays M W submits (m, s, h, c) (m, s, h, c')"
  by (rule replays_worker [where f = "\<lambda>x. x", OF assms(1,3) refl refl refl threads_wloops [OF assms(2)]])

lemma replays_start:
  assumes "submits t" and "workers c a = Some w" and "workers c' = (workers c)(a \<mapsto> Worker_AddTask W t w)"
  shows "replays M W submits (m, s, h, c) (m, s, h, c')"
  by (rule replays_worker [where f = "\<lambda>x. x", OF assms(2,3) refl refl refl threads_one [OF th_wsubmit [where submits = submits and t = t, OF assms(1)]]])

lemma replays_stop:
  assumes "workers c a = Some w" and "LookupTask W i w = Some t"
    and "workers c' = (workers c)(a \<mapsto> Worker_AddTask W (t\<lparr>tState := Completed\<rparr>) w)"
  shows "replays M W submits (m, s, h, c) (m, s, h, c')"
  using assms(1,3)
proof (rule replays_worker [where f = "\<lambda>x. x\<lparr>thWstops := (thWstops x)(a := insert t (thWstops x a))\<rparr>"])
  fix x
  assume x: "stands m s h c x" "thWorkers x a = Some (w, RIdle, UPass [])"
  let ?y = "x\<lparr>thWstops := (thWstops x)(a := insert t (thWstops x a))\<rparr>"
  let ?w = "Worker_AddTask W (t\<lparr>tState := Completed\<rparr>) w"
  have "threads_step M W submits x ?y" by (rule th_wlookup [OF x(2) assms(2)])
  moreover have "threads_step M W submits ?y (?y\<lparr>thWorkers := (thWorkers ?y)(a \<mapsto> (?w, RIdle, UPass []))\<rparr>)"
    by (rule th_wstop) (use x in simp_all)
  ultimately have "threads_run M W submits x (?y\<lparr>thWorkers := (thWorkers ?y)(a \<mapsto> (?w, RIdle, UPass []))\<rparr>)"
    by (blast intro: threads_snoc threads_one)
  then show "threads_run M W submits x (?y\<lparr>thWorkers := (thWorkers x)(a \<mapsto> (?w, RIdle, UPass []))\<rparr>)" by simp
qed simp_all

lemma replays_sent:
  assumes "workers c (nAPI n) = Some w" and "workers c' = (workers c)(nAPI n \<mapsto> Worker_AddTask W (teTask te) w)"
  shows "replays M W submits (m, SSending te n, h, c) (m, SSending te n, h, c')"
  by (rule replays_worker [where f = "\<lambda>x. x", OF assms refl refl refl threads_one [OF th_sent]]) (simp_all add: stands_def)

lemma replays_resent:
  assumes "workerAddress wn m = Some a" and "workers c a = Some w"
    and "workers c' = (workers c)(a \<mapsto> Worker_AddTask W t w)"
  shows "replays M W submits (m, s, HSend t wn ts, c) (m, s, HSend t wn ts, c')"
  by (rule replays_worker [where f = "\<lambda>x. x", OF assms(2,3) refl refl refl threads_one [OF th_resent]])
    (use assms(1) in \<open>simp_all add: stands_def\<close>)

text \<open>A step that changes the manager outside its loops.\<close>

lemma replays_submit:
  "submits (teTask te) \<Longrightarrow> replays M W submits (m, s, h, c) (Manager_AddTask M te m, s, h, c)"
  by (rule replaysI) (auto simp: stands_def intro!: exI threads_one th_submit)

lemma replays_mstop:
  assumes "Manager_LookupTask M i m = Some t" and "teTask te = t\<lparr>tState := Completed\<rparr>"
  shows "replays M W submits (m, s, h, c) (Manager_AddTask M te m, s, h, c)"
proof (rule replaysI)
  fix x
  assume x: "stands m s h c x"
  let ?y = "x\<lparr>thStops := insert t (thStops x)\<rparr>"
  let ?z = "?y\<lparr>thManager := Manager_AddTask M te (thManager ?y)\<rparr>"
  have "threads_step M W submits x ?y" using x assms(1) by (intro th_lookup) (simp add: stands_def)
  moreover have "threads_step M W submits ?y ?z" using assms(2) by (intro th_stop [of t]) simp_all
  ultimately have "threads_run M W submits x ?z" by (blast intro: threads_snoc threads_one)
  moreover have "stands (Manager_AddTask M te m) s h c ?z" using x by (simp add: stands_def)
  ultimately show "\<exists>y. threads_run M W submits x y \<and> stands (Manager_AddTask M te m) s h c y" by blast
qed

lemma replays_reports:
  assumes "workers c a = Some w" and "Worker_GetTasks W w = Inr ts"
  shows "replays M W submits (m, s, h, c) (apply_reports M ts m, s, h, c)"
proof (rule replaysI)
  fix x
  assume x: "stands m s h c x"
  let ?y = "x\<lparr>thReports := thReports x \<union> set ts\<rparr>"
  have w: "thWorkers x a = Some (w, RIdle, UPass [])"
    using x idle_workers_Some [of c a w, OF assms(1)] by (simp add: stands_def)
  have reports: "threads_run M W submits z (z\<lparr>thManager := apply_reports M us (thManager z)\<rparr>)" if "set us \<subseteq> thReports z" for us z
    using that
  proof (induction us arbitrary: z)
    case (Cons t us)
    let ?z = "z\<lparr>thManager := snd (applyWorkerReport M t (thManager z))\<rparr>"
    have "threads_run M W submits ?z (?z\<lparr>thManager := apply_reports M us (thManager ?z)\<rparr>)"
      using Cons.prems by (intro Cons.IH) simp
    then show ?case using threads_trans [OF _ threads_one [OF th_report [of t z]]] Cons.prems by simp
  qed (simp add: threads_refl)
  have "threads_run M W submits x (?y\<lparr>thManager := apply_reports M ts (thManager ?y)\<rparr>)"
    using threads_trans [OF reports threads_one [OF th_fetch [OF w assms(2)]]] by simp
  moreover have "stands (apply_reports M ts m) s h c (?y\<lparr>thManager := apply_reports M ts (thManager ?y)\<rparr>)"
    using x by (simp add: stands_def)
  ultimately show "\<exists>y. threads_run M W submits x y \<and> stands (apply_reports M ts m) s h c y" by blast
qed

section \<open>The manager's operations\<close>

context system
begin

lemma post_effect:
  assumes a: "a \<in> addrs" and p: "postTaskEvent M op wn a te c = (r, c')"
  shows "c' = c \<or> (\<exists>w. workers c a = Some w \<and> c' = c\<lparr>workers := (workers c)(a \<mapsto> Worker_AddTask W (teTask te) w)\<rparr>)"
proof (cases "encode_TaskEvent (me_codec M) te")
  case (Inl e)
  then show ?thesis using p by (simp add: postTaskEvent_def)
next
  case (Inr request)
  show ?thesis
  proof (cases "workers c a")
    case None
    then show ?thesis using a p Inr by (simp add: postTaskEvent_def client deliver_def urls)
  next
    case (Some w)
    then show ?thesis using post_reaches [OF a Some Inr, of op wn] p by simp
  qed
qed

lemma stopTask_effect:
  assumes "Manager_stopTask M wn i m c = (m', c')"
  shows "c' = c \<or> (\<exists>reply url. deliver chi net enc W ''DELETE'' url '''' c = (reply, c'))"
  using assms by (auto simp: Manager_stopTask_def Let_def client split: sum.splits option.splits prod.splits if_splits)

lemma posted_replays:
  assumes a: "a \<in> addrs" and p: "postTaskEvent M op wn a te c = (r, c')"
    and sent: "\<And>w. workers c a = Some w \<Longrightarrow> workers c' = (workers c)(a \<mapsto> Worker_AddTask W (teTask te) w) \<Longrightarrow>
      replays M W submits (m, s, h, c) (m, s, h, c')"
  shows "replays M W submits (m, s, h, c) (m, s, h, c')"
  using post_effect [OF a p]
proof (elim disjE exE conjE)
  assume "c' = c"
  then show ?thesis by (simp add: replays_refl)
next
  fix w
  assume "workers c a = Some w" and c': "c' = c\<lparr>workers := (workers c)(a \<mapsto> Worker_AddTask W (teTask te) w)\<rparr>"
  then show ?thesis by (intro sent) (simp_all add: c')
qed

lemma delivered_replays:
  assumes "deliver chi net enc W meth url request c = (reply, c')"
    and "\<And>te. we_decode_TaskEvent W request = Inr te \<Longrightarrow> meth = ''POST'' \<Longrightarrow> submits (teTask te)"
  shows "replays M W submits (m, s, h, c) (m, s, h, c')"
  using assms(1)
proof (cases rule: deliver_cases)
  case same
  then show ?thesis by (simp add: replays_refl)
next
  case (start te a w)
  have s: "submits (teTask te)" by (rule assms(2) [OF start(2,1)])
  show ?thesis by (rule replays_start [where submits = submits and t = "teTask te", OF s start(3)]) (simp add: start(4))
next
  case (stop i t a w)
  show ?thesis by (rule replays_stop [OF stop(2,3)]) (simp add: stop(4))
qed

lemma SendWork_replays:
  assumes nodes: "\<forall>n \<in> set (mWorkerNodes m). nAPI n \<in> addrs" and send: "SendWork M m c = Inr (m', c')"
  shows "replays M W submits (m, SIdle, h, c) (m', SIdle, h, c')"
proof -
  have l: "replays M W submits (m, SIdle, h, v) (m', SIdle, h, v)" for v
    by (rule replays_loops [OF SendWork_loops [OF send]])
  show ?thesis
    using send
  proof (cases rule: SendWork_cases)
    case idle
    then show ?thesis using l by simp
  next
    case (stop te m0 wn p)
    have "replays M W submits (m, SIdle, h, c) (m, SIdle, h, c')"
      using stopTask_effect [OF stop(5)]
    proof (elim disjE exE)
      fix reply url
      assume "deliver chi net enc W ''DELETE'' url '''' c = (reply, c')"
      then show ?thesis by (rule delivered_replays) simp
    qed (simp add: replays_refl)
    then show ?thesis by (rule replays_trans [OF l])
  next
    case ignored
    then show ?thesis using l by simp
  next
    case (unplaced te m0 e)
    then show ?thesis
      using replays_trans [OF l replays_world] SelectWorker_view [OF scoring unplaced(3)] by blast
  next
    case (sent te m0 n m1 w1 r)
    let ?m = "assignTask M (nName n) te m1"
    have n: "nAPI n \<in> addrs"
      using SelectWorker_outcome(2) [OF sent(3)] nodes nextPendingEvent_frame(4) [OF sent(1)] by simp
    have "replays M W submits (m, SIdle, h, c) (?m, SSending te n, h, c)"
      by (rule replays_loops [OF SendWork_sending [OF sent(1-3)]])
    moreover have "replays M W submits (?m, SSending te n, h, c) (?m, SSending te n, h, w1)"
      by (rule replays_world [OF SelectWorker_view [OF scoring sent(3)]])
    moreover have "replays M W submits (?m, SSending te n, h, w1) (?m, SSending te n, h, c')"
      by (rule posted_replays [OF n sent(4)]) (rule replays_sent)
    moreover have "replays M W submits (?m, SSending te n, h, c') (m', SIdle, h, c')"
      using finish_send_loops [OF sent(4)] unfolding sent(5) by (rule replays_loops)
    ultimately show ?thesis by (blast intro: replays_trans)
  qed
qed

end

context system_flow
begin

lemma restartTask_replays:
  assumes m: "manager_flows m" and r: "restartTask M t m c = (m', c')"
  shows "replays M W submits' (m, s, HRestart t ts, c) (m', s, HPass ts, c')"
proof (cases "\<exists>wn a t' m1. workerForTask (tID t) m = Some wn \<and> requireWorkerAddress ''manager.restartTask'' wn m = Inr a \<and>
    beginRestart M (tID t) m = (Some t', m1)")
  case False
  then show ?thesis using restartTask_quits [OF r] replays_loops by blast
next
  case True
  then obtain wn a t' m1 where *: "workerForTask (tID t) m = Some wn"
    "requireWorkerAddress ''manager.restartTask'' wn m = Inr a" "beginRestart M (tID t) m = (Some t', m1)" by blast
  obtain te w1 r' where te: "restart_event M t' c = (te, w1)" "teTask te = t'"
    "postTaskEvent M ''manager.restartTask'' wn a te w1 = (r', c')" "m' = m1 \<or> m' = enqueueEvent M te m1"
    using restartTask_sends [OF r *] by blast
  have addr: "workerAddress wn m = Some a" using *(2) by (auto simp: requireWorkerAddress_def split: option.splits)
  then have addr1: "workerAddress wn m1 = Some a"
    using man.beginRestart_effect(1) [OF flows_keyed [OF m] *(3)] by (auto simp: workerAddress_def)
  have a: "a \<in> addrs" by (rule address_flows [OF m addr])
  have w1: "workers w1 = workers c"
    using te(1) quiet(2) [of c] quiet(3) [of "snd (me_uuid_New M c)"]
    by (auto simp: restart_event_def Let_def split: prod.splits)
  have "replays M W submits' (m, s, HRestart t ts, c) (m1, s, HSend t' wn ts, c)"
    by (rule replays_loops [OF restart_sending [OF *]])
  moreover have "replays M W submits' (m1, s, HSend t' wn ts, c) (m1, s, HSend t' wn ts, w1)"
    by (rule replays_world [OF w1])
  moreover have "replays M W submits' (m1, s, HSend t' wn ts, w1) (m1, s, HSend t' wn ts, c')"
    using post_effect [OF a te(3)] te(2) replays_resent [OF addr1, of w1 _ c'] by (auto intro: replays_refl)
  moreover have "replays M W submits' (m1, s, HSend t' wn ts, c') (m', s, HPass ts, c')"
    using te(2,4) by (intro replays_loops restart_sent) blast
  ultimately show ?thesis by (blast intro: replays_trans)
qed

lemma healthChecks_loop_replays:
  assumes "manager_flows m" and "world_flows c" and "healthChecks_loop M ts m c = Inr (m', c')"
  shows "replays M W submits' (m, s, HPass ts, c) (m', s, HPass [], c')"
  using assms
proof (induction ts arbitrary: m c)
  case Nil
  then show ?case by (simp add: replays_refl)
next
  case (Cons t ts)
  have restart: ?case
    if "world_flows ca" "restartTask M t m ca = (m1, cb)" "healthChecks_loop M ts m1 cb = Inr (m', c')"
      "thread_step M (m, s, HPass (t # ts)) (m, s, HRestart t ts)" "workers ca = workers c" for m1 ca cb
  proof -
    note r = restartTask_flows [OF Cons.prems(1) that(1,2)]
    have "replays M W submits' (m, s, HPass (t # ts), c) (m, s, HRestart t ts, c)"
      by (rule replays_loops [OF loops_step [OF that(4)]])
    moreover have "replays M W submits' (m, s, HRestart t ts, c) (m, s, HRestart t ts, ca)"
      by (rule replays_world [OF that(5)])
    moreover have "replays M W submits' (m, s, HRestart t ts, ca) (m1, s, HPass ts, cb)"
      by (rule restartTask_replays [OF Cons.prems(1) that(2)])
    moreover have "replays M W submits' (m1, s, HPass ts, cb) (m', s, HPass [], c')"
      using r by (intro Cons.IH that(3)) simp_all
    ultimately show ?thesis by (blast intro: replays_trans)
  qed
  show ?case
  proof (cases "decideHealthAction t")
    case healthActionCheck
    then obtain r c1 where c: "checkTaskHealth M t m c = Inr (r, c1)"
      using Cons.prems(3) by (auto split: sum.splits)
    have w: "workers c1 = workers c" by (rule checkTaskHealth_view [OF c])
    then have c1: "world_flows c1" using Cons.prems(2) by (simp add: world_flows_def)
    show ?thesis
    proof (cases r)
      case None
      then have "healthChecks_loop M ts m c1 = Inr (m', c')" using Cons.prems(3) healthActionCheck c by simp
      note IH = Cons.IH [OF Cons.prems(1) c1 this]
      have "thread_step M (m, s, HPass (t # ts)) (m, s, HPass ts)"
        using c None by (intro th_healthy [OF healthActionCheck]) simp
      then show ?thesis
        by (intro replays_trans [OF IH replays_trans [OF replays_world [OF w] replays_loops [OF loops_step]]])
    next
      case (Some e)
      obtain m1 c2 where r: "restartTask M t m c1 = (m1, c2)" by fastforce
      have "healthChecks_loop M ts m1 c2 = Inr (m', c')" using Cons.prems(3) healthActionCheck c Some r by simp
      then show ?thesis using c Some w by (intro restart [OF c1 r] th_unhealthy [OF healthActionCheck]) simp_all
    qed
  next
    case healthActionRestart
    obtain m1 c1 where r: "restartTask M t m c = (m1, c1)" by fastforce
    have "healthChecks_loop M ts m1 c1 = Inr (m', c')" using Cons.prems(3) healthActionRestart r by simp
    then show ?thesis by (intro restart [OF Cons.prems(2) r] th_failed [OF healthActionRestart]) simp_all
  qed (use Cons in \<open>auto intro: replays_trans [OF _ replays_loops [OF loops_step [OF th_skip]]]\<close>)
qed

lemma updateTasksFromWorker_replays:
  assumes m: "manager_flows m" and c: "world_flows c" and u: "updateTasksFromWorker M wn m c = (m', c')"
  shows "replays M W submits' (m, s, h, c) (m', s, h, c')"
proof -
  have c': "c' = c" using updateTasksFromWorker_flows [OF m c u] by simp
  have "m' = m \<or> (\<exists>a w ts. workers c a = Some w \<and> Worker_GetTasks W w = Inr ts \<and> m' = apply_reports M ts m)"
  proof (cases "workerAddress wn m")
    case (Some a)
    have a: "a \<in> addrs" by (rule address_flows [OF m Some])
    show ?thesis
    proof (cases "workers c a")
      case w: (Some w)
      show ?thesis
      proof (cases "Worker_GetTasks W w")
        case (Inl e)
        then show ?thesis
          using u Some a w
          by (simp add: updateTasksFromWorker_def client deliver_def urls Worker_ServeHTTP_def chi
              Worker_GetTasksHandler_def response_def reply_defs status_defs)
      next
        case (Inr ts)
        then show ?thesis using update_reaches [OF Some a w Inr] u w by auto
      qed
    qed (use u Some a in \<open>simp add: updateTasksFromWorker_def client deliver_def urls\<close>)
  qed (use u in \<open>simp add: updateTasksFromWorker_def\<close>)
  then show ?thesis using c' replays_reports [of c _ _ W] by (auto intro: replays_refl)
qed

lemma update_goroutines_replays:
  "manager_flows m \<Longrightarrow> world_flows c \<Longrightarrow> update_goroutines M is m c = (m', c') \<Longrightarrow>
   replays M W submits' (m, s, h, c) (m', s, h, c')"
proof (induction "is" arbitrary: m c)
  case (Cons i "is")
  obtain m1 c1 where u: "updateTasksFromWorker M (nName (mWorkerNodes m ! i)) m c = (m1, c1)" by fastforce
  note f = updateTasksFromWorker_flows [OF Cons.prems(1,2) u]
  have "replays M W submits' (m1, s, h, c1) (m', s, h, c')"
    using Cons.prems u f by (intro Cons.IH) simp_all
  then show ?case by (rule replays_trans [OF _ updateTasksFromWorker_replays [OF Cons.prems(1,2) u]])
qed (simp add: replays_refl)

text \<open>The steps of the system.\<close>

lemma doHealthChecks_replays:
  assumes "manager_flows m" and "world_flows c" and "doHealthChecks M m c = Inr (m', c')"
  shows "replays M W submits' (m, s, HPass [], c) (m', s, HPass [], c')"
proof (cases "Manager_GetTasks M m")
  case (Inl e)
  then show ?thesis using assms(3) by (simp add: doHealthChecks_def replays_refl)
next
  case (Inr ts)
  then have "healthChecks_loop M ts m c = Inr (m', c')" using assms(3) by (simp add: doHealthChecks_def)
  then show ?thesis
    by (rule replays_trans [OF healthChecks_loop_replays [OF assms(1,2)] replays_loops [OF loops_step [OF th_start [OF Inr]]]])
qed

lemma Manager_StopTaskHandler_replays:
  assumes "Manager_StopTaskHandler M taskID m c = (reply, m', c')"
  shows "replays M W submits' (m, s, h, c) (m', s, h, c')"
proof (cases "taskID = ''''")
  case False
  show ?thesis
  proof (cases "me_uuid_Parse M taskID")
    case (Inr i)
    show ?thesis
    proof (cases "Manager_LookupTask M i m")
      case (Some t)
      let ?te = "\<lparr>teID = fst (me_uuid_New M c), teState = Completed, teTimestamp = fst (me_now M (snd (me_uuid_New M c))),
        teTask = t\<lparr>tState := Completed\<rparr>\<rparr>"
      have "m' = Manager_AddTask M ?te m" and c': "c' = snd (me_now M (snd (me_uuid_New M c)))"
        using assms False Inr Some by (simp_all add: Manager_StopTaskHandler_def Let_def split_beta)
      moreover have "replays M W submits' (m, s, h, c) (Manager_AddTask M ?te m, s, h, c)"
        by (rule replays_mstop [OF Some]) simp
      moreover have "replays M W submits' (Manager_AddTask M ?te m, s, h, c) (Manager_AddTask M ?te m, s, h, c')"
        by (rule replays_world) (simp add: c' quiet)
      ultimately show ?thesis by (metis replays_trans)
    qed (use assms False Inr in \<open>simp add: Manager_StopTaskHandler_def replays_refl\<close>)
  qed (use assms False in \<open>simp add: Manager_StopTaskHandler_def replays_refl\<close>)
qed (use assms in \<open>simp add: Manager_StopTaskHandler_def replays_refl\<close>)

lemma run_worker_replays: "replays M W submits' (m, s, h, c) (m, s, h, run_worker W a c)"
proof (cases "workers c a")
  case (Some w)
  obtain w' d where r: "RunTasks_round W w (outside c) = (w', d)" by fastforce
  then show ?thesis
    using Some by (intro replays_wloops [OF Some wrk.RunTasks_round_loops [OF r]]) (simp add: run_worker_def)
qed (simp add: run_worker_def replays_refl)

lemma update_worker_replays: "replays M W submits' (m, s, h, c) (m, s, h, update_worker W a c)"
proof (cases "workers c a")
  case (Some w)
  obtain w' d where r: "Worker_updateTasks W w (outside c) = (w', d)" by fastforce
  then show ?thesis
    using Some by (intro replays_wloops [OF Some wrk.Worker_updateTasks_loops [OF r]]) (simp add: update_worker_def)
qed (simp add: update_worker_def replays_refl)

lemma collect_worker_replays: "replays M W submits' (m, s, h, c) (m, s, h, collect_worker W pr a c)"
proof (cases "workers c a")
  case (Some w)
  then show ?thesis
    by (intro replays_wloops [OF Some wloops_step [OF tw_stats [where pr = pr]]]) (simp add: collect_worker_def)
qed (simp add: collect_worker_def replays_refl)

lemma other_step_replays:
  assumes m: "manager_flows m" and c: "world_flows c" and "other_step M W chi net enc submits (m, c) (m', c')"
  shows "replays M W submits (m, SIdle, HPass [], c) (m', SIdle, HPass [], c')"
  using assms(3)
proof (cases rule: other_step.cases)
  case (sys_start request reply)
  show ?thesis
  proof (cases "me_decode_TaskEvent M request")
    case (Inr te)
    then have "m' = Manager_AddTask M te m" using sys_start(2) by (simp add: Manager_StartTaskHandler_def)
    then show ?thesis using replays_submit [where submits = submits and te = te, OF sys_start(3) [OF Inr]] sys_start(1) by simp
  qed (use sys_start(1,2) in \<open>simp add: Manager_StartTaskHandler_def replays_refl\<close>)
next
  case (sys_stop taskID reply)
  then show ?thesis by (intro Manager_StopTaskHandler_replays)
next
  case sys_update
  then show ?thesis by (intro update_goroutines_replays [OF m c]) (simp add: Manager_updateTasks_def)
next
  case sys_health
  then show ?thesis by (rule doHealthChecks_replays [OF m c])
next
  case (sys_client meth url request reply)
  show ?thesis unfolding sys_client(1) by (rule delivered_replays [OF sys_client(2)]) (rule sys_client(3))
qed (simp_all add: run_worker_replays update_worker_replays collect_worker_replays replays_world)

lemma system_step_replays:
  assumes m: "manager_flows m" and c: "world_flows c" and "system_step M W chi net enc submits (m, c) (m', c')"
  shows "replays M W submits (m, SIdle, HPass [], c) (m', SIdle, HPass [], c')"
  using assms(3)
proof (cases rule: system_step.cases)
  case sys_send
  show ?thesis by (rule SendWork_replays [OF _ sys_send]) (use m in \<open>simp add: manager_flows_def\<close>)
next
  case sys_other
  then show ?thesis by (rule other_step_replays [OF m c])
qed

lemma system_run_replays:
  assumes "system_run M W chi net enc submits x y" and "manager_flows (fst x)" and "world_flows (snd x)"
  shows "replays M W submits (fst x, SIdle, HPass [], snd x) (fst y, SIdle, HPass [], snd y)"
  using assms
proof (induction rule: system_run.induct)
  case (sys_snoc x y z)
  note f = system_run_flows [OF sys_snoc.hyps(1) sys_snoc.prems]
  have "replays M W submits (fst y, SIdle, HPass [], snd y) (fst z, SIdle, HPass [], snd z)"
    using f sys_snoc.hyps(2) by (intro system_step_replays) simp_all
  then show ?case by (rule replays_trans [OF _ sys_snoc.IH [OF sys_snoc.prems]])
qed (simp add: replays_refl)

end

section \<open>Properties\<close>

text \<open>
  C13. The runs of the system that take a whole handler or round at a time, on which the other
  properties rest, are runs of the goroutines: whatever state the manager, its workers and their
  clients reach in such steps, the same manager and the same workers, with their loops between
  two rounds, are reached when goroutines take turns one critical section or request at a time.
\<close>

theorem system_runs_are_interleavings:
  assumes S: "system M held ok contents W wheld wok wcontents chi net enc addrs"
    and x: "system_start held ok wheld wok wcontents addrs M W x"
    and run: "system_run M W chi net enc submits x (m, c)"
  shows "\<exists>y. threads_run M W submits (threads_at x) y \<and> thManager y = m \<and> thSend y = SIdle \<and> thHealth y = HPass [] \<and>
    thWorkers y = (\<lambda>a. map_option (\<lambda>w. (w, RIdle, UPass [])) (workers c a))"
proof -
  let ?T = "\<lambda>_. True"
  have f: "system_flow M held ok contents W wheld wok wcontents chi net enc addrs submits ?T ?T ?T ?T ?T (\<lambda>_ _. True)"
    by (intro system_flowI S task_flow.intro) simp_all
  obtain m0 c0 where x0: "x = (m0, c0)" by (cases x)
  have "replays M W submits (m0, SIdle, HPass [], c0) (m, SIdle, HPass [], c)"
    using system_flow.system_run_replays [OF f run] system_flow.start_flows [OF f x [unfolded x0]] by (simp add: x0)
  moreover have "stands m0 SIdle (HPass []) c0 (threads_at x)"
    by (simp add: stands_def threads_at_def x0 idle_workers_def [abs_def])
  ultimately show ?thesis by (auto simp: replays_def stands_def idle_workers_def [abs_def])
qed

theorem system_runs_are_interleavings_witness:
  "let te = sample_event (sample_task Scheduled 0) in
   \<exists>m y. threads_run wire_menv wire_wenv (\<lambda>_. True) (threads_at (m, world_with [])) y \<and>
     mPending m = New (me_queue wire_menv) \<and> inner (mPending (thManager y)) = [te]"
proof -
  let ?te = "sample_event (sample_task Scheduled 0)"
  obtain m where new: "NewManager wire_menv [\<lparr>wmName = ''a'', wmAddress = ''http://h''\<rparr>] ''round-robin'' ''IN_MEMORY''
      (Inr (NewInMemory, NewInMemory)) = Inr m"
    and x: "system_start InMemory_held InMemory_ok InMemory_held InMemory_ok inner http_addrs wire_menv wire_wenv (m, world_with [])"
    using wire_start by blast
  have q: "mPending m = New (me_queue wire_menv)" using new by (auto simp: NewManager_def Let_def split: sum.splits)
  then have p: "inner (mPending (Manager_AddTask wire_menv ?te m)) = [?te]"
    by (simp add: Manager_AddTask_def enqueueEvent_def wire_menv_def list_collq_def New_def Enqueue_def)
  have run: "system_run wire_menv wire_wenv seg_chi http_net wire_enc (\<lambda>_. True) (m, world_with [])
      (Manager_AddTask wire_menv ?te m, world_with [])" by (rule wire_submits(1)) simp
  obtain y where "threads_run wire_menv wire_wenv (\<lambda>_. True) (threads_at (m, world_with [])) y"
    "inner (mPending (thManager y)) = [?te]"
    using system_runs_are_interleavings [OF wire_system x run] p by metis
  with q show ?thesis unfolding Let_def by blast
qed

end
