(* ===== verification/Orch_Persistent.thy ===== *)
theory Orch_Persistent
  imports Orch_Store
begin

text \<open>
  The persistent backend of package \<open>internal/store\<close> (\<open>persistent_store.go\<close>) and the
  choice of a backend (\<open>store.go\<close>).

  The third-party database bbolt is the parameter \<open>bolt\<close>, acting on a file system \<open>'f\<close>;
  a \<open>*bolt.DB\<close> is a number, as a pointer is. \<open>Update\<close> and \<open>View\<close> run a function in a
  transaction \<open>'t\<close>: an update is committed when the function returns nil and rolled back
  otherwise. The predicate \<open>bolt_contract\<close> states what bbolt documents, and \<open>json_roundtrip\<close>
  that what was marshalled unmarshals to the same value. Under them the backend keeps the
  contract of \<open>Orch_Store\<close>, so that what is proved of the manager over that contract holds
  with this backend too.
\<close>

section \<open>Parameters\<close>

record ('f, 't) bolt =
  bolt_Open :: "string \<Rightarrow> int \<Rightarrow> 'f \<Rightarrow> (go_error + nat) \<times> 'f"
  bolt_Close :: "nat \<Rightarrow> 'f \<Rightarrow> go_error option \<times> 'f"
  bolt_Begin :: "bool \<Rightarrow> nat \<Rightarrow> 'f \<Rightarrow> go_error + 't"
  bolt_Commit :: "nat \<Rightarrow> 't \<Rightarrow> 'f \<Rightarrow> go_error option \<times> 'f"
  tx_Bucket :: "string \<Rightarrow> 't \<Rightarrow> bool"
  tx_DeleteBucket :: "string \<Rightarrow> 't \<Rightarrow> go_error option \<times> 't"
  tx_CreateBucketIfNotExists :: "string \<Rightarrow> 't \<Rightarrow> go_error option \<times> 't"
  bucket_Put :: "string \<Rightarrow> string \<Rightarrow> string \<Rightarrow> 't \<Rightarrow> go_error option \<times> 't"
  bucket_Get :: "string \<Rightarrow> string \<Rightarrow> 't \<Rightarrow> string option"
  bucket_entries :: "string \<Rightarrow> 't \<Rightarrow> (string \<times> string) list"
  bucket_KeyN :: "string \<Rightarrow> 't \<Rightarrow> int"

definition ErrBucketNotFound :: go_error where
  "ErrBucketNotFound = Sentinel ''bucket not found''"

record 'a json =
  Marshal :: "'a \<Rightarrow> go_error + string"
  Unmarshal :: "string \<Rightarrow> go_error + 'a"

text \<open>The protocol of \<open>Db.Update\<close> and \<open>Db.View\<close>.\<close>

definition Db_Update ::
  "('f, 't) bolt \<Rightarrow> nat \<Rightarrow> ('t \<Rightarrow> panic + go_error option \<times> 't) \<Rightarrow> 'f \<Rightarrow> panic + go_error option \<times> 'f" where
  "Db_Update B db fn f =
     (case bolt_Begin B True db f of
        Inl e \<Rightarrow> Inr (Some e, f)
      | Inr tx \<Rightarrow>
          (case fn tx of
             Inl p \<Rightarrow> Inl p
           | Inr (Some e, tx') \<Rightarrow> Inr (Some e, f)
           | Inr (None, tx') \<Rightarrow> Inr (bolt_Commit B db tx' f)))"

definition Db_View ::
  "('f, 't) bolt \<Rightarrow> nat \<Rightarrow> ('t \<Rightarrow> panic + go_error + 'r) \<Rightarrow> 'f \<Rightarrow> panic + go_error + 'r" where
  "Db_View B db fn f = (case bolt_Begin B False db f of Inl e \<Rightarrow> Inr (Inl e) | Inr tx \<Rightarrow> fn tx)"

section \<open>The store\<close>

record PersistentStore =
  psDb :: nat
  psDbFile :: string
  psFileMode :: int
  psBucket :: string

definition CreateBucket ::
  "('f, 't) bolt \<Rightarrow> PersistentStore \<Rightarrow> bool \<Rightarrow> 'f \<Rightarrow> panic + go_error option \<times> 'f" where
  "CreateBucket B p freshStart f =
     (let op = ''store.PersistentStore.CreateBucket'';
          create = (\<lambda>tx. case tx_CreateBucketIfNotExists B (psBucket p) tx of
              (Some e, tx') \<Rightarrow> Inr (Some (store_E op (''unable to create bucket '' @ [CHR 0x27] @ psBucket p @ [CHR 0x27]) (Some e)), tx')
            | (None, tx') \<Rightarrow> Inr (None, tx'))
      in Db_Update B (psDb p)
           (\<lambda>tx. if freshStart then
                   (case tx_DeleteBucket B (psBucket p) tx of
                      (Some e, tx') \<Rightarrow>
                        (if \<not> errors_Is e ErrBucketNotFound
                         then Inr (Some (store_E op (''failed to delete bucket '' @ [CHR 0x27] @ psBucket p @ [CHR 0x27]) (Some e)), tx')
                         else create tx')
                    | (None, tx') \<Rightarrow> create tx')
                 else create tx) f)"

definition NewPersistentStore ::
  "('f, 't) bolt \<Rightarrow> string \<Rightarrow> int \<Rightarrow> string \<Rightarrow> bool \<Rightarrow> 'f \<Rightarrow> panic + (go_error + PersistentStore) \<times> 'f" where
  "NewPersistentStore B dbFile fileMode bucket freshStart f =
     (let op = ''store.PersistentStore.NewPersistentStore'' in
      if dbFile = '''' then Inr (Inl (store_E op (''must pass in '' @ [CHR 0x27] @ ''dbFile'' @ [CHR 0x27]) None), f)
      else if bucket = '''' then Inr (Inl (store_E op (''must pass in '' @ [CHR 0x27] @ ''bucket'' @ [CHR 0x27]) None), f)
      else
        (case bolt_Open B dbFile fileMode f of
           (Inl err, f1) \<Rightarrow> Inr (Inl (store_E op (''unable to open bbolt db file '' @ dbFile) (Some err)), f1)
         | (Inr db, f1) \<Rightarrow>
             (let p = \<lparr>psDb = db, psDbFile = dbFile, psFileMode = fileMode, psBucket = bucket\<rparr>
              in case CreateBucket B p freshStart f1 of
                   Inl x \<Rightarrow> Inl x
                 | Inr (Some err, f2) \<Rightarrow> Inr (Inl err, f2)
                 | Inr (None, f2) \<Rightarrow> Inr (Inr p, f2))))"

definition Persistent_Close :: "('f, 't) bolt \<Rightarrow> PersistentStore \<Rightarrow> 'f \<Rightarrow> go_error option \<times> 'f" where
  "Persistent_Close B p f =
     (case bolt_Close B (psDb p) f of
        (Some err, f') \<Rightarrow> (Some (store_E ''store.PersistentStore.Close'' ''unable to close db'' (Some err)), f')
      | (None, f') \<Rightarrow> (None, f'))"

text \<open>A nil bucket is dereferenced by the first call on it.\<close>

definition Persistent_Put ::
  "('f, 't) bolt \<Rightarrow> 'a json \<Rightarrow> PersistentStore \<Rightarrow> string \<Rightarrow> 'a \<Rightarrow> 'f \<Rightarrow> panic + go_error option \<times> 'f" where
  "Persistent_Put B J p key val f =
     (let op = ''store.PersistentStore.Put'' in
      Db_Update B (psDb p)
        (\<lambda>tx. case Marshal J val of
                Inl e \<Rightarrow> Inr (Some (store_E op (''unable to marshal value for key '' @ [CHR 0x27] @ key @ [CHR 0x27]) (Some e)), tx)
              | Inr buf \<Rightarrow>
                  (if \<not> tx_Bucket B (psBucket p) tx then Inl NilDereference
                   else
                     (case bucket_Put B (psBucket p) key buf tx of
                        (Some e, tx') \<Rightarrow>
                          Inr (Some (store_E op (''unable to put value for key '' @ [CHR 0x27] @ key @ [CHR 0x27]) (Some e)), tx')
                      | (None, tx') \<Rightarrow> Inr (None, tx')))) f)"

definition Persistent_Get ::
  "('f, 't) bolt \<Rightarrow> 'a json \<Rightarrow> PersistentStore \<Rightarrow> string \<Rightarrow> 'f \<Rightarrow> panic + go_error + 'a" where
  "Persistent_Get B J p key f =
     (let op = ''store.PersistentStore.Get'' in
      Db_View B (psDb p)
        (\<lambda>tx. if \<not> tx_Bucket B (psBucket p) tx then Inl NilDereference
              else
                (case bucket_Get B (psBucket p) key tx of
                   None \<Rightarrow>
                     Inr (Inl (store_E op (''unable to find value for key '' @ [CHR 0x27] @ key @ [CHR 0x27]) (Some ErrNotFound)))
                 | Some v \<Rightarrow>
                     (case Unmarshal J v of
                        Inl err \<Rightarrow>
                          Inr (Inl (store_E op (''unable to unmarshal value for key '' @ [CHR 0x27] @ key @ [CHR 0x27]) (Some err)))
                      | Inr t \<Rightarrow> Inr (Inr t)))) f)"

fun cursor_loop :: "'a json \<Rightarrow> (string \<times> string) list \<Rightarrow> 'a list \<Rightarrow> go_error + 'a list" where
  "cursor_loop J [] items = Inr items"
| "cursor_loop J ((k, v) # es) items =
     (case Unmarshal J v of
        Inl e \<Rightarrow> Inl (store_E ''store.PersistentStore.List'' (''unable to unmarshal value for key '' @ [CHR 0x27] @ k @ [CHR 0x27]) (Some e))
      | Inr t \<Rightarrow> cursor_loop J es (items @ [t]))"

definition Persistent_List ::
  "('f, 't) bolt \<Rightarrow> 'a json \<Rightarrow> PersistentStore \<Rightarrow> 'f \<Rightarrow> panic + go_error + 'a list" where
  "Persistent_List B J p f =
     Db_View B (psDb p)
       (\<lambda>tx. if \<not> tx_Bucket B (psBucket p) tx then Inl NilDereference
             else Inr (cursor_loop J (bucket_entries B (psBucket p) tx) [])) f"

definition Persistent_Count :: "('f, 't) bolt \<Rightarrow> PersistentStore \<Rightarrow> 'f \<Rightarrow> panic + go_error + int" where
  "Persistent_Count B p f =
     (case Db_View B (psDb p)
             (\<lambda>tx. if \<not> tx_Bucket B (psBucket p) tx then Inl NilDereference
                   else Inr (Inr (bucket_KeyN B (psBucket p) tx))) f of
        Inl x \<Rightarrow> Inl x
      | Inr (Inl err) \<Rightarrow> Inr (Inl (store_E ''store.PersistentStore.Count'' ''unable to count keys in db'' (Some err)))
      | Inr (Inr cnt) \<Rightarrow> Inr (Inr cnt))"

section \<open>Choosing a backend\<close>

definition InMemoryDb :: string where "InMemoryDb = ''IN_MEMORY''"
definition PersistentDb :: string where "PersistentDb = ''PERSISTENT''"

text \<open>The two stores of \<open>Dbs\<close>, with their backend.\<close>

datatype Dbs =
    InMemoryDbs "Task InMemory" "TaskEvent InMemory"
  | PersistentDbs PersistentStore PersistentStore

definition GetInMemoryDbs :: Dbs where
  "GetInMemoryDbs = InMemoryDbs NewInMemory NewInMemory"

definition GetPersistentDbs ::
  "('f, 't) bolt \<Rightarrow> string \<Rightarrow> bool \<Rightarrow> 'f \<Rightarrow> panic + (go_error + Dbs) \<times> 'f" where
  "GetPersistentDbs B i freshStart f =
     (let op = ''store.GetPersistentDbs'' in
      if i = '''' then Inr (Inl (store_E op ''must pass in id'' None), f)
      else
        (case NewPersistentStore B (i @ ''-tasks.db'') 384 ''tasks'' freshStart f of
           Inl x \<Rightarrow> Inl x
         | Inr (Inl err, f1) \<Rightarrow> Inr (Inl (store_Wrap op ''unable to build task store'' err), f1)
         | Inr (Inr tDb, f1) \<Rightarrow>
             (case NewPersistentStore B (i @ ''-events.db'') 384 ''events'' freshStart f1 of
                Inl x \<Rightarrow> Inl x
              | Inr (Inl err, f2) \<Rightarrow>
                  (let (_, f3) = Persistent_Close B tDb f2
                   in Inr (Inl (store_Wrap op ''unable to build task event store'' err), f3))
              | Inr (Inr tEventDb, f2) \<Rightarrow> Inr (Inr (PersistentDbs tDb tEventDb), f2))))"

definition GetDBs ::
  "('f, 't) bolt \<Rightarrow> string \<Rightarrow> string \<Rightarrow> bool \<Rightarrow> 'f \<Rightarrow> panic + (go_error + Dbs) \<times> 'f" where
  "GetDBs B dbType i freshStart f =
     (if dbType = InMemoryDb then Inr (Inr GetInMemoryDbs, f)
      else if dbType = PersistentDb then GetPersistentDbs B i freshStart f
      else Inr (Inl (store_E ''store.GetDBs'' (''unsupported db type '' @ go_quote dbType @ '': want '' @
             InMemoryDb @ '' or '' @ PersistentDb) None), f))"

section \<open>What is relied on\<close>

text \<open>
  \<open>content\<close> reads a transaction and \<open>disk\<close> a database file: for each bucket that exists,
  its keys and values. A transaction starts from what is on disk; a successful commit puts
  its content there and a failed one leaves the file as it was; the bucket operations are
  those of a map, and the cursor visits each key once. bbolt's errors are its own, so they do
  not match the sentinel of package \<open>store\<close>.
\<close>

locale bolt_contract =
  fixes B :: "('f, 't) bolt" and content :: "'t \<Rightarrow> string \<Rightarrow> (string \<rightharpoonup> string) option"
    and disk :: "nat \<Rightarrow> 'f \<Rightarrow> string \<Rightarrow> (string \<rightharpoonup> string) option"
  assumes Begin_content: "bolt_Begin B rw db f = Inr tx \<Longrightarrow> content tx = disk db f"
    and Begin_error: "bolt_Begin B rw db f = Inl e \<Longrightarrow> \<not> errors_Is e ErrNotFound"
    and Commit_done: "bolt_Commit B db tx f = (None, f') \<Longrightarrow> disk db f' = content tx"
    and Commit_failed: "bolt_Commit B db tx f = (Some e, f') \<Longrightarrow> disk db f' = disk db f"
    and Bucket_iff: "tx_Bucket B b tx \<longleftrightarrow> content tx b \<noteq> None"
    and Delete_done: "tx_DeleteBucket B b tx = (None, tx') \<Longrightarrow> content tx' = (content tx)(b := None)"
    and Delete_failed: "tx_DeleteBucket B b tx = (Some e, tx') \<Longrightarrow>
          content tx' = content tx \<and> (errors_Is e ErrBucketNotFound \<longrightarrow> content tx b = None)"
    and Create_done: "tx_CreateBucketIfNotExists B b tx = (None, tx') \<Longrightarrow>
          content tx' = (content tx)(b := Some (case content tx b of None \<Rightarrow> Map.empty | Some m \<Rightarrow> m))"
    and Put_content: "content tx b = Some m \<Longrightarrow> bucket_Put B b k v tx = (None, tx') \<Longrightarrow>
          content tx' = (content tx)(b \<mapsto> m(k \<mapsto> v))"
    and Get_content: "content tx b = Some m \<Longrightarrow> bucket_Get B b k tx = m k"
    and entries_content: "content tx b = Some m \<Longrightarrow>
          distinct (map fst (bucket_entries B b tx)) \<and> map_of (bucket_entries B b tx) = m"
    and KeyN_content: "content tx b = Some m \<Longrightarrow> bucket_KeyN B b tx = int (card (dom m))"

definition json_roundtrip :: "'a json \<Rightarrow> bool" where
  "json_roundtrip J \<longleftrightarrow> (\<forall>v s. Marshal J v = Inr s \<longrightarrow> Unmarshal J s = Inr v)"

section \<open>The contract of the store\<close>

text \<open>What a store holds, read off its file, and when it can be used.\<close>

definition Persistent_held ::
  "(nat \<Rightarrow> 'f \<Rightarrow> string \<Rightarrow> (string \<rightharpoonup> string) option) \<Rightarrow> 'a json \<Rightarrow> PersistentStore \<Rightarrow> 'f \<Rightarrow> string \<rightharpoonup> 'a" where
  "Persistent_held disk J p f k =
     (case disk (psDb p) f (psBucket p) of
        None \<Rightarrow> None
      | Some m \<Rightarrow>
          (case m k of
             None \<Rightarrow> None
           | Some s \<Rightarrow> (case Unmarshal J s of Inl e \<Rightarrow> None | Inr v \<Rightarrow> Some v)))"

definition Persistent_ok ::
  "(nat \<Rightarrow> 'f \<Rightarrow> string \<Rightarrow> (string \<rightharpoonup> string) option) \<Rightarrow> 'a json \<Rightarrow> PersistentStore \<Rightarrow> 'f \<Rightarrow> bool" where
  "Persistent_ok disk J p f \<longleftrightarrow>
     (\<exists>m. disk (psDb p) f (psBucket p) = Some m \<and> (\<forall>k s. m k = Some s \<longrightarrow> (\<exists>v. Unmarshal J s = Inr v)))"

text \<open>The interface value, for a store that does not panic.\<close>

definition Persistent_store :: "('f, 't) bolt \<Rightarrow> 'a json \<Rightarrow> PersistentStore \<Rightarrow> ('f, 'a) Store" where
  "Persistent_store B J p =
     \<lparr>Put = (\<lambda>k v f. case Persistent_Put B J p k v f of Inl x \<Rightarrow> (None, f) | Inr r \<Rightarrow> r),
      Get = (\<lambda>k f. case Persistent_Get B J p k f of Inl x \<Rightarrow> Inl (External '''') | Inr r \<Rightarrow> r),
      List = (\<lambda>f. case Persistent_List B J p f of Inl x \<Rightarrow> Inl (External '''') | Inr r \<Rightarrow> r),
      Count = (\<lambda>f. case Persistent_Count B p f of Inl x \<Rightarrow> Inl (External '''') | Inr r \<Rightarrow> r),
      Close = Persistent_Close B p\<rparr>"

lemma cursor_loop_items:
  assumes "\<And>e. e \<in> set es \<Longrightarrow> \<exists>v. Unmarshal J (snd e) = Inr v"
  shows "\<exists>vs. cursor_loop J es items = Inr (items @ vs) \<and> map (\<lambda>e. Unmarshal J (snd e)) es = map Inr vs"
  using assms
proof (induction es arbitrary: items)
  case (Cons e es)
  obtain v where v: "Unmarshal J (snd e) = Inr v" using Cons.prems [of e] by auto
  obtain vs where "cursor_loop J es (items @ [v]) = Inr ((items @ [v]) @ vs)"
    "map (\<lambda>e. Unmarshal J (snd e)) es = map Inr vs"
    using Cons.IH [of "items @ [v]"] Cons.prems by auto
  with v show ?case by (cases e) (auto intro: exI [of _ "v # vs"])
qed simp

locale bolt_store = bolt_contract B content disk
  for B :: "('f, 't) bolt" and content disk +
  fixes J :: "'a json"
  assumes json: "json_roundtrip J"
begin

lemma usable:
  assumes "Persistent_ok disk J p f" and "bolt_Begin B rw (psDb p) f = Inr tx"
  obtains m where "content tx (psBucket p) = Some m" "disk (psDb p) f (psBucket p) = Some m"
    "tx_Bucket B (psBucket p) tx" "\<And>k s. m k = Some s \<Longrightarrow> \<exists>v. Unmarshal J s = Inr v"
    "Persistent_held disk J p f = (\<lambda>k. case m k of None \<Rightarrow> None | Some s \<Rightarrow> Some (projr (Unmarshal J s)))"
proof -
  obtain m where m: "disk (psDb p) f (psBucket p) = Some m" "\<And>k s. m k = Some s \<Longrightarrow> \<exists>v. Unmarshal J s = Inr v"
    using assms(1) by (auto simp: Persistent_ok_def)
  then have c: "content tx (psBucket p) = Some m" using Begin_content [OF assms(2)] by simp
  have "Persistent_held disk J p f = (\<lambda>k. case m k of None \<Rightarrow> None | Some s \<Rightarrow> Some (projr (Unmarshal J s)))"
    using m by (fastforce simp: Persistent_held_def fun_eq_iff split: option.splits sum.splits)
  with that m c show thesis by (simp add: Bucket_iff)
qed

text \<open>Every outcome of a write.\<close>

lemma Put_outcome:
  assumes "Persistent_ok disk J p f"
  shows "\<exists>r f'. Persistent_Put B J p k v f = Inr (r, f') \<and> Persistent_ok disk J p f' \<and>
    Persistent_held disk J p f' = (if r = None then (Persistent_held disk J p f)(k \<mapsto> v) else Persistent_held disk J p f)"
proof (cases "bolt_Begin B True (psDb p) f")
  case (Inl e)
  then show ?thesis using assms by (simp add: Persistent_Put_def Db_Update_def)
next
  case (Inr tx)
  from usable [OF assms Inr] obtain m where m: "content tx (psBucket p) = Some m" "disk (psDb p) f (psBucket p) = Some m"
    "tx_Bucket B (psBucket p) tx" "\<And>k s. m k = Some s \<Longrightarrow> \<exists>v. Unmarshal J s = Inr v" by blast
  show ?thesis
  proof (cases "Marshal J v")
    case (Inl e)
    then show ?thesis using Inr assms by (simp add: Persistent_Put_def Db_Update_def)
  next
    case buf: (Inr buf)
    obtain e tx' where put: "bucket_Put B (psBucket p) k buf tx = (e, tx')" by fastforce
    show ?thesis
    proof (cases e)
      case (Some x)
      then show ?thesis using Inr buf put m(3) assms by (simp add: Persistent_Put_def Db_Update_def)
    next
      case None
      obtain r f' where com: "bolt_Commit B (psDb p) tx' f = (r, f')" by fastforce
      have P: "Persistent_Put B J p k v f = Inr (r, f')"
        using Inr buf put None com m(3) by (simp add: Persistent_Put_def Db_Update_def)
      show ?thesis
      proof (cases r)
        case (Some x)
        then have "disk (psDb p) f' = disk (psDb p) f" using Commit_failed com by blast
        with P Some assms show ?thesis by (simp add: Persistent_ok_def Persistent_held_def fun_eq_iff)
      next
        case ok: None
        have "content tx' = (content tx)(psBucket p \<mapsto> m(k \<mapsto> buf))"
          using Put_content [OF m(1)] put None by blast
        then have d: "disk (psDb p) f' (psBucket p) = Some (m(k \<mapsto> buf))"
          using Commit_done com ok by fastforce
        have u: "Unmarshal J buf = Inr v" using json buf by (simp add: json_roundtrip_def)
        have "Persistent_ok disk J p f'" using d u m(4) by (auto simp: Persistent_ok_def)
        moreover have "Persistent_held disk J p f' = (Persistent_held disk J p f)(k \<mapsto> v)"
          using d u m(2) by (auto simp: Persistent_held_def fun_eq_iff)
        ultimately show ?thesis using P ok by simp
      qed
    qed
  qed
qed

text \<open>A read answers when its transaction can begin, and is an error of bbolt's otherwise.\<close>

lemma Get_outcome:
  assumes "Persistent_ok disk J p f"
  shows "\<exists>r. Persistent_Get B J p k f = Inr r \<and>
    (case bolt_Begin B False (psDb p) f of
       Inr tx \<Rightarrow> answers r (Persistent_held disk J p f k)
     | Inl e \<Rightarrow> r = Inl e \<and> \<not> errors_Is e ErrNotFound)"
proof (cases "bolt_Begin B False (psDb p) f")
  case (Inl e)
  then show ?thesis using Begin_error by (simp add: Persistent_Get_def Db_View_def)
next
  case (Inr tx)
  from usable [OF assms Inr] obtain m where m: "content tx (psBucket p) = Some m"
    "tx_Bucket B (psBucket p) tx" "\<And>k s. m k = Some s \<Longrightarrow> \<exists>v. Unmarshal J s = Inr v"
    "Persistent_held disk J p f = (\<lambda>k. case m k of None \<Rightarrow> None | Some s \<Rightarrow> Some (projr (Unmarshal J s)))" by blast
  show ?thesis
  proof (cases "m k")
    case None
    then show ?thesis using Inr m Get_content [OF m(1), of k] by (simp add: Persistent_Get_def Db_View_def)
  next
    case (Some s)
    then obtain v where "Unmarshal J s = Inr v" using m(3) by blast
    with Some show ?thesis using Inr m Get_content [OF m(1), of k] by (simp add: Persistent_Get_def Db_View_def)
  qed
qed

lemma Get_answers:
  assumes "Persistent_ok disk J p f" and "bolt_Begin B False (psDb p) f = Inr tx"
  shows "\<exists>r. Persistent_Get B J p k f = Inr r \<and> answers r (Persistent_held disk J p f k)"
  using Get_outcome [OF assms(1), of k] assms(2) by simp

lemma List_outcome:
  assumes "Persistent_ok disk J p f"
  shows "\<exists>r. Persistent_List B J p f = Inr r \<and>
    (case r of Inl e \<Rightarrow> True
     | Inr xs \<Rightarrow> \<exists>ks. distinct ks \<and> set ks = dom (Persistent_held disk J p f) \<and>
                   map Some xs = map (Persistent_held disk J p f) ks)"
proof (cases "bolt_Begin B False (psDb p) f")
  case (Inl e)
  then show ?thesis by (simp add: Persistent_List_def Db_View_def)
next
  case (Inr tx)
  from usable [OF assms Inr] obtain m where m: "content tx (psBucket p) = Some m"
    "tx_Bucket B (psBucket p) tx" "\<And>k s. m k = Some s \<Longrightarrow> \<exists>v. Unmarshal J s = Inr v"
    "Persistent_held disk J p f = (\<lambda>k. case m k of None \<Rightarrow> None | Some s \<Rightarrow> Some (projr (Unmarshal J s)))" by blast
  define es where "es = bucket_entries B (psBucket p) tx"
  have es: "distinct (map fst es)" "map_of es = m" using entries_content [OF m(1)] by (simp_all add: es_def)
  have at: "m (fst e) = Some (snd e)" if "e \<in> set es" for e
    using es that by (metis map_of_is_SomeI prod.collapse)
  have "\<exists>v. Unmarshal J (snd e) = Inr v" if "e \<in> set es" for e using m(3) at [OF that] by blast
  from cursor_loop_items [of es J "[]", OF this]
  obtain vs where vs: "cursor_loop J es [] = Inr vs" "map (\<lambda>e. Unmarshal J (snd e)) es = map Inr vs" by auto
  have "vs = map (\<lambda>e. projr (Unmarshal J (snd e))) es"
    using arg_cong [OF vs(2), of "map projr"] by (simp add: comp_def)
  then have "map Some vs = map (Persistent_held disk J p f) (map fst es)" using at by (simp add: m(4))
  moreover have "set (map fst es) = dom (Persistent_held disk J p f)"
    using es(2) by (auto simp: m(4) dom_def dom_map_of_conv_image_fst [symmetric] split: option.splits)
  ultimately show ?thesis
    using es(1) vs(1) Inr m(2) by (auto simp: Persistent_List_def Db_View_def es_def intro!: exI [of _ "map fst es"])
qed

lemma Count_outcome:
  assumes "Persistent_ok disk J p f"
  shows "\<exists>r. Persistent_Count B p f = Inr r \<and>
    (case r of Inl e \<Rightarrow> True | Inr n \<Rightarrow> n = int (card (dom (Persistent_held disk J p f))))"
proof (cases "bolt_Begin B False (psDb p) f")
  case (Inl e)
  then show ?thesis by (simp add: Persistent_Count_def Db_View_def)
next
  case (Inr tx)
  from usable [OF assms Inr] obtain m where m: "content tx (psBucket p) = Some m"
    "tx_Bucket B (psBucket p) tx"
    "Persistent_held disk J p f = (\<lambda>k. case m k of None \<Rightarrow> None | Some s \<Rightarrow> Some (projr (Unmarshal J s)))" by blast
  have "dom (Persistent_held disk J p f) = dom m" by (auto simp: m(3) dom_def split: option.splits)
  with Inr m(2) KeyN_content [OF m(1)] show ?thesis by (simp add: Persistent_Count_def Db_View_def)
qed

lemma Persistent_store_contract:
  "store_contract (Persistent_store B J p) (Persistent_held disk J p) (Persistent_ok disk J p)"
proof unfold_locales
  fix f k v f'
  assume "Persistent_ok disk J p f" "Put (Persistent_store B J p) k v f = (None, f')"
  with Put_outcome [of p f k v] show "Persistent_ok disk J p f' \<and>
      Persistent_held disk J p f' = (Persistent_held disk J p f)(k \<mapsto> v)"
    by (auto simp: Persistent_store_def)
next
  fix f k v e f'
  assume "Persistent_ok disk J p f" "Put (Persistent_store B J p) k v f = (Some e, f')"
  with Put_outcome [of p f k v] show "Persistent_ok disk J p f' \<and> Persistent_held disk J p f' = Persistent_held disk J p f"
    by (auto simp: Persistent_store_def)
next
  fix f
  assume ok: "Persistent_ok disk J p f"
  let ?get = "\<lambda>k. Get (Persistent_store B J p) k f"
  show "(\<forall>k. answers (?get k) (Persistent_held disk J p f k)) \<or> (\<forall>k. \<exists>e. ?get k = Inl e \<and> \<not> errors_Is e ErrNotFound)"
  proof (cases "bolt_Begin B False (psDb p) f")
    case (Inl e)
    then have "\<exists>e. ?get k = Inl e \<and> \<not> errors_Is e ErrNotFound" for k
      using Get_outcome [OF ok, of k] by (auto simp: Persistent_store_def)
    then show ?thesis by blast
  next
    case (Inr tx)
    then have "answers (?get k) (Persistent_held disk J p f k)" for k
      using Get_answers [OF ok Inr, of k] by (auto simp: Persistent_store_def)
    then show ?thesis by blast
  qed
next
  fix f xs
  assume "Persistent_ok disk J p f" "List (Persistent_store B J p) f = Inr xs"
  with List_outcome [of p f] show "\<exists>ks. distinct ks \<and> set ks = dom (Persistent_held disk J p f) \<and>
      map Some xs = map (Persistent_held disk J p f) ks"
    by (auto simp: Persistent_store_def)
next
  fix f n
  assume "Persistent_ok disk J p f" "Count (Persistent_store B J p) f = Inr n"
  with Count_outcome [of p f] show "n = int (card (dom (Persistent_held disk J p f)))"
    by (auto simp: Persistent_store_def)
qed

text \<open>A fresh start leaves an empty bucket.\<close>

lemma CreateBucket_fresh:
  assumes "CreateBucket B p True f = Inr (None, f')"
  shows "disk (psDb p) f' (psBucket p) = Some Map.empty"
proof -
  obtain tx where tx: "bolt_Begin B True (psDb p) f = Inr tx"
    using assms by (auto simp: CreateBucket_def Db_Update_def Let_def split: sum.splits)
  obtain e tx1 where del: "tx_DeleteBucket B (psBucket p) tx = (e, tx1)" by fastforce
  have gone: "content tx1 (psBucket p) = None" if "e = None \<or> errors_Is (the e) ErrBucketNotFound"
    using that Delete_done [of "psBucket p" tx tx1] Delete_failed [of "psBucket p" tx "the e" tx1] del by (cases e) auto
  obtain c tx2 where cr: "tx_CreateBucketIfNotExists B (psBucket p) tx1 = (c, tx2)" by fastforce
  have "e = None \<or> errors_Is (the e) ErrBucketNotFound" "c = None" "bolt_Commit B (psDb p) tx2 f = (None, f')"
    using assms tx del cr
    by (auto simp: CreateBucket_def Db_Update_def Let_def split: option.splits if_splits)
  then show ?thesis
    using Create_done cr Commit_done gone by fastforce
qed

end

section \<open>A database that keeps the hypotheses\<close>

type_synonym db_file = "(string \<times> (string \<times> string) list) list"

definition file_content :: "db_file \<Rightarrow> string \<Rightarrow> (string \<rightharpoonup> string) option" where
  "file_content f b = map_option map_of (map_of f b)"

definition list_bolt :: "(db_file, db_file) bolt" where
  "list_bolt =
     \<lparr>bolt_Open = (\<lambda>name mode f. (Inr 0, f)), bolt_Close = (\<lambda>db f. (None, f)),
      bolt_Begin = (\<lambda>rw db f. Inr f), bolt_Commit = (\<lambda>db tx f. (None, tx)),
      tx_Bucket = (\<lambda>b tx. map_of tx b \<noteq> None),
      tx_DeleteBucket = (\<lambda>b tx. case map_of tx b of None \<Rightarrow> (Some ErrBucketNotFound, tx)
         | Some es \<Rightarrow> (None, filter (\<lambda>e. fst e \<noteq> b) tx)),
      tx_CreateBucketIfNotExists = (\<lambda>b tx. case map_of tx b of None \<Rightarrow> (None, (b, []) # tx) | Some es \<Rightarrow> (None, tx)),
      bucket_Put = (\<lambda>b k v tx. case map_of tx b of None \<Rightarrow> (None, tx) | Some es \<Rightarrow> (None, (b, (k, v) # es) # tx)),
      bucket_Get = (\<lambda>b k tx. case map_of tx b of None \<Rightarrow> None | Some es \<Rightarrow> map_of es k),
      bucket_entries = (\<lambda>b tx. case map_of tx b of None \<Rightarrow> [] | Some es \<Rightarrow> AList.clearjunk es),
      bucket_KeyN = (\<lambda>b tx. case map_of tx b of None \<Rightarrow> 0 | Some es \<Rightarrow> int (length (AList.clearjunk es)))\<rparr>"

definition string_json :: "string json" where
  "string_json = \<lparr>Marshal = Inr, Unmarshal = Inr\<rparr>"

lemma map_of_filter_key: "map_of (filter (\<lambda>e. fst e \<noteq> b) f) = (map_of f)(b := None)"
  by (induction f) (auto simp: fun_eq_iff)

lemma length_clearjunk: "length (AList.clearjunk es) = card (dom (map_of es))"
proof -
  have "card (dom (map_of (AList.clearjunk es))) = card (set (map fst (AList.clearjunk es)))"
    by (simp only: dom_map_of_conv_image_fst set_map)
  also have "\<dots> = length (map fst (AList.clearjunk es))" by (rule distinct_card) (rule distinct_clearjunk)
  finally show ?thesis by (simp add: map_of_clearjunk)
qed

lemma list_bolt_contract: "bolt_contract list_bolt file_content (\<lambda>db. file_content)"
proof unfold_locales
  show "bucket_KeyN list_bolt b tx = int (card (dom m))" if "file_content tx b = Some m" for tx b m
    using that by (auto simp: list_bolt_def file_content_def length_clearjunk)
  show "distinct (map fst (bucket_entries list_bolt b tx)) \<and> map_of (bucket_entries list_bolt b tx) = m"
    if "file_content tx b = Some m" for tx b m
    using that by (auto simp: list_bolt_def file_content_def map_of_clearjunk distinct_clearjunk)
qed (auto simp: list_bolt_def file_content_def fun_eq_iff map_of_filter_key ErrBucketNotFound_def split: option.splits)

interpretation pb: bolt_store list_bolt file_content "\<lambda>db. file_content" string_json
  by (rule bolt_store.intro [OF list_bolt_contract])
    (simp add: bolt_store_axioms_def json_roundtrip_def string_json_def)

interpretation ps: store_contract "Persistent_store list_bolt string_json p"
  "Persistent_held (\<lambda>db. file_content) string_json p" "Persistent_ok (\<lambda>db. file_content) string_json p"
  by (rule pb.Persistent_store_contract)

section \<open>Properties\<close>

text \<open>
  C20. The persistent backend keeps the contract of the \<open>Store\<close> interface, for every bbolt that
  does what it documents: a write that reports success is held, a write that reports an error
  changed nothing, and \<open>List\<close> and \<open>Count\<close> agree with the keys. Whenever bbolt lets a read
  transaction begin, \<open>Get\<close> answers: the value that is held, so the last one written, and
  \<open>ErrNotFound\<close> for a missing key. On a store whose bucket exists no operation panics, and a store
  opened with a fresh start has its bucket and is empty.
\<close>

theorem Persistent_store_correct:
  assumes "bolt_store B content disk J"
  shows "store_contract (Persistent_store B J p) (Persistent_held disk J p) (Persistent_ok disk J p) \<and>
    (\<forall>f k tx. Persistent_ok disk J p f \<longrightarrow> bolt_Begin B False (psDb p) f = Inr tx \<longrightarrow>
       (case Persistent_held disk J p f k of
          Some v \<Rightarrow> Persistent_Get B J p k f = Inr (Inr v)
        | None \<Rightarrow> \<exists>e. Persistent_Get B J p k f = Inr (Inl e) \<and> errors_Is e ErrNotFound)) \<and>
    (\<forall>f k v f' tx. Persistent_ok disk J p f \<longrightarrow> Persistent_Put B J p k v f = Inr (None, f') \<longrightarrow>
       bolt_Begin B False (psDb p) f' = Inr tx \<longrightarrow> Persistent_Get B J p k f' = Inr (Inr v)) \<and>
    (\<forall>f k v. Persistent_ok disk J p f \<longrightarrow>
       (\<exists>r. Persistent_Put B J p k v f = Inr r) \<and> (\<exists>r. Persistent_Get B J p k f = Inr r) \<and>
       (\<exists>r. Persistent_List B J p f = Inr r) \<and> (\<exists>r. Persistent_Count B p f = Inr r)) \<and>
    (\<forall>dbFile fileMode bucket f p' f'. NewPersistentStore B dbFile fileMode bucket True f = Inr (Inr p', f') \<longrightarrow>
       psBucket p' = bucket \<and> Persistent_ok disk J p' f' \<and> Persistent_held disk J p' f' = Map.empty)"
proof (intro conjI allI impI)
  fix f k tx
  assume "Persistent_ok disk J p f" "bolt_Begin B False (psDb p) f = Inr tx"
  from bolt_store.Get_answers [OF assms this, of k]
  show "case Persistent_held disk J p f k of
          Some v \<Rightarrow> Persistent_Get B J p k f = Inr (Inr v)
        | None \<Rightarrow> \<exists>e. Persistent_Get B J p k f = Inr (Inl e) \<and> errors_Is e ErrNotFound"
    by (auto simp: answers_def split: option.splits)
next
  fix f k v f' tx
  assume ok: "Persistent_ok disk J p f" and put: "Persistent_Put B J p k v f = Inr (None, f')"
    and tx: "bolt_Begin B False (psDb p) f' = Inr tx"
  have "Persistent_ok disk J p f'" "Persistent_held disk J p f' k = Some v"
    using bolt_store.Put_outcome [OF assms ok, of k v] put by auto
  with bolt_store.Get_answers [OF assms _ tx, of k] show "Persistent_Get B J p k f' = Inr (Inr v)"
    by (auto simp: answers_def)
next
  fix f k v
  assume ok: "Persistent_ok disk J p f"
  show "\<exists>r. Persistent_Put B J p k v f = Inr r" using bolt_store.Put_outcome [OF assms ok] by blast
  show "\<exists>r. Persistent_Get B J p k f = Inr r" using bolt_store.Get_outcome [OF assms ok] by blast
  show "\<exists>r. Persistent_List B J p f = Inr r" using bolt_store.List_outcome [OF assms ok] by blast
  show "\<exists>r. Persistent_Count B p f = Inr r" using bolt_store.Count_outcome [OF assms ok] by blast
next
  fix dbFile fileMode bucket f p' f'
  assume new: "NewPersistentStore B dbFile fileMode bucket True f = Inr (Inr p', f')"
  then obtain f1 where "CreateBucket B p' True f1 = Inr (None, f')" and b: "psBucket p' = bucket"
    by (auto simp: NewPersistentStore_def Let_def split: if_splits prod.splits sum.splits option.splits)
  then have "disk (psDb p') f' (psBucket p') = Some Map.empty"
    using bolt_store.CreateBucket_fresh [OF assms] by blast
  then show "Persistent_ok disk J p' f'" "Persistent_held disk J p' f' = Map.empty"
    by (simp add: Persistent_ok_def, intro ext, simp add: Persistent_held_def)
  show "psBucket p' = bucket" by (rule b)
qed (rule bolt_store.Persistent_store_contract [OF assms])

text \<open>An old key is gone after a fresh start and its \<open>Get\<close> says so; a new one is read back.\<close>

theorem Persistent_store_correct_witness:
  "\<exists>p' f' f2 e. NewPersistentStore list_bolt ''a.db'' 384 ''tasks'' True [(''tasks'', [(''k'', ''old'')])] = Inr (Inr p', f') \<and>
     Persistent_Get list_bolt string_json p' ''k'' f' = Inr (Inl e) \<and> errors_Is e ErrNotFound \<and>
     Persistent_Put list_bolt string_json p' ''k'' ''v'' f' = Inr (None, f2) \<and>
     Persistent_Get list_bolt string_json p' ''k'' f2 = Inr (Inr ''v'')"
proof -
  have b: "bolt_store list_bolt file_content (\<lambda>db. file_content) string_json"
    by (rule pb.bolt_store_axioms)
  let ?p = "\<lparr>psDb = 0, psDbFile = ''a.db'', psFileMode = 384, psBucket = ''tasks''\<rparr>" and ?f = "[(''tasks'', [])]"
  have new: "NewPersistentStore list_bolt ''a.db'' 384 ''tasks'' True [(''tasks'', [(''k'', ''old'')])] = Inr (Inr ?p, ?f)"
    by (simp add: NewPersistentStore_def CreateBucket_def Db_Update_def list_bolt_def Let_def)
  have tx: "bolt_Begin list_bolt False db f = Inr f" for db f by (simp add: list_bolt_def)
  obtain f2 where put: "Persistent_Put list_bolt string_json ?p ''k'' ''v'' ?f = Inr (None, f2)"
    by (simp add: Persistent_Put_def Db_Update_def list_bolt_def string_json_def)
  note C = Persistent_store_correct [OF b, of ?p]
  have e: "Persistent_ok (\<lambda>db. file_content) string_json ?p ?f" "Persistent_held (\<lambda>db. file_content) string_json ?p ?f = Map.empty"
    using C [THEN conjunct2, THEN conjunct2, THEN conjunct2, THEN conjunct2] new by blast+
  have "\<exists>e. Persistent_Get list_bolt string_json ?p ''k'' ?f = Inr (Inl e) \<and> errors_Is e ErrNotFound"
    using C [THEN conjunct2, THEN conjunct1, THEN spec, THEN spec, THEN spec, THEN mp, THEN mp, OF e(1) tx, of "''k''"] e(2) by simp
  moreover have "Persistent_Get list_bolt string_json ?p ''k'' f2 = Inr (Inr ''v'')"
    using C [THEN conjunct2, THEN conjunct2, THEN conjunct1] e(1) put tx by blast
  ultimately show ?thesis using new put by blast
qed

end
