(* ===== verification/Orch_Restart.thy ===== *)
theory Orch_Restart
  imports Orch_Worker_Loops Orch_Persistent Orch_Wire "HOL-Library.Countable"
begin

text \<open>
  What survives a restart of a process: the stores that \<open>NewWorker\<close> and \<open>NewManager\<close> open, what
  they hold when the same files are opened again, and which database handles are left open when
  opening fails.

  Beyond what a transaction does (\<open>bolt_contract\<close>), this relies on bbolt keeping one file per
  name: \<open>files\<close> reads the buckets of a file by name, \<open>handle_name\<close> the file a handle was opened
  on, and \<open>handles\<close> are the handles that hold the lock of their file.
\<close>

section \<open>The stores a process opens\<close>

text \<open>The calls of \<open>store.GetDBs\<close>: a worker is given its \<open>--fresh-start\<close> flag, the manager none.\<close>

definition NewWorker_dbs ::
  "('f, 't) bolt \<Rightarrow> string \<Rightarrow> string \<Rightarrow> bool \<Rightarrow> 'f \<Rightarrow> panic + (go_error + Dbs) \<times> 'f" where
  "NewWorker_dbs B dbType name freshStart f = GetDBs B dbType name freshStart f"

definition NewManager_dbs :: "('f, 't) bolt \<Rightarrow> string \<Rightarrow> 'f \<Rightarrow> panic + (go_error + Dbs) \<times> 'f" where
  "NewManager_dbs B dbType f = GetDBs B dbType ''manager'' True f"

section \<open>Files by name\<close>

definition file_held ::
  "(string \<Rightarrow> 'f \<Rightarrow> string \<Rightarrow> (string \<rightharpoonup> string) option) \<Rightarrow> 'a json \<Rightarrow> string \<Rightarrow> string \<Rightarrow> 'f \<Rightarrow> string \<rightharpoonup> 'a" where
  "file_held files J name bucket f k =
     (case files name f bucket of
        None \<Rightarrow> None
      | Some m \<Rightarrow> (case m k of None \<Rightarrow> None | Some s \<Rightarrow> (case Unmarshal J s of Inl e \<Rightarrow> None | Inr v \<Rightarrow> Some v)))"

locale bolt_files = bolt_store B content disk J
  for B :: "('f, 't) bolt" and content disk and J :: "'a json" +
  fixes files :: "string \<Rightarrow> 'f \<Rightarrow> string \<Rightarrow> (string \<rightharpoonup> string) option"
    and handle_name :: "nat \<Rightarrow> string" and handles :: "'f \<Rightarrow> nat set"
  assumes disk_file: "disk db f = files (handle_name db) f"
    and Open_done: "bolt_Open B name mode f = (Inr db, f') \<Longrightarrow>
          handle_name db = name \<and> db \<notin> handles f \<and> handles f' = insert db (handles f) \<and> (\<forall>n. files n f' = files n f)"
    and Open_failed: "bolt_Open B name mode f = (Inl e, f') \<Longrightarrow> handles f' = handles f \<and> (\<forall>n. files n f' = files n f)"
    and Close_effect: "bolt_Close B db f = (r, f') \<Longrightarrow>
          (r = None \<longrightarrow> handles f' = handles f - {db}) \<and> (\<forall>n. files n f' = files n f)"
    and Commit_own: "bolt_Commit B db tx f = (r, f') \<Longrightarrow>
          handles f' = handles f \<and> (\<forall>n. n \<noteq> handle_name db \<longrightarrow> files n f' = files n f)"
begin

lemma Update_own:
  assumes "Db_Update B db fn f = Inr (r, f')"
  shows "handles f' = handles f" "n \<noteq> handle_name db \<Longrightarrow> files n f' = files n f"
proof -
  consider "f' = f" | tx r' where "bolt_Commit B db tx f = (r', f')"
    using assms by (auto simp: Db_Update_def split: sum.splits prod.splits option.splits)
  then have "handles f' = handles f \<and> (\<forall>n. n \<noteq> handle_name db \<longrightarrow> files n f' = files n f)"
    using Commit_own by cases blast+
  then show "handles f' = handles f" "n \<noteq> handle_name db \<Longrightarrow> files n f' = files n f" by blast+
qed

text \<open>Opening the bucket of an old file keeps its entries, unless the start is fresh.\<close>

lemma CreateBucket_kept:
  assumes "CreateBucket B p False f = Inr (None, f')"
  shows "disk (psDb p) f' (psBucket p) =
    Some (case disk (psDb p) f (psBucket p) of None \<Rightarrow> Map.empty | Some m \<Rightarrow> m)"
proof -
  obtain tx where tx: "bolt_Begin B True (psDb p) f = Inr tx"
    using assms by (auto simp: CreateBucket_def Db_Update_def Let_def split: sum.splits)
  obtain c tx2 where cr: "tx_CreateBucketIfNotExists B (psBucket p) tx = (c, tx2)" by fastforce
  have "c = None" "bolt_Commit B (psDb p) tx2 f = (None, f')"
    using assms tx cr by (auto simp: CreateBucket_def Db_Update_def Let_def split: option.splits)
  then show ?thesis
    using Create_done [of "psBucket p" tx tx2] cr Commit_done [of "psDb p" tx2 f f'] Begin_content [OF tx] by simp
qed

lemma CreateBucket_held:
  assumes "CreateBucket B p freshStart f = Inr (None, f')"
  shows "Persistent_held disk J p f' = (if freshStart then Map.empty else Persistent_held disk J p f)"
  using CreateBucket_fresh [of p f f'] CreateBucket_kept [of p f f'] assms
  by (cases freshStart; intro ext) (auto simp: Persistent_held_def split: option.splits)

lemma CreateBucket_own:
  assumes "CreateBucket B p freshStart f = Inr (r, f')"
  shows "handles f' = handles f" "n \<noteq> handle_name (psDb p) \<Longrightarrow> files n f' = files n f"
  using assms Update_own unfolding CreateBucket_def Let_def by blast+

lemma held_file: "Persistent_held disk J p f = file_held files J (handle_name (psDb p)) (psBucket p) f"
  by (intro ext) (simp add: Persistent_held_def file_held_def disk_file)

lemma file_held_cong: "files n f' = files n f \<Longrightarrow> file_held files J n b f' = file_held files J n b f"
  by (intro ext) (simp add: file_held_def)

text \<open>Every outcome of opening a store.\<close>

lemma NewPersistentStore_opened:
  assumes "NewPersistentStore B dbFile fileMode bucket freshStart f = Inr (Inr p, f')"
  shows "handle_name (psDb p) = dbFile" "psBucket p = bucket" "psDb p \<notin> handles f"
    "handles f' = insert (psDb p) (handles f)"
    "file_held files J dbFile bucket f' = (if freshStart then Map.empty else file_held files J dbFile bucket f)"
    "n \<noteq> dbFile \<Longrightarrow> files n f' = files n f"
proof -
  obtain db f1 where o: "bolt_Open B dbFile fileMode f = (Inr db, f1)"
    and p: "p = \<lparr>psDb = db, psDbFile = dbFile, psFileMode = fileMode, psBucket = bucket\<rparr>"
    and c: "CreateBucket B p freshStart f1 = Inr (None, f')"
    using assms by (auto simp: NewPersistentStore_def Let_def split: if_splits prod.splits sum.splits option.splits)
  note O = Open_done [OF o] and own = CreateBucket_own [OF c]
  show n: "handle_name (psDb p) = dbFile" "psBucket p = bucket" "psDb p \<notin> handles f"
    "handles f' = insert (psDb p) (handles f)"
    using O own p by auto
  show "n \<noteq> dbFile \<Longrightarrow> files n f' = files n f" using own(2) n(1) O by metis
  show "file_held files J dbFile bucket f' = (if freshStart then Map.empty else file_held files J dbFile bucket f)"
    using CreateBucket_held [OF c] file_held_cong [of dbFile f1 f bucket] O n(1,2) by (simp add: held_file)
qed

text \<open>A failed open leaves no handle of its own; a failed \<open>CreateBucket\<close> does.\<close>

lemma NewPersistentStore_failed:
  assumes "NewPersistentStore B dbFile fileMode bucket freshStart f = Inr (Inl e, f')"
  shows "handles f' = (case bolt_Open B dbFile fileMode f of
      (Inr db, f1) \<Rightarrow> if dbFile = '''' \<or> bucket = '''' then handles f else insert db (handles f) | (Inl err, f1) \<Rightarrow> handles f)"
    "n \<noteq> dbFile \<Longrightarrow> files n f' = files n f"
proof -
  consider "f' = f" "dbFile = '''' \<or> bucket = ''''"
    | err where "bolt_Open B dbFile fileMode f = (Inl err, f')" "dbFile \<noteq> ''''" "bucket \<noteq> ''''"
    | db f1 where "bolt_Open B dbFile fileMode f = (Inr db, f1)" "dbFile \<noteq> ''''" "bucket \<noteq> ''''"
        "CreateBucket B \<lparr>psDb = db, psDbFile = dbFile, psFileMode = fileMode, psBucket = bucket\<rparr> freshStart f1 = Inr (Some e, f')"
    using assms by (auto simp: NewPersistentStore_def Let_def split: if_splits prod.splits sum.splits option.splits)
  note cases = this
  show "handles f' = (case bolt_Open B dbFile fileMode f of
      (Inr db, f1) \<Rightarrow> if dbFile = '''' \<or> bucket = '''' then handles f else insert db (handles f) | (Inl err, f1) \<Rightarrow> handles f)"
    using cases by cases (auto simp: Open_failed CreateBucket_own(1) dest!: Open_done split: prod.splits sum.splits)
  show "n \<noteq> dbFile \<Longrightarrow> files n f' = files n f"
    using cases by cases (auto dest!: Open_done Open_failed CreateBucket_own(2) [of _ _ _ _ _ n])
qed

text \<open>Opening the two stores of a process.\<close>

lemma GetDBs_reopened:
  assumes "GetDBs B PersistentDb i freshStart f = Inr (Inr dbs, f')"
  obtains t e where "dbs = PersistentDbs t e"
    "Persistent_held disk J t f' = (if freshStart then Map.empty else file_held files J (i @ ''-tasks.db'') ''tasks'' f)"
    "Persistent_held disk J e f' = (if freshStart then Map.empty else file_held files J (i @ ''-events.db'') ''events'' f)"
    "handle_name (psDb t) = i @ ''-tasks.db''" "psBucket t = ''tasks''"
    "handle_name (psDb e) = i @ ''-events.db''" "psBucket e = ''events''"
    "handles f' = {psDb t, psDb e} \<union> handles f"
proof -
  obtain t e f1 where d: "dbs = PersistentDbs t e"
    and t: "NewPersistentStore B (i @ ''-tasks.db'') 384 ''tasks'' freshStart f = Inr (Inr t, f1)"
    and e: "NewPersistentStore B (i @ ''-events.db'') 384 ''events'' freshStart f1 = Inr (Inr e, f')"
    using assms by (auto simp: GetDBs_def GetPersistentDbs_def InMemoryDb_def PersistentDb_def Let_def
        split: if_splits prod.splits sum.splits)
  note T = NewPersistentStore_opened [OF t] and E = NewPersistentStore_opened [OF e]
  have "files (i @ ''-tasks.db'') f' = files (i @ ''-tasks.db'') f1" "files (i @ ''-events.db'') f1 = files (i @ ''-events.db'') f"
    using E(6) T(6) by simp_all
  with T E d show thesis
    by (intro that [OF d]) (simp_all add: held_file file_held_cong [of "i @ ''-tasks.db''" f' f1 "''tasks''"]
        file_held_cong [of "i @ ''-events.db''" f1 f "''events''"] insert_commute)
qed

lemma GetDBs_opened:
  assumes "GetDBs B PersistentDb i freshStart f = Inr (Inr (PersistentDbs t e), f')"
  shows "Persistent_held disk J t f' = (if freshStart then Map.empty else file_held files J (i @ ''-tasks.db'') ''tasks'' f)"
    "Persistent_held disk J e f' = (if freshStart then Map.empty else file_held files J (i @ ''-events.db'') ''events'' f)"
    "handle_name (psDb t) = i @ ''-tasks.db''" "psBucket t = ''tasks''" "psDb t \<noteq> psDb e"
    "handles f' = {psDb t, psDb e} \<union> handles f"
  by (rule GetDBs_reopened [OF assms]; auto)+

end

section \<open>A directory of databases\<close>

text \<open>
  A handle is the number of its file's name, so a file can be opened once at a time; the buckets
  named in \<open>bad\<close> cannot be created.
\<close>

record dir =
  dir_files :: "string \<Rightarrow> db_file"
  dir_handles :: "nat set"

definition dir_bolt :: "string list \<Rightarrow> (dir, db_file) bolt" where
  "dir_bolt bad =
     \<lparr>bolt_Open = (\<lambda>name mode f. if to_nat name \<in> dir_handles f then (Inl (External ''timeout''), f)
        else (Inr (to_nat name), f\<lparr>dir_handles := insert (to_nat name) (dir_handles f)\<rparr>)),
      bolt_Close = (\<lambda>db f. (None, f\<lparr>dir_handles := dir_handles f - {db}\<rparr>)),
      bolt_Begin = (\<lambda>rw db f. Inr (dir_files f (from_nat db))),
      bolt_Commit = (\<lambda>db tx f. (None, f\<lparr>dir_files := (dir_files f)(from_nat db := tx)\<rparr>)),
      tx_Bucket = tx_Bucket list_bolt, tx_DeleteBucket = tx_DeleteBucket list_bolt,
      tx_CreateBucketIfNotExists = (\<lambda>b tx. if b \<in> set bad then (Some (External ''no space left on device''), tx)
        else tx_CreateBucketIfNotExists list_bolt b tx),
      bucket_Put = bucket_Put list_bolt, bucket_Get = bucket_Get list_bolt,
      bucket_entries = bucket_entries list_bolt, bucket_KeyN = bucket_KeyN list_bolt\<rparr>"

definition dir_content :: "string \<Rightarrow> dir \<Rightarrow> string \<Rightarrow> (string \<rightharpoonup> string) option" where
  "dir_content name f = file_content (dir_files f name)"

definition wire_json :: "'a coder \<Rightarrow> 'a json" where
  "wire_json c = \<lparr>Marshal = \<lambda>v. Inr (to_wire c v), Unmarshal = from_wire c\<rparr>"

lemma dir_bolt_files:
  assumes "sound c"
  shows "bolt_files (dir_bolt bad) file_content (\<lambda>db. dir_content (from_nat db)) (wire_json c) dir_content from_nat dir_handles"
proof (intro bolt_files.intro bolt_store.intro)
  show "bolt_contract (dir_bolt bad) file_content (\<lambda>db. dir_content (from_nat db))"
    using list_bolt_contract unfolding bolt_contract_def by (simp add: dir_bolt_def dir_content_def) 
  show "bolt_store_axioms (wire_json c)"
    using assms by (simp add: bolt_store_axioms_def json_roundtrip_def wire_json_def)
  show "bolt_files_axioms (dir_bolt bad) (\<lambda>db. dir_content (from_nat db)) dir_content from_nat dir_handles"
    by unfold_locales (auto simp: dir_bolt_def dir_content_def split: if_splits)
qed

interpretation td: bolt_files "dir_bolt bad" file_content "\<lambda>db. dir_content (from_nat db)" "wire_json task_c"
  dir_content from_nat dir_handles
  by (rule dir_bolt_files) simp

interpretation ed: bolt_files "dir_bolt bad" file_content "\<lambda>db. dir_content (from_nat db)" "wire_json event_c"
  dir_content from_nat dir_handles
  by (rule dir_bolt_files) simp

section \<open>Properties\<close>

text \<open>A worker over the persistent backend.\<close>

definition persistent_wenv :: "('f, 't) bolt \<Rightarrow> Task json \<Rightarrow> ('q, 'f, 'd) wenv \<Rightarrow> PersistentStore \<Rightarrow> ('q, 'f, 'd) wenv" where
  "persistent_wenv B J W p = W\<lparr>we_store := Persistent_store B J p\<rparr>"

text \<open>The directory of a worker \<open>a\<close> with one record.\<close>

definition dir_with :: "Task \<Rightarrow> dir" where
  "dir_with t = \<lparr>dir_files = (\<lambda>n. if n = ''a-tasks.db'' then [(''tasks'', [(unary (tID t), to_wire task_c t)])] else []), dir_handles = {}\<rparr>"

lemma dir_with_fields [simp]:
  "dir_files (dir_with t) ''a-tasks.db'' = [(''tasks'', [(unary (tID t), to_wire task_c t)])]"
  "n \<noteq> ''a-tasks.db'' \<Longrightarrow> dir_files (dir_with t) n = []" "dir_handles (dir_with t) = {}"
  by (simp_all add: dir_with_def)

lemmas dir_defs = GetDBs_def GetPersistentDbs_def NewPersistentStore_def CreateBucket_def Db_Update_def InMemoryDb_def
  PersistentDb_def dir_bolt_def list_bolt_def Let_def

definition dir_wenv :: "Task json \<Rightarrow> (Task list, dir, string list) wenv" where
  "dir_wenv J =
     \<lparr>we_uuid_String = unary, we_uuid_Parse = we_uuid_Parse calm, we_queue = list_collq,
      we_store = Persistent_store (dir_bolt []) J \<lparr>psDb = 0, psDbFile = '''', psFileMode = 0, psBucket = ''''\<rparr>,
      we_docker = calm_docker, we_now = (\<lambda>d. (7, d)), we_decode_TaskEvent = we_decode_TaskEvent calm\<rparr>"

text \<open>Opening the worker's files in any directory where they are not open.\<close>

lemma dir_opens:
  assumes "to_nat (name @ ''-tasks.db'') \<notin> dir_handles f" "to_nat (name @ ''-events.db'') \<notin> dir_handles f" "name \<noteq> ''''"
  shows "\<exists>f'. GetDBs (dir_bolt []) PersistentDb name fresh f = Inr (Inr (PersistentDbs
      \<lparr>psDb = to_nat (name @ ''-tasks.db''), psDbFile = name @ ''-tasks.db'', psFileMode = 384, psBucket = ''tasks''\<rparr>
      \<lparr>psDb = to_nat (name @ ''-events.db''), psDbFile = name @ ''-events.db'', psFileMode = 384, psBucket = ''events''\<rparr>), f')"
  using assms by (simp add: dir_defs ErrBucketNotFound_def split: option.splits)

text \<open>
  C21. A worker over the persistent backend keeps its tasks across restarts: whatever the worker
  did between opening its store and closing it, and whatever locks the end of the process
  frees, a worker that opens the same files with \<open>--fresh-start=false\<close> starts with exactly the
  records the first one had when it closed; with \<open>--fresh-start\<close> it starts with none. Its queue
  starts empty either way.
\<close>

theorem worker_restart_keeps_tasks:
  assumes F: "bolt_files B content disk J files handle_name handles"
    and first: "NewWorker_dbs B PersistentDb name fresh f = Inr (Inr (PersistentDbs p e), f1)"
    and close: "Worker_Close (persistent_wenv B J W p) w = (r, w1)"
    and exit: "\<And>n. files n f2 = files n (wDb w1)"
    and again: "NewWorker_dbs B PersistentDb name freshStart f2 = Inr (Inr (PersistentDbs p' e'), f3)"
  shows "\<exists>w'. NewWorker (persistent_wenv B J W p') (Inr f3) name j = Inr w' \<and>
    stored (Persistent_held disk J p') (persistent_wenv B J W p') w' =
      (if freshStart then Map.empty else stored (Persistent_held disk J p) (persistent_wenv B J W p) w) \<and>
    wQueue w' = New (we_queue W)"
proof -
  note p = bolt_files.GetDBs_opened(3,4) [OF F first [unfolded NewWorker_dbs_def]]
  obtain r' where "bolt_Close B (psDb p) (wDb w) = (r', wDb w1)"
    using close by (auto simp: Worker_Close_def persistent_wenv_def Persistent_store_def Persistent_Close_def
        split: prod.splits option.splits)
  then have "files n f2 = files n (wDb w)" for n using bolt_files.Close_effect [OF F] exit by metis
  then have "file_held files J (name @ ''-tasks.db'') ''tasks'' f2 = Persistent_held disk J p (wDb w)"
    using bolt_files.held_file [OF F, of p "wDb w"] bolt_files.file_held_cong [OF F] p by metis
  moreover have "Persistent_held disk J p' f3 =
      (if freshStart then Map.empty else file_held files J (name @ ''-tasks.db'') ''tasks'' f2)"
    by (rule bolt_files.GetDBs_opened(1) [OF F again [unfolded NewWorker_dbs_def]])
  ultimately show ?thesis by (auto simp: NewWorker_def stored_def persistent_wenv_def fun_eq_iff)
qed

theorem worker_restart_keeps_tasks_witness:
  "let t = zero_Task\<lparr>tState := Completed\<rparr>; J = wire_json task_c; disk = (\<lambda>db. dir_content (from_nat db));
       W = (\<lambda>p. persistent_wenv (dir_bolt []) J (dir_wenv J) p) in
   \<exists>p e f w r w1 p' e' f' w'. NewWorker_dbs (dir_bolt []) PersistentDb ''a'' False (dir_with t) = Inr (Inr (PersistentDbs p e), f) \<and>
     NewWorker (W p) (Inr f) ''a'' 1 = Inr w \<and> Worker_Close (W p) w = (r, w1) \<and>
     NewWorker_dbs (dir_bolt []) PersistentDb ''a'' False ((wDb w1)\<lparr>dir_handles := {}\<rparr>) = Inr (Inr (PersistentDbs p' e'), f') \<and>
     NewWorker (W p') (Inr f') ''a'' 1 = Inr w' \<and>
     stored (Persistent_held disk J p') (W p') w' 0 = Some t"
proof -
  let ?B = "dir_bolt []" and ?J = "wire_json task_c" and ?t = "zero_Task\<lparr>tState := Completed\<rparr>"
  let ?W = "persistent_wenv ?B ?J (dir_wenv ?J)"
  obtain p e f where a: "NewWorker_dbs ?B PersistentDb ''a'' False (dir_with ?t) = Inr (Inr (PersistentDbs p e), f)"
    using dir_opens [of "''a''" "dir_with ?t" False] by (auto simp: NewWorker_dbs_def)
  obtain w where w: "NewWorker (?W p) (Inr f) ''a'' 1 = Inr w" by (simp add: NewWorker_def)
  obtain r w1 where c: "Worker_Close (?W p) w = (r, w1)" by fastforce
  let ?f = "(wDb w1)\<lparr>dir_handles := {}\<rparr>"
  obtain p' e' f' where b: "NewWorker_dbs ?B PersistentDb ''a'' False ?f = Inr (Inr (PersistentDbs p' e'), f')"
    using dir_opens [of "''a''" ?f False] by (auto simp: NewWorker_dbs_def)
  have "dir_content n ?f = dir_content n (wDb w1)" for n by (simp add: dir_content_def)
  note again = worker_restart_keeps_tasks [OF td.bolt_files_axioms a c this b, of 1]
  have "Persistent_held (\<lambda>db. dir_content (from_nat db)) ?J p f = file_held dir_content ?J ''a-tasks.db'' ''tasks'' (dir_with ?t)"
    using td.GetDBs_opened(1) [OF a [unfolded NewWorker_dbs_def]] by simp
  then have "stored (Persistent_held (\<lambda>db. dir_content (from_nat db)) ?J p) (?W p) w 0 = Some ?t"
    using w by (auto simp: stored_def NewWorker_def file_held_def dir_content_def file_content_def persistent_wenv_def
        dir_wenv_def wire_json_def zero_Task_def)
  moreover obtain w' where "NewWorker (?W p') (Inr f') ''a'' 1 = Inr w'"
    "stored (Persistent_held (\<lambda>db. dir_content (from_nat db)) ?J p') (?W p') w' =
       stored (Persistent_held (\<lambda>db. dir_content (from_nat db)) ?J p) (?W p) w"
    using again by auto
  ultimately show ?thesis unfolding Let_def using a b c w by metis
qed

text \<open>
  C22. The manager does not keep its tasks across restarts: with either backend, and whatever the
  files hold, the stores it opens are empty, because \<open>NewManager\<close> always asks for a fresh start.
\<close>

theorem manager_restart_forgets:
  assumes F: "bolt_files B content disk J files handle_name handles"
    and K: "bolt_files B content disk K files handle_name handles"
    and new: "NewManager_dbs B dbType f = Inr (Inr dbs, f')"
  shows "case dbs of InMemoryDbs t e \<Rightarrow> InMemory_held t = Map.empty \<and> InMemory_held e = Map.empty
    | PersistentDbs t e \<Rightarrow> Persistent_held disk J t f' = Map.empty \<and> Persistent_held disk K e f' = Map.empty"
proof (cases "dbType = PersistentDb")
  case True
  then have g: "GetDBs B PersistentDb ''manager'' True f = Inr (Inr dbs, f')" using new by (simp add: NewManager_dbs_def)
  obtain t e where "dbs = PersistentDbs t e" "Persistent_held disk J t f' = Map.empty"
    using bolt_files.GetDBs_reopened [OF F g] by (metis (full_types))
  moreover have "Persistent_held disk K e f' = Map.empty"
    using bolt_files.GetDBs_reopened [OF K g] \<open>dbs = PersistentDbs t e\<close> by (metis (full_types) Dbs.inject(2))
  ultimately show ?thesis by simp
next
  case False
  then show ?thesis
    using new by (auto simp: NewManager_dbs_def GetDBs_def GetInMemoryDbs_def NewInMemory_def InMemory_held_def split: if_splits)
qed

theorem manager_restart_forgets_witness:
  "\<exists>t e f'. NewManager_dbs (dir_bolt []) PersistentDb
      \<lparr>dir_files = (\<lambda>n. [(''tasks'', [(''k'', to_wire task_c zero_Task)])]), dir_handles = {}\<rparr> = Inr (Inr (PersistentDbs t e), f') \<and>
     Persistent_held (\<lambda>db. dir_content (from_nat db)) (wire_json task_c) t f' = Map.empty"
proof -
  let ?f = "\<lparr>dir_files = (\<lambda>n. [(''tasks'', [(''k'', to_wire task_c zero_Task)])]), dir_handles = {}\<rparr>"
  obtain t e f' where "NewManager_dbs (dir_bolt []) PersistentDb ?f = Inr (Inr (PersistentDbs t e), f')"
    using dir_opens [of "''manager''" ?f True] by (auto simp: NewManager_dbs_def)
  with manager_restart_forgets [OF td.bolt_files_axioms ed.bolt_files_axioms this] show ?thesis by auto
qed

text \<open>
  C24. The locks of the database files: opening both stores takes one lock each, and a manager that
  closes its stores frees both. A worker drops its event store without closing it, so the lock
  of that file outlives \<open>Close\<close>; and a store whose bucket cannot be created is reported as an
  error while the lock of its file stays held.
\<close>

theorem store_handles:
  assumes F: "bolt_files B content disk J files handle_name handles"
  shows "(NewManager_dbs B PersistentDb f = Inr (Inr (PersistentDbs p e), f1) \<and> handles f2 = handles f1 \<and>
      Persistent_Close B p f2 = (None, f3) \<and> Persistent_Close B e f3 = (None, f4) \<and> handles f = {} \<longrightarrow> handles f4 = {}) \<and>
    (NewWorker_dbs B PersistentDb name fresh f = Inr (Inr (PersistentDbs p e), f1) \<and> handles (wDb w) = handles f1 \<and>
      Worker_Close (persistent_wenv B J W p) w = (None, w1) \<longrightarrow> psDb e \<in> handles (wDb w1)) \<and>
    (NewPersistentStore B dbFile mode bucket fresh f = Inr (Inl err, f1) \<and> dbFile \<noteq> '''' \<and> bucket \<noteq> '''' \<and>
      bolt_Open B dbFile mode f = (Inr db, f2) \<longrightarrow> db \<notin> handles f \<and> db \<in> handles f1)"
proof (intro conjI impI; elim conjE)
  have closes: "handles g' = handles g - {psDb q}" if "Persistent_Close B q g = (None, g')" for q g g'
    using that bolt_files.Close_effect [OF F, of "psDb q" g] by (auto simp: Persistent_Close_def split: prod.splits option.splits)
  {
    assume new: "NewManager_dbs B PersistentDb f = Inr (Inr (PersistentDbs p e), f1)" and h: "handles f2 = handles f1" "handles f = {}"
      and c: "Persistent_Close B p f2 = (None, f3)" "Persistent_Close B e f3 = (None, f4)"
    show "handles f4 = {}" using closes [OF c(1)] closes [OF c(2)] h
        bolt_files.GetDBs_opened(6) [OF F new [unfolded NewManager_dbs_def]] by auto
  next
    assume new: "NewWorker_dbs B PersistentDb name fresh f = Inr (Inr (PersistentDbs p e), f1)" and h: "handles (wDb w) = handles f1"
      and c: "Worker_Close (persistent_wenv B J W p) w = (None, w1)"
    note O = bolt_files.GetDBs_opened [OF F new [unfolded NewWorker_dbs_def]]
    moreover have "Persistent_Close B p (wDb w) = (None, wDb w1)"
      using c by (auto simp: Worker_Close_def persistent_wenv_def Persistent_store_def split: prod.splits option.splits)
    ultimately show "psDb e \<in> handles (wDb w1)" using closes h by simp
  next
    assume new: "NewPersistentStore B dbFile mode bucket fresh f = Inr (Inl err, f1)" "dbFile \<noteq> ''''" "bucket \<noteq> ''''"
      and o: "bolt_Open B dbFile mode f = (Inr db, f2)"
    show "db \<notin> handles f" using bolt_files.Open_done [OF F o] by blast
    show "db \<in> handles f1" using bolt_files.NewPersistentStore_failed(1) [OF F new(1)] new(2,3) o by simp
  }
qed

theorem store_handles_witness:
  "let f = dir_with (zero_Task\<lparr>tState := Completed\<rparr>); J = wire_json task_c in
   (\<exists>p e f1 w w1. NewWorker_dbs (dir_bolt []) PersistentDb ''a'' True f = Inr (Inr (PersistentDbs p e), f1) \<and> wDb w = f1 \<and>
      Worker_Close (persistent_wenv (dir_bolt []) J (dir_wenv J) p) w = (None, w1) \<and> psDb e \<in> dir_handles (wDb w1)) \<and>
   (\<exists>err f1. NewPersistentStore (dir_bolt [''tasks'']) ''b.db'' 384 ''tasks'' True f = Inr (Inl err, f1) \<and>
      to_nat ''b.db'' \<in> dir_handles f1)"
proof -
  let ?f = "dir_with (zero_Task\<lparr>tState := Completed\<rparr>)" and ?J = "wire_json task_c"
  let ?W = "persistent_wenv (dir_bolt []) ?J (dir_wenv ?J)"
  obtain p e f1 where a: "NewWorker_dbs (dir_bolt []) PersistentDb ''a'' True ?f = Inr (Inr (PersistentDbs p e), f1)"
    using dir_opens [of "''a''" ?f True] by (auto simp: NewWorker_dbs_def)
  let ?w = "\<lparr>wName = ''a'', wID = 1, wDb = f1, wQueue = New list_collq, wStats = None\<rparr>"
  obtain w1 where c: "Worker_Close (?W p) ?w = (None, w1)"
    by (simp add: Worker_Close_def persistent_wenv_def Persistent_store_def Persistent_Close_def dir_bolt_def)
  obtain err f2 where n: "NewPersistentStore (dir_bolt [''tasks'']) ''b.db'' 384 ''tasks'' True ?f = Inr (Inl err, f2)"
    by (simp add: dir_defs ErrBucketNotFound_def)
  have "\<exists>g. bolt_Open (dir_bolt [''tasks'']) ''b.db'' 384 ?f = (Inr (to_nat ''b.db''), g)" by (simp add: dir_bolt_def)
  then have "to_nat ''b.db'' \<in> dir_handles f2" using store_handles [OF td.bolt_files_axioms] n by blast
  moreover have "psDb e \<in> dir_handles (wDb w1)"
    using store_handles [OF td.bolt_files_axioms [where bad = "[]"], THEN conjunct2, THEN conjunct1, rule_format, of "''a''" True ?f p e f1 ?w "dir_wenv ?J" w1] a c
    by simp
  moreover have "wDb ?w = f1" by simp
  ultimately show ?thesis unfolding Let_def using a c n by blast
qed

end
