(* ===== verification/Orch_Command.thy ===== *)
theory Orch_Command
  imports Orch_Cluster Orch_Persistent
begin

text \<open>
  The command tree of package \<open>internal/cli\<close> (\<open>root.go\<close>, \<open>task.go\<close>, \<open>manager.go\<close>, \<open>worker.go\<close>,
  \<open>stats.go\<close>): commands with their names, flags, defaults and handlers, as data. The third-party
  cobra, which parses a command line against the tree, is a parameter.
\<close>

section \<open>Commands as data\<close>

datatype flag_value = StringFlag string | IntFlag int | BoolFlag bool | StringsFlag "string list"

text \<open>A flag without a shorthand has the empty one; a nil slice of strings is empty.\<close>

record Flag =
  flName :: string
  flShorthand :: string
  flDefault :: flag_value
  flUsage :: string

datatype args_rule = AnyArgs | NoArgs | ExactArgs nat

datatype handler = RunWorker | RunManager | RunStart | RunStop | RunStatus | RunStats

datatype Command =
  Command (Use: string) (Short: string) (Long: string) (Example: string) (Aliases: "string list") (Args: args_rule) (RunE: "handler option")
    (Flags: "Flag list") (PersistentFlags: "Flag list") (subcommands: "Command list")

definition StringVar :: "string \<Rightarrow> string \<Rightarrow> string \<Rightarrow> Flag" where
  "StringVar name val usage = \<lparr>flName = name, flShorthand = '''', flDefault = StringFlag val, flUsage = usage\<rparr>"

definition StringVarP :: "string \<Rightarrow> string \<Rightarrow> string \<Rightarrow> string \<Rightarrow> Flag" where
  "StringVarP name short val usage = \<lparr>flName = name, flShorthand = short, flDefault = StringFlag val, flUsage = usage\<rparr>"

definition IntVar :: "string \<Rightarrow> int \<Rightarrow> string \<Rightarrow> Flag" where
  "IntVar name val usage = \<lparr>flName = name, flShorthand = '''', flDefault = IntFlag val, flUsage = usage\<rparr>"

definition IntVarP :: "string \<Rightarrow> string \<Rightarrow> int \<Rightarrow> string \<Rightarrow> Flag" where
  "IntVarP name short val usage = \<lparr>flName = name, flShorthand = short, flDefault = IntFlag val, flUsage = usage\<rparr>"

definition BoolVar :: "string \<Rightarrow> bool \<Rightarrow> string \<Rightarrow> Flag" where
  "BoolVar name val usage = \<lparr>flName = name, flShorthand = '''', flDefault = BoolFlag val, flUsage = usage\<rparr>"

definition StringArrayVarP :: "string \<Rightarrow> string \<Rightarrow> string list \<Rightarrow> string \<Rightarrow> Flag" where
  "StringArrayVarP name short val usage = \<lparr>flName = name, flShorthand = short, flDefault = StringsFlag val, flUsage = usage\<rparr>"

lemmas flag_defs = StringVar_def StringVarP_def IntVar_def IntVarP_def BoolVar_def StringArrayVarP_def

section \<open>Help texts\<close>

text \<open>Go strings are bytes: a dash outside ASCII is its three bytes.\<close>

definition exampleTaskEventJSON :: string where
  "exampleTaskEventJSON =
      ''  {'' @ newline @
      ''    '' @ [CHR 0x22] @ ''State'' @ [CHR 0x22] @ '': 2,'' @ newline @
      ''    '' @ [CHR 0x22] @ ''Task'' @ [CHR 0x22] @ '': {'' @ newline @
      ''      '' @ [CHR 0x22] @ ''Name'' @ [CHR 0x22] @ '': '' @ [CHR 0x22] @ ''echo-server'' @ [CHR 0x22] @ '','' @
      newline @
      ''      '' @ [CHR 0x22] @ ''State'' @ [CHR 0x22] @ '': 1,'' @ newline @
      ''      '' @ [CHR 0x22] @ ''Image'' @ [CHR 0x22] @ '': '' @ [CHR 0x22] @ ''timboring/echo-server:latest'' @
      [CHR 0x22] @ '','' @ newline @
      ''      '' @ [CHR 0x22] @ ''ExposedPorts'' @ [CHR 0x22] @ '': { '' @ [CHR 0x22] @ ''7777/tcp'' @ [CHR 0x22] @
      '': {} },'' @ newline @
      ''      '' @ [CHR 0x22] @ ''HealthCheck'' @ [CHR 0x22] @ '': '' @ [CHR 0x22] @ ''/health'' @ [CHR 0x22] @
      newline @
      ''    }'' @ newline @
      ''  }''"

definition stateLegend :: string where
  "stateLegend =
      ''task states: 0=Pending 1=Scheduled 2=Running 3=Completed 4=Failed''"

definition start_long :: string where
  "start_long =
      ''Submit a task to the manager. The task event is read from a JSON or'' @ newline @
      ''YAML file (or stdin with -f -). Any of JSON'' @ [CHR 0x27] @ ''s or YAML'' @ [CHR 0x27] @
      ''s field names work,'' @ newline @
      ''matched case-insensitively; omitted IDs are filled with fresh UUIDs.'' @ newline @
      newline @
      stateLegend @ newline @
      newline @
      ''Example JSON (see examples/task-event.json and examples/task-event.yaml):'' @ newline @
      newline @
      exampleTaskEventJSON"

definition start_example :: "string \<Rightarrow> string" where
  "start_example name =
      ''  orchestrator '' @ name @ '' -f examples/task-event.json'' @ newline @
      ''  orchestrator '' @ name @ '' -f examples/task-event.yaml --port 5555'' @ newline @
      ''  cat task.json | orchestrator '' @ name @ '' -f -'' @ newline @
      ''  orchestrator '' @ name @ '' -f examples/task-event.json --dry-run   # print, don'' @ [CHR 0x27] @
      ''t send''"

definition stop_long :: string where
  "stop_long =
      ''Stop a task by id. The manager marks it Completed and schedules its'' @ newline @
      ''container to be stopped and removed. The id is the one printed when the task was'' @ newline @
      ''submitted, or shown by '' @ [CHR 0x22] @ ''orchestrator task status'' @ [CHR 0x22] @ ''.''"

definition stop_example :: "string \<Rightarrow> string" where
  "stop_example name =
      ''  orchestrator '' @ name @ '' 4b1e9f0c-2a1e-4c3b-9d5f-6a7b8c9d0e1f''"

definition status_long :: string where
  "status_long =
      ''List every task the manager knows about and its current state.''"

definition status_example :: "string \<Rightarrow> string" where
  "status_example name =
      ''  orchestrator task '' @ name @ '' --port 5555''"

definition task_long :: string where
  "task_long =
      ''Client commands for driving tasks against a running manager (or a'' @ newline @
      ''worker directly '' @ [CHR 0xE2, CHR 0x80, CHR 0x94] @
      '' both expose the same /tasks endpoints). Each is a one-shot'' @ newline @
      ''HTTP call that exits as soon as it returns.''"

definition worker_long :: string where
  "worker_long =
      ''Start a worker: an HTTP server that accepts tasks and runs them as'' @ newline @
      ''Docker containers, plus a background loop that reports its stats to the manager.'' @ newline @
      newline @
      ''The worker runs until you Ctrl-C it. On shutdown it stops every container it'' @ newline @
      ''still owns and closes its store, so a persistent store is left consistent for'' @ newline @
      ''the next start.'' @ newline @
      newline @
      ''Use --db-type PERSISTENT to keep task state in a bbolt file (named after the'' @ newline @
      ''worker) across restarts; --fresh-start controls whether that file is wiped on'' @ newline @
      ''start.''"

definition worker_example :: string where
  "worker_example =
      ''  # In-memory worker on the default port'' @ newline @
      ''  orchestrator worker --name worker-1 --port 5556'' @ newline @
      newline @
      ''  # Persistent worker that keeps its task state across restarts'' @ newline @
      ''  orchestrator worker --name worker-1 --port 5556 --db-type PERSISTENT --fresh-start=false''"

definition manager_long :: string where
  "manager_long =
      ''Start the manager: an HTTP server that accepts tasks, schedules them'' @ newline @
      ''across the workers you point it at, and runs background loops that poll worker'' @ newline @
      ''health and reconcile task state.'' @ newline @
      newline @
      ''Point the manager at its workers with repeated --worker flags. Each value is a'' @ newline @
      ''worker'' @ [CHR 0x27] @ ''s address, optionally prefixed with the worker'' @ [CHR 0x27] @ ''s name:'' @
      newline @
      newline @
      ''  --worker worker-1=http://localhost:5556'' @ newline @
      ''  --worker http://localhost:5556          # auto-named worker-1, worker-2, ...'' @ newline @
      newline @
      ''The name must match the worker'' @ [CHR 0x27] @ ''s --name so health and stats line up in the'' @ newline @
      ''logs. The manager runs until you Ctrl-C it, then closes its store.''"

definition manager_example :: string where
  "manager_example =
      ''  # Manager with two workers, marginal-cost scheduling'' @ newline @
      ''  orchestrator manager --port 5555 '' @ [CHR 0x5C] @ newline @
      ''    --worker worker-1=http://localhost:5556 '' @ [CHR 0x5C] @ newline @
      ''    --worker worker-2=http://localhost:5557'' @ newline @
      newline @
      ''  # Round-robin scheduling with a persistent store'' @ newline @
      ''  orchestrator manager --scheduler round-robin --db-type PERSISTENT''"

definition stats_long :: string where
  "stats_long =
      ''Fetch and print the stats a worker has collected (memory, cpu, disk,'' @ newline @
      ''task count). Point --host/--port at the worker, not the manager. A worker that'' @ newline @
      ''has not finished its first collection pass yet returns '' @ [CHR 0x22] @ ''stats not collected'' @ newline @
      ''yet'' @ [CHR 0x22] @ ''.''"

definition stats_example :: string where
  "stats_example =
      ''  orchestrator stats --port 5556''"

definition root_long :: string where
  "root_long =
      ''orchestrator runs the pieces of the task orchestrator and lets you'' @ newline @
      ''drive tasks against a running manager.'' @ newline @
      newline @
      ''A typical local setup is three terminals:'' @ newline @
      newline @
      ''  1. orchestrator worker  --port 5556 --name worker-1'' @ newline @
      ''  2. orchestrator manager --port 5555 --worker worker-1=http://localhost:5556'' @ newline @
      ''  3. orchestrator task start -f examples/task-event.json'' @ newline @
      newline @
      ''worker and manager run in the foreground and log to stderr until you Ctrl-C'' @ newline @
      ''them. The task subcommands are one-shot HTTP clients against a manager (or a'' @ newline @
      ''worker) that exit as soon as the call returns.''"

section \<open>The commands\<close>

definition dbTypeUsage :: string where
  "dbTypeUsage = ''store backend: IN_MEMORY (lost on exit) or PERSISTENT (bbolt file)''"

definition addTargetFlags :: "Flag list" where
  "addTargetFlags =
     [StringVar ''host'' ''localhost'' ''host of the manager (or worker) to talk to'',
      IntVarP ''port'' ''p'' 5555 ''port of the manager (or worker) to talk to'']"

definition start_flags :: "Flag list" where
  "start_flags = addTargetFlags @
     [StringVarP ''file'' ''f'' '''' ''task event file (JSON or YAML), or - for stdin'',
      BoolVar ''dry-run'' False ''print the task event that would be sent instead of sending it'']"

definition newStartCommand :: "string \<Rightarrow> Command" where
  "newStartCommand name =
     Command (name @ '' -f FILE'') ''Submit a task from a JSON or YAML file'' start_long (start_example name) [] NoArgs (Some RunStart)
       start_flags [] []"

definition newStopCommand :: "string \<Rightarrow> Command" where
  "newStopCommand name =
     Command (name @ '' TASK_ID'') ''Stop a running task by id'' stop_long (stop_example name) [] (ExactArgs 1) (Some RunStop) addTargetFlags [] []"

definition newStatusCommand :: "string \<Rightarrow> Command" where
  "newStatusCommand name =
     Command name ''List tasks and their states'' status_long (status_example name) [''list'', ''ls''] NoArgs (Some RunStatus) addTargetFlags [] []"

definition taskCmd :: Command where
  "taskCmd =
     Command ''task'' ''Submit, stop, and inspect tasks on a running manager'' task_long '''' [] AnyArgs None [] []
       [newStartCommand ''start'', newStopCommand ''stop'', newStatusCommand ''status'']"

definition worker_flags :: "Flag list" where
  "worker_flags =
     [StringVar ''host'' ''localhost'' ''host the worker binds its HTTP API to'',
      IntVarP ''port'' ''p'' 5556 ''port the worker binds its HTTP API to'',
      StringVarP ''name'' ''n'' ''worker-1'' (''worker name (the manager'' @ [CHR 0x27] @ ''s routing key; must be unique per manager)''),
      IntVar ''id'' 1 ''numeric worker id, used only in logs'',
      StringVar ''db-type'' InMemoryDb dbTypeUsage,
      BoolVar ''fresh-start'' True ''wipe the store on start (only meaningful for --db-type PERSISTENT)'']"

definition workerCmd :: Command where
  "workerCmd = Command ''worker'' ''Start a worker node in the foreground'' worker_long worker_example [] NoArgs (Some RunWorker) worker_flags [] []"

definition manager_flags :: "Flag list" where
  "manager_flags =
     [StringVar ''host'' ''localhost'' ''host the manager binds its HTTP API to'',
      IntVarP ''port'' ''p'' 5555 ''port the manager binds its HTTP API to'',
      StringArrayVarP ''worker'' ''w'' [] ''worker to manage, as [name=]address (repeatable)'',
      StringVarP ''scheduler'' ''s'' MarginalCost_name (''scheduling strategy: '' @ RoundRobin_name @ '' or '' @ MarginalCost_name),
      StringVar ''db-type'' InMemoryDb dbTypeUsage]"

definition managerCmd :: Command where
  "managerCmd = Command ''manager'' ''Start the manager in the foreground'' manager_long manager_example [] NoArgs (Some RunManager) manager_flags [] []"

definition stats_flags :: "Flag list" where
  "stats_flags =
     [StringVar ''host'' ''localhost'' ''host of the worker to talk to'',
      IntVarP ''port'' ''p'' 5556 ''port of the worker to talk to'']"

definition statsCmd :: Command where
  "statsCmd =
     Command ''stats'' (''Show a worker'' @ [CHR 0x27] @ ''s collected stats'') stats_long stats_example [] NoArgs (Some RunStats) stats_flags [] []"

definition rootCmd :: Command where
  "rootCmd =
     Command ''orchestrator'' ''Run and drive a small task orchestrator'' root_long '''' [] AnyArgs None []
       [StringVar ''log-level'' ''info'' ''log verbosity: debug, info, warn, or error'']
       [workerCmd, managerCmd, taskCmd, newStartCommand ''run'', newStopCommand ''stop'', newStatusCommand ''status'', statsCmd]"

lemmas command_defs = rootCmd_def taskCmd_def newStartCommand_def newStopCommand_def newStatusCommand_def workerCmd_def
  managerCmd_def statsCmd_def start_flags_def addTargetFlags_def worker_flags_def manager_flags_def stats_flags_def

section \<open>Running a command\<close>

text \<open>
  What a handler's variables are bound to: \<open>values\<close> gives the value of each flag by name, \<open>args\<close>
  the positional arguments.
\<close>

type_synonym flag_values = "string \<Rightarrow> flag_value"

fun string_of :: "flag_value \<Rightarrow> string" where
  "string_of (StringFlag s) = s"
| "string_of _ = ''''"

fun int_of_flag :: "flag_value \<Rightarrow> int" where
  "int_of_flag (IntFlag i) = i"
| "int_of_flag _ = 0"

fun bool_of :: "flag_value \<Rightarrow> bool" where
  "bool_of (BoolFlag b) = b"
| "bool_of _ = False"

fun strings_of :: "flag_value \<Rightarrow> string list" where
  "strings_of (StringsFlag xs) = xs"
| "strings_of _ = []"

definition target_of :: "flag_values \<Rightarrow> target" where
  "target_of v = \<lparr>host = string_of (v ''host''), port = int_of_flag (v ''port'')\<rparr>"

text \<open>The bodies of the client commands; the server commands are run by the server's process.\<close>

definition client_RunE ::
  "('g, 'w) cenv \<Rightarrow> handler \<Rightarrow> flag_values \<Rightarrow> string list \<Rightarrow> 'w \<Rightarrow> 'w outcome option" where
  "client_RunE C h v args w =
     (case h of
        RunStart \<Rightarrow> Some (startCommand_RunE C (target_of v) (string_of (v ''file'')) (bool_of (v ''dry-run'')) w)
      | RunStop \<Rightarrow> Some (stopCommand_RunE C (target_of v) (args ! 0) w)
      | RunStatus \<Rightarrow> Some (printTaskStatus C (target_of v) w)
      | RunStats \<Rightarrow> Some (statsCmd_RunE C (string_of (v ''host'')) (int_of_flag (v ''port'')) w)
      | RunWorker \<Rightarrow> None
      | RunManager \<Rightarrow> None)"

definition worker_RunE ::
  "('q, 's, 'd) wenv \<Rightarrow> (string \<Rightarrow> string \<Rightarrow> bool \<Rightarrow> go_error + 's) \<Rightarrow> flag_values \<Rightarrow> worker_act list \<Rightarrow> nat list \<Rightarrow> 'd \<Rightarrow>
   go_error option \<times> ('q, 's) Worker option \<times> 'd" where
  "worker_RunE W dbs v acts ks d =
     (let name = string_of (v ''name'') in
      workerCmd_RunE W (string_of (v ''log-level''))
        (dbs (string_of (v ''db-type'')) name (bool_of (v ''fresh-start''))) name (int_of_flag (v ''id'')) acts ks d)"

definition manager_RunE ::
  "('q, 's, 'e, 'w) menv \<Rightarrow> (string \<Rightarrow> string \<Rightarrow> bool \<Rightarrow> go_error + 's \<times> 'e) \<Rightarrow> flag_values \<Rightarrow> manager_act list \<Rightarrow> 'w \<Rightarrow>
   panic + go_error option \<times> ('q, 's, 'e) Manager option \<times> 'w" where
  "manager_RunE M dbs v acts w =
     (let dbType = string_of (v ''db-type'') in
      managerCmd_RunE M (strings_of (v ''worker'')) (string_of (v ''log-level'')) (string_of (v ''scheduler'')) dbType
        (dbs dbType ''manager'' True) acts w)"

text \<open>
  \<open>Execute\<close> for the client commands: cobra takes the tree and the command line to an error, to a
  help text, or to the handler to run with the values of its flags and its arguments.
\<close>

type_synonym cobra = "Command \<Rightarrow> string list \<Rightarrow> go_error + string + handler \<times> flag_values \<times> string list"

definition Execute :: "('g, 'w) cenv \<Rightarrow> cobra \<Rightarrow> string list \<Rightarrow> 'w \<Rightarrow> 'w outcome option" where
  "Execute C cobra argv w =
     (case cobra rootCmd argv of
        Inl err \<Rightarrow> Some (Some err, '''', w)
      | Inr (Inl help) \<Rightarrow> Some (None, help, w)
      | Inr (Inr (h, v, args)) \<Rightarrow> client_RunE C h v args w)"

section \<open>What cobra is relied on for\<close>

text \<open>A command answers to the first word of its \<open>Use\<close> and to its aliases.\<close>

definition command_names :: "Command \<Rightarrow> string list" where
  "command_names c = takeWhile (\<lambda>x. x \<noteq> CHR 0x20) (Use c) # Aliases c"

text \<open>The command that a path of names leads to, and the persistent flags on the way.\<close>

fun follow :: "Command \<Rightarrow> string list \<Rightarrow> (Command \<times> Flag list) option" where
  "follow c [] = Some (c, PersistentFlags c)"
| "follow c (n # ns) =
     (case find (\<lambda>s. n \<in> set (command_names s)) (subcommands c) of
        None \<Rightarrow> None
      | Some s \<Rightarrow> map_option (\<lambda>(d, fs). (d, PersistentFlags c @ fs)) (follow s ns))"

definition default_values :: "Flag list \<Rightarrow> flag_values" where
  "default_values fs n = (case find (\<lambda>f. flName f = n) fs of None \<Rightarrow> StringFlag '''' | Some f \<Rightarrow> flDefault f)"

definition args_allowed :: "args_rule \<Rightarrow> string list \<Rightarrow> bool" where
  "args_allowed r args = (case r of AnyArgs \<Rightarrow> True | NoArgs \<Rightarrow> args = [] | ExactArgs n \<Rightarrow> length args = n)"

text \<open>Two choices of cobra that agree up to the texts of errors and of help.\<close>

fun same_choice ::
  "go_error + string + handler \<times> flag_values \<times> string list \<Rightarrow> go_error + string + handler \<times> flag_values \<times> string list \<Rightarrow> bool" where
  "same_choice (Inl e) y = (\<exists>e'. y = Inl e')"
| "same_choice (Inr (Inl text)) y = (\<exists>text'. y = Inr (Inl text'))"
| "same_choice (Inr (Inr x)) y = (y = Inr (Inr x))"

text \<open>
  The first names of a command line choose a command of the tree. The rest of it is parsed by
  \<open>pflag\<close> against the flags of that command, with \<open>--help\<close>, and checked by its rule for arguments: it is
  refused, asks for help, or gives the values of the flags and the arguments. That much depends on
  the flags and the rule alone; the text of an error or a help names the command and is left open.
  What is no flag is an argument, and a flag that is not given has its default.
\<close>

datatype parsed = Refused | HelpAsked | Parsed flag_values "string list"

locale cobra_contract =
  fixes cobra :: cobra and pflag :: "Flag list \<Rightarrow> args_rule \<Rightarrow> string list \<Rightarrow> parsed"
  assumes chooses: "follow c path = Some (d, inherited) \<Longrightarrow> subcommands d = [] \<Longrightarrow> RunE d = Some h \<Longrightarrow>
      (case pflag (Flags d @ inherited) (Args d) rest of
         Refused \<Rightarrow> \<exists>e. cobra c (path @ rest) = Inl e
       | HelpAsked \<Rightarrow> \<exists>text. cobra c (path @ rest) = Inr (Inl text)
       | Parsed v args \<Rightarrow> cobra c (path @ rest) = Inr (Inr (h, v, args)))"
    and plain: "args_allowed r args \<Longrightarrow> \<forall>a \<in> set args. take 1 a \<noteq> ''-'' \<Longrightarrow> pflag fs r args = Parsed (default_values fs) args"
begin

lemma same_command:
  assumes "follow c path = Some (d, fs)" "follow c path' = Some (d', fs')" and "subcommands d = []" "subcommands d' = []"
    and "RunE d = Some h" "RunE d' = Some h" "Flags d @ fs = Flags d' @ fs'" "Args d = Args d'"
  shows "same_choice (cobra c (path @ rest)) (cobra c (path' @ rest))"
  using chooses [OF assms(1,3,5), of rest] chooses [OF assms(2,4,6), of rest] assms(7,8)
  by (cases "pflag (Flags d @ fs) (Args d) rest") auto

lemma runs_with_defaults:
  assumes "follow c path = Some (d, fs)" "subcommands d = []" "RunE d = Some h"
    and "args_allowed (Args d) args" "\<forall>a \<in> set args. take 1 a \<noteq> ''-''"
  shows "cobra c (path @ args) = Inr (Inr (h, default_values (Flags d @ fs), args))"
  using chooses [OF assms(1-3), of args] plain [OF assms(4,5)] by simp

end

text \<open>A parser that knows no flags: it refuses what looks like one.\<close>

definition plain_pflag :: "Flag list \<Rightarrow> args_rule \<Rightarrow> string list \<Rightarrow> parsed" where
  "plain_pflag fs r args =
     (if ''--help'' \<in> set args then HelpAsked
      else if list_ex (\<lambda>a. take 1 a = ''-'') args \<or> \<not> args_allowed r args then Refused
      else Parsed (default_values fs) args)"

fun plain_cobra_from :: "Flag list \<Rightarrow> Command \<Rightarrow> string list \<Rightarrow> go_error + string + handler \<times> flag_values \<times> string list" where
  "plain_cobra_from fs c argv =
     (let here = (case RunE c of
          None \<Rightarrow> Inr (Inl (Short c))
        | Some h \<Rightarrow> (case plain_pflag (Flags c @ fs @ PersistentFlags c) (Args c) argv of
             Refused \<Rightarrow> Inl (External (''cannot run '' @ Use c))
           | HelpAsked \<Rightarrow> Inr (Inl (Long c))
           | Parsed v args \<Rightarrow> Inr (Inr (h, v, args))))
      in case argv of
           [] \<Rightarrow> here
         | n # ns \<Rightarrow>
             (case find (\<lambda>s. n \<in> set (command_names s)) (subcommands c) of
                None \<Rightarrow> here
              | Some s \<Rightarrow> plain_cobra_from (fs @ PersistentFlags c) s ns))"

definition plain_cobra :: cobra where
  "plain_cobra = plain_cobra_from []"

declare plain_cobra_from.simps [simp del]

lemma plain_cobra_follow:
  assumes "follow c path = Some (d, inh)" and "subcommands d = []" and "RunE d = Some h"
  shows "plain_cobra_from fs c (path @ rest) =
    (case plain_pflag (Flags d @ fs @ inh) (Args d) rest of
       Refused \<Rightarrow> Inl (External (''cannot run '' @ Use d))
     | HelpAsked \<Rightarrow> Inr (Inl (Long d))
     | Parsed v args \<Rightarrow> Inr (Inr (h, v, args)))"
  using assms
proof (induction path arbitrary: c fs inh)
  case Nil
  then have "c = d" "inh = PersistentFlags d" by auto
  with Nil.prems(2,3) show ?case by (cases rest) (simp_all add: plain_cobra_from.simps [of fs d])
next
  case (Cons n ns)
  obtain s inh' where s: "find (\<lambda>s. n \<in> set (command_names s)) (subcommands c) = Some s" "follow s ns = Some (d, inh')"
    "inh = PersistentFlags c @ inh'"
    using Cons.prems(1) by (auto split: option.splits)
  then show ?case
    using Cons.IH [OF s(2) Cons.prems(2,3), of "fs @ PersistentFlags c"] by (simp add: plain_cobra_from.simps [of fs c])
qed

lemma plain_cobra_contract: "cobra_contract plain_cobra plain_pflag"
proof unfold_locales
  fix r :: args_rule and args :: "string list" and fs
  assume "args_allowed r args" and a: "\<forall>a \<in> set args. take 1 a \<noteq> ''-''"
  moreover have "''--help'' \<notin> set args" using a by force
  ultimately show "plain_pflag fs r args = Parsed (default_values fs) args"
    by (simp add: plain_pflag_def list_ex_iff)
qed (auto simp: plain_cobra_def plain_cobra_follow split: parsed.splits)

interpretation pc: cobra_contract plain_cobra plain_pflag
  by (rule plain_cobra_contract)

section \<open>Properties\<close>

text \<open>Where the paths of the client commands lead.\<close>

lemma client_paths:
  "follow rootCmd [''run''] = Some (newStartCommand ''run'', PersistentFlags rootCmd)"
  "follow rootCmd [''task'', ''start''] = Some (newStartCommand ''start'', PersistentFlags rootCmd)"
  "follow rootCmd [''stop''] = Some (newStopCommand ''stop'', PersistentFlags rootCmd)"
  "follow rootCmd [''task'', ''stop''] = Some (newStopCommand ''stop'', PersistentFlags rootCmd)"
  "n \<in> {''status'', ''list'', ''ls''} \<Longrightarrow> follow rootCmd [n] = Some (newStatusCommand ''status'', PersistentFlags rootCmd)"
  "n \<in> {''status'', ''list'', ''ls''} \<Longrightarrow> follow rootCmd [''task'', n] = Some (newStatusCommand ''status'', PersistentFlags rootCmd)"
  "follow rootCmd [''stats''] = Some (statsCmd, PersistentFlags rootCmd)"
  by (auto simp: command_defs command_names_def)

text \<open>
  Two command lines that do the same: either both run one handler with the same values of its flags
  and the same arguments, and then their request, output and error are the same; or neither runs
  one, both fail or both print a help, with a text that may name the command, and the world is
  left alone.
\<close>

definition alike :: "('g, 'w) cenv \<Rightarrow> cobra \<Rightarrow> 'w \<Rightarrow> string list \<Rightarrow> string list \<Rightarrow> bool" where
  "alike C cobra w argv argv' \<longleftrightarrow>
     (\<exists>x. cobra rootCmd argv = Inr (Inr x) \<and> cobra rootCmd argv' = Inr (Inr x) \<and>
        Execute C cobra argv w = Execute C cobra argv' w) \<or>
     (\<exists>e out e' out'. Execute C cobra argv w = Some (e, out, w) \<and> Execute C cobra argv' w = Some (e', out', w) \<and>
        fst (main e) = fst (main e') \<and> (\<forall>x. cobra rootCmd argv \<noteq> Inr (Inr x) \<and> cobra rootCmd argv' \<noteq> Inr (Inr x)))"

lemma alikeI: "same_choice (cobra rootCmd argv) (cobra rootCmd argv') \<Longrightarrow> alike C cobra w argv argv'"
  by (cases "(cobra rootCmd argv, cobra rootCmd argv')" rule: same_choice.cases) (auto simp: alike_def Execute_def main_def)

text \<open>
  C40. The shortcuts are the task commands: whatever flags and arguments follow, \<open>run\<close> does what
  \<open>task start\<close> does, \<open>stop\<close> what \<open>task stop\<close> does, and \<open>status\<close>, \<open>list\<close> and \<open>ls\<close> the same at both levels:
  the same handler runs with the same flag values and arguments, so the request, the output and the
  error are the same; and where cobra refuses the rest of the line or is asked for help, it does
  so for both, with texts that may name the command, and no request is made.
\<close>

theorem shortcuts_are_task_commands:
  assumes "cobra_contract cobra pflag"
  shows "alike C cobra w (''run'' # rest) (''task'' # ''start'' # rest) \<and>
    alike C cobra w (''stop'' # rest) (''task'' # ''stop'' # rest) \<and>
    (\<forall>a \<in> {''status'', ''list'', ''ls''}. \<forall>b \<in> {''status'', ''list'', ''ls''}.
       alike C cobra w (a # rest) (''task'' # b # rest))"
proof (intro conjI ballI)
  note same = cobra_contract.same_command [OF assms, where rest = rest]
  show "alike C cobra w (''run'' # rest) (''task'' # ''start'' # rest)"
    using same [OF client_paths(1,2)] by (intro alikeI) (simp add: newStartCommand_def)
  show "alike C cobra w (''stop'' # rest) (''task'' # ''stop'' # rest)"
    using same [OF client_paths(3,4)] by (intro alikeI) (simp add: newStopCommand_def)
  fix a b :: string
  assume a: "a \<in> {''status'', ''list'', ''ls''}" and b: "b \<in> {''status'', ''list'', ''ls''}"
  show "alike C cobra w (a # rest) (''task'' # b # rest)"
    using same [OF client_paths(5) [OF a] client_paths(6) [OF b]] by (intro alikeI) (simp add: newStatusCommand_def)
qed

text \<open>A line that runs, and one that is refused with errors that differ.\<close>

theorem shortcuts_are_task_commands_witness:
  "\<forall>C w. Execute C plain_cobra [''task'', ''stop'', ''4b1e''] w = Some (stopCommand_RunE C \<lparr>host = ''localhost'', port = 5555\<rparr> ''4b1e'' w) \<and>
   Execute C plain_cobra [''stop'', ''4b1e''] w = Some (stopCommand_RunE C \<lparr>host = ''localhost'', port = 5555\<rparr> ''4b1e'' w) \<and>
   alike C plain_cobra w [''run'', ''x''] [''task'', ''start'', ''x''] \<and>
   Execute C plain_cobra [''run'', ''x''] w \<noteq> Execute C plain_cobra [''task'', ''start'', ''x''] w"
proof (intro allI)
  fix C :: "('g, 'w) cenv" and w
  have c: "plain_cobra rootCmd ([''stop''] @ [''4b1e'']) =
      Inr (Inr (RunStop, default_values (Flags (newStopCommand ''stop'') @ PersistentFlags rootCmd), [''4b1e'']))"
    by (rule pc.runs_with_defaults [OF client_paths(3)]) (simp_all add: newStopCommand_def args_allowed_def)
  then have stop: "Execute C plain_cobra [''stop'', ''4b1e''] w = Some (stopCommand_RunE C \<lparr>host = ''localhost'', port = 5555\<rparr> ''4b1e'' w)"
    by (simp add: Execute_def client_RunE_def target_of_def default_values_def newStopCommand_def addTargetFlags_def flag_defs)
  have "alike C plain_cobra w [''stop'', ''4b1e''] [''task'', ''stop'', ''4b1e'']"
    using shortcuts_are_task_commands [OF plain_cobra_contract, of C w "[''4b1e'']"] by blast
  then have "Execute C plain_cobra [''task'', ''stop'', ''4b1e''] w = Execute C plain_cobra [''stop'', ''4b1e''] w"
    using c by (auto simp: alike_def)
  moreover have "alike C plain_cobra w [''run'', ''x''] [''task'', ''start'', ''x'']"
    using shortcuts_are_task_commands [OF plain_cobra_contract, of C w "[''x'']"] by blast
  moreover have "plain_cobra rootCmd ([''run''] @ [''x'']) = Inl (External (''cannot run '' @ Use (newStartCommand ''run'')))"
    "plain_cobra rootCmd ([''task'', ''start''] @ [''x'']) = Inl (External (''cannot run '' @ Use (newStartCommand ''start'')))"
    using plain_cobra_follow [OF client_paths(1), of RunStart "[]" "[''x'']"]
      plain_cobra_follow [OF client_paths(2), of RunStart "[]" "[''x'']"]
    by (simp_all add: plain_cobra_def newStartCommand_def plain_pflag_def args_allowed_def)
  then have "Execute C plain_cobra [''run'', ''x''] w \<noteq> Execute C plain_cobra [''task'', ''start'', ''x''] w"
    by (simp add: Execute_def newStartCommand_def)
  ultimately show "Execute C plain_cobra [''task'', ''stop'', ''4b1e''] w = Some (stopCommand_RunE C \<lparr>host = ''localhost'', port = 5555\<rparr> ''4b1e'' w) \<and>
     Execute C plain_cobra [''stop'', ''4b1e''] w = Some (stopCommand_RunE C \<lparr>host = ''localhost'', port = 5555\<rparr> ''4b1e'' w) \<and>
     alike C plain_cobra w [''run'', ''x''] [''task'', ''start'', ''x''] \<and>
     Execute C plain_cobra [''run'', ''x''] w \<noteq> Execute C plain_cobra [''task'', ''start'', ''x''] w"
    using stop by simp
qed

text \<open>
  The tree is well formed: below each command no two commands answer to one name, and no two
  flags that one command accepts, its own, the inherited ones and cobra's \<open>--help\<close> and \<open>-h\<close>, share
  a name or a shorthand, which is a letter. On a flag that is defined twice, pflag panics.
\<close>

fun well_formed :: "Flag list \<Rightarrow> Command \<Rightarrow> bool" where
  "well_formed inherited (Command u sh lo ex al ar h fl pf subs) \<longleftrightarrow>
     (let fs = fl @ pf @ inherited; shorts = filter (\<lambda>x. x \<noteq> '''') (map flShorthand fs) in
      distinct (''help'' # map flName fs) \<and> distinct (''h'' # shorts) \<and> list_all (\<lambda>x. length x = 1) shorts \<and>
      distinct (''help'' # ''completion'' # concat (map command_names subs)) \<and>
      list_all (well_formed (pf @ inherited)) subs)"

text \<open>The address in a URL, and the one a server listens at.\<close>

definition server_of :: "Flag list \<Rightarrow> worker_handler API" where
  "server_of fs = Worker_initRouter (NewAPI (string_of (default_values fs ''host'')) (int_of_flag (default_values fs ''port'')))"

text \<open>
  The command tree is well formed and its defaults meet: building it never defines a flag
  twice, so the program does not panic before it has read its arguments, every name means one
  command, and the legend of states in its help is that of the state machine; without flags, the client commands talk to the address where a manager started
  without flags listens, \<open>stats\<close> to the one where a worker started without flags listens, and
  the manager can be pointed at that worker under its default name.
\<close>

theorem command_tree:
  assumes "cobra_contract cobra pflag"
  shows "well_formed [] rootCmd \<and>
    stateLegend = ''task states:'' @ concat (map (\<lambda>x. '' '' @ itoa x @ ''='' @ State_String x) [0, 1, 2, 3, 4]) \<and>
    (\<exists>t. Execute C cobra [''status''] w = Some (printTaskStatus C t w) \<and>
       Server (server_of manager_flags) = Some (host t @ '':'' @ itoa (port t)) \<and>
       tasksURL t = ''http://'' @ the (Server (server_of manager_flags)) @ ''/tasks'') \<and>
    (\<exists>h p. Execute C cobra [''stats''] w = Some (statsCmd_RunE C h p w) \<and>
       Server (server_of worker_flags) = Some (h @ '':'' @ itoa p) \<and>
       WorkerTasksURL (''http://'' @ the (Server (server_of worker_flags))) = ''http://'' @ h @ '':'' @ itoa p @ ''/tasks'') \<and>
    parseWorkers [string_of (default_values worker_flags ''name'') @ ''=http://'' @ the (Server (server_of worker_flags))] =
      Inr [\<lparr>wmName = ''worker-1'', wmAddress = ''http://'' @ the (Server (server_of worker_flags))\<rparr>]"
proof (intro conjI)
  show "well_formed [] rootCmd"
    by (simp add: command_defs flag_defs command_names_def Let_def)
  show "stateLegend = ''task states:'' @ concat (map (\<lambda>x. '' '' @ itoa x @ ''='' @ State_String x) [0, 1, 2, 3, 4])"
    by (simp add: stateLegend_def State_String_def state_defs, code_simp)
  have "cobra rootCmd ([''status''] @ []) =
      Inr (Inr (RunStatus, default_values (Flags (newStatusCommand ''status'') @ PersistentFlags rootCmd), []))"
    by (rule cobra_contract.runs_with_defaults [OF assms client_paths(5)]) (simp_all add: newStatusCommand_def args_allowed_def)
  then have "Execute C cobra [''status''] w = Some (printTaskStatus C \<lparr>host = ''localhost'', port = 5555\<rparr> w)"
    by (simp add: Execute_def client_RunE_def target_of_def default_values_def newStatusCommand_def addTargetFlags_def flag_defs)
  then show "\<exists>t. Execute C cobra [''status''] w = Some (printTaskStatus C t w) \<and>
       Server (server_of manager_flags) = Some (host t @ '':'' @ itoa (port t)) \<and>
       tasksURL t = ''http://'' @ the (Server (server_of manager_flags)) @ ''/tasks''"
    by (intro exI [of _ "\<lparr>host = ''localhost'', port = 5555\<rparr>"])
      (simp add: server_of_def Worker_initRouter_def NewAPI_def default_values_def manager_flags_def flag_defs tasksURL_def)
  have "cobra rootCmd ([''stats''] @ []) =
      Inr (Inr (RunStats, default_values (Flags statsCmd @ PersistentFlags rootCmd), []))"
    by (rule cobra_contract.runs_with_defaults [OF assms client_paths(7)]) (simp_all add: statsCmd_def args_allowed_def)
  then have "Execute C cobra [''stats''] w = Some (statsCmd_RunE C ''localhost'' 5556 w)"
    by (simp add: Execute_def client_RunE_def default_values_def statsCmd_def stats_flags_def flag_defs)
  then show "\<exists>h p. Execute C cobra [''stats''] w = Some (statsCmd_RunE C h p w) \<and>
       Server (server_of worker_flags) = Some (h @ '':'' @ itoa p) \<and>
       WorkerTasksURL (''http://'' @ the (Server (server_of worker_flags))) = ''http://'' @ h @ '':'' @ itoa p @ ''/tasks''"
    by (intro exI [of _ "''localhost''"] exI [of _ "5556 :: int"])
      (simp add: server_of_def Worker_initRouter_def NewAPI_def default_values_def worker_flags_def flag_defs WorkerTasksURL_def)
  show "parseWorkers [string_of (default_values worker_flags ''name'') @ ''=http://'' @ the (Server (server_of worker_flags))] =
      Inr [\<lparr>wmName = ''worker-1'', wmAddress = ''http://'' @ the (Server (server_of worker_flags))\<rparr>]"
    by (simp add: parseWorkers_def default_values_def worker_flags_def flag_defs)
qed

theorem command_tree_witness:
  "\<forall>C w. well_formed [] rootCmd \<and> (\<exists>t. Execute C plain_cobra [''status''] w = Some (printTaskStatus C t w))"
proof (intro allI)
  fix C :: "('g, 'w) cenv" and w
  note tree = command_tree [OF plain_cobra_contract, of C w]
  have "\<exists>t. Execute C plain_cobra [''status''] w = Some (printTaskStatus C t w)"
    using tree [THEN conjunct2, THEN conjunct2, THEN conjunct1] by blast
  with tree [THEN conjunct1] show "well_formed [] rootCmd \<and> (\<exists>t. Execute C plain_cobra [''status''] w = Some (printTaskStatus C t w))"
    by (rule conjI)
qed

end
