(* ===== verification/Orch_Manager_Passes.thy ===== *)
theory Orch_Manager_Passes
  imports Orch_Manager_Interleaving
begin

text \<open>
  The update goroutines and the health check loop beside each other. Reports of workers are applied
  between any two critical sections of the health check loop, whose snapshot may then be out of
  date: \<open>beginRestart\<close> looks at no state and restarts a task that was \<open>Running\<close> or \<open>Failed\<close> when the
  snapshot was taken.
\<close>

section \<open>Steps\<close>

text \<open>
  The report of a worker, a submission, or a step of the health check loop. The scheduling loop
  waits.
\<close>

inductive passes_step ::
  "('q, 's, 'e, 'w) menv \<Rightarrow> ('q, 's, 'e) Manager \<times> health_pc \<Rightarrow> ('q, 's, 'e) Manager \<times> health_pc \<Rightarrow> bool"
  for M :: "('q, 's, 'e, 'w) menv" where
  p_report: "passes_step M (m, h) (snd (applyWorkerReport M r m), h)"
| p_add: "passes_step M (m, h) (Manager_AddTask M te m, h)"
| p_health: "thread_step M (m, SIdle, h) (m', SIdle, h') \<Longrightarrow> passes_step M (m, h) (m', h')"

inductive passes_run ::
  "('q, 's, 'e, 'w) menv \<Rightarrow> ('q, 's, 'e) Manager \<times> health_pc \<Rightarrow> ('q, 's, 'e) Manager \<times> health_pc \<Rightarrow> bool"
  for M :: "('q, 's, 'e, 'w) menv" where
  p_refl: "passes_run M c c"
| p_snoc: "passes_run M c c1 \<Longrightarrow> passes_step M c1 c2 \<Longrightarrow> passes_run M c c2"

lemma passes_run_conc: "passes_run M c c' \<Longrightarrow> conc_run M (fst c, SIdle, snd c) (fst c', SIdle, snd c')"
proof (induction rule: passes_run.induct)
  case (p_snoc c c1 c2)
  from p_snoc.hyps(2) have "conc_step M (fst c1, SIdle, snd c1) (fst c2, SIdle, snd c2)"
    by (cases rule: passes_step.cases) (auto intro: conc_step.intros)
  with p_snoc.IH show ?case by (rule conc_snoc)
qed (rule conc_refl)

text \<open>The tasks that the loop may still restart from the snapshot it holds.\<close>

definition eligible :: "Task list \<Rightarrow> UUID set" where
  "eligible ts = {tID t | t. t \<in> set ts \<and> tState t \<in> {Running, Failed}}"

fun may_restart :: "health_pc \<Rightarrow> UUID set" where
  "may_restart (HPass ts) = eligible ts"
| "may_restart (HRestart t ts) = insert (tID t) (eligible ts)"
| "may_restart (HRouted t wn ts) = insert (tID t) (eligible ts)"
| "may_restart (HSend t wn ts) = eligible ts"

lemma eligible_Cons: "eligible (t # ts) = (if tState t \<in> {Running, Failed} then insert (tID t) (eligible ts) else eligible ts)"
  by (auto simp: eligible_def)

lemma decide_eligible: "decideHealthAction t \<in> {healthActionCheck, healthActionRestart} \<Longrightarrow> tState t \<in> {Running, Failed}"
  by (auto simp: decideHealthAction_def split: if_splits)

section \<open>What happens to a record\<close>

inductive loose_move :: "Task \<Rightarrow> Task \<Rightarrow> bool" where
  loose_refl: "loose_move p p"
| loose_report: "loose_move p q \<Longrightarrow> loose_move p (mergeTaskUpdate q r)"
| loose_restart: "loose_move p q \<Longrightarrow> loose_move p (restarted q)"

lemma loose_move_owned: "loose_move p p' \<Longrightarrow>
    tID p' = tID p \<and> tName p' = tName p \<and> tImage p' = tImage p \<and> tMemory p' = tMemory p \<and>
    tDisk p' = tDisk p \<and> tRestartPolicy p' = tRestartPolicy p \<and> tHealthCheck p' = tHealthCheck p"
  by (induction rule: loose_move.induct) (simp_all add: restarted_def)

lemma loose_move_walk: "loose_move p p' \<Longrightarrow> walk (tState p) (tState p') \<or> walk Scheduled (tState p')"
proof (induction rule: loose_move.induct)
  case (loose_report p q r)
  then show ?case using merge_walk walk_trans by blast
qed (simp_all add: restarted_def walk_refl)

context manager_env
begin

text \<open>One step: reports are merged, and only a task that may be restarted is.\<close>

definition step_effect :: "('q, 's, 'e) Manager \<times> health_pc \<Rightarrow> ('q, 's, 'e) Manager \<times> health_pc \<Rightarrow> bool" where
  "step_effect c c' \<longleftrightarrow> (case c of (m, h) \<Rightarrow> case c' of (m', h') \<Rightarrow>
     keyed_tasks held ok M m' \<and>
     (known held M m' = known held M m \<or>
      (\<exists>r p. known held M m (tID r) = Some p \<and> known held M m' = (known held M m)(tID r \<mapsto> mergeTaskUpdate p r)) \<or>
      (\<exists>i p. i \<in> may_restart h \<and> known held M m i = Some p \<and> known held M m' = (known held M m)(i \<mapsto> restarted p))) \<and>
     may_restart h' \<subseteq> may_restart h \<union> {i. \<exists>p. known held M m i = Some p \<and> tState p \<in> {Running, Failed}} \<and>
     (\<exists>es. contents (mPending m') = contents (mPending m) @ es) \<and>
     mTaskWorkerMap m' = mTaskWorkerMap m \<and> mWorkerTaskMap m' = mWorkerTaskMap m \<and>
     mWorkerNodes m' = mWorkerNodes m \<and> mScheduler m' = mScheduler m)"

lemma step_effect_pc: "keyed_tasks held ok M m \<Longrightarrow> may_restart h' \<subseteq> may_restart h \<Longrightarrow> step_effect (m, h) (m, h')"
  by (auto simp: step_effect_def)

lemma snapshot_record:
  assumes k: "keyed_tasks held ok M m" and "Manager_GetTasks M m = Inr ts" and "t \<in> set ts"
  shows "known held M m (tID t) = Some t"
proof -
  have l: "List (me_taskdb M) (mTaskDb m) = Inr ts"
    using assms(2) by (auto simp: Manager_GetTasks_def snapshotTasks_def split: sum.splits)
  obtain key where "held (mTaskDb m) key = Some t" using ts.List_held [OF keyed_ok [OF k] l assms(3)] by blast
  then show ?thesis using k by (auto simp: keyed_tasks_def known_def)
qed

lemma begin_effect:
  assumes k: "keyed_tasks held ok M m" and b: "beginRestart M (tID t) m = (r, m')" and h: "may_restart h' = eligible ts"
  shows "step_effect (m, HRouted t wn ts) (m', h')"
proof -
  note eff = beginRestart_effect [OF k b]
  have "known held M m' = known held M m \<or>
      (\<exists>p. known held M m (tID t) = Some p \<and> known held M m' = (known held M m)(tID t \<mapsto> restarted p))"
    using eff(3) by (cases r) auto
  moreover have "may_restart h' \<subseteq> may_restart (HRouted t wn ts)" using h by auto
  moreover have "tID t \<in> may_restart (HRouted t wn ts)" by simp
  ultimately show ?thesis using eff(1,2) unfolding step_effect_def by auto
qed

lemma passes_step_effect:
  assumes "passes_step M (m, h) (m', h')" and k: "keyed_tasks held ok M m"
  shows "step_effect (m, h) (m', h')"
  using assms(1)
proof (cases rule: passes_step.cases)
  case (p_report r)
  with applyWorkerReport_effect [OF k, of r] show ?thesis by (auto simp: step_effect_def)
next
  case (p_add te)
  have "known held M m' = known held M m" using p_add by (simp add: Manager_AddTask_def)
  then show ?thesis using p_add k by (simp add: step_effect_def Manager_AddTask_def)
next
  case p_health
  then show ?thesis
  proof (cases rule: thread_step.cases)
    case ts_none
    note f = nextPendingEvent_frame [OF ts_none(2)]
    have "contents (mPending m') = contents (mPending m)"
      using ts_none(2) tq.contents_Dequeue [of "mPending m"] tq.Dequeue_NoneD [of "mPending m"]
      by (auto simp: nextPendingEvent_def Let_def simp del: tq.contents_Dequeue split: prod.splits)
    then show ?thesis using f ts_none keyed_cong [OF f(2)] known_cong [OF f(2)] k by (simp add: step_effect_def)
  next
    case (th_start ts)
    then show ?thesis
      using k snapshot_record [OF k] by (fastforce simp: step_effect_def eligible_def)
  next
    case (th_begin wn a t t' ts)
    then show ?thesis using begin_effect [OF k] by simp
  next
    case (th_no_begin wn a t ts)
    then show ?thesis using begin_effect [OF k] by simp
  next
    case (th_requeue te t wn ts)
    have "known held M m' = known held M m" using th_requeue by simp
    then show ?thesis using th_requeue k by (simp add: step_effect_def)
  qed (use k decide_eligible in \<open>auto intro!: step_effect_pc simp: eligible_Cons\<close>)
qed

text \<open>A run: a record that is completed while no snapshot may restart it is final.\<close>

definition run_effect :: "('q, 's, 'e) Manager \<times> health_pc \<Rightarrow> ('q, 's, 'e) Manager \<times> health_pc \<Rightarrow> bool" where
  "run_effect c c' \<longleftrightarrow> (case c of (m, h) \<Rightarrow> case c' of (m', h') \<Rightarrow>
     keyed_tasks held ok M m' \<and>
     (\<forall>i. case known held M m i of None \<Rightarrow> known held M m' i = None
        | Some p \<Rightarrow> \<exists>p'. known held M m' i = Some p' \<and> loose_move p p' \<and>
            (tState p = Completed \<and> i \<notin> may_restart h \<longrightarrow>
               tState p' = Completed \<and> tRestartCount p' = tRestartCount p \<and> i \<notin> may_restart h')) \<and>
     (\<exists>es. contents (mPending m') = contents (mPending m) @ es) \<and>
     mTaskWorkerMap m' = mTaskWorkerMap m \<and> mWorkerTaskMap m' = mWorkerTaskMap m \<and>
     mWorkerNodes m' = mWorkerNodes m \<and> mScheduler m' = mScheduler m)"

lemma merge_Completed: "tState p = Completed \<Longrightarrow> tState (mergeTaskUpdate p r) = Completed"
  by (simp add: merge_state)

lemma step_record:
  assumes "step_effect (m, h) (m', h')"
  shows "case known held M m i of None \<Rightarrow> known held M m' i = None
    | Some p \<Rightarrow> \<exists>p'. known held M m' i = Some p' \<and>
        (p' = p \<or> (\<exists>r. tID r = i \<and> p' = mergeTaskUpdate p r) \<or> i \<in> may_restart h \<and> p' = restarted p) \<and>
        (tState p = Completed \<and> i \<notin> may_restart h \<longrightarrow> i \<notin> may_restart h')"
proof -
  have r: "i \<notin> may_restart h'" if "known held M m i = Some p" "tState p = Completed" "i \<notin> may_restart h" for p
    using assms that by (auto simp: step_effect_def state_defs)
  have kn: "known held M m' = known held M m \<or>
      (\<exists>r p. known held M m (tID r) = Some p \<and> known held M m' = (known held M m)(tID r \<mapsto> mergeTaskUpdate p r)) \<or>
      (\<exists>i p. i \<in> may_restart h \<and> known held M m i = Some p \<and> known held M m' = (known held M m)(i \<mapsto> restarted p))"
    using assms by (simp add: step_effect_def)
  show ?thesis
  proof (cases "known held M m i")
    case None
    then show ?thesis using kn by auto
  next
    case (Some p)
    have "\<exists>p'. known held M m' i = Some p' \<and>
        (p' = p \<or> (\<exists>r. tID r = i \<and> p' = mergeTaskUpdate p r) \<or> i \<in> may_restart h \<and> p' = restarted p)"
      using kn
    proof (elim disjE exE conjE)
      fix r q
      assume "known held M m (tID r) = Some q" "known held M m' = (known held M m)(tID r \<mapsto> mergeTaskUpdate q r)"
      with Some show ?thesis by (cases "tID r = i") auto
    next
      fix j q
      assume "j \<in> may_restart h" "known held M m j = Some q" "known held M m' = (known held M m)(j \<mapsto> restarted q)"
      with Some show ?thesis by (cases "j = i") auto
    qed (use Some in simp)
    with Some r [OF Some] show ?thesis by auto
  qed
qed

lemma run_effect_step:
  assumes "run_effect (m, h) (m1, h1)" and "step_effect (m1, h1) (m2, h2)"
  shows "run_effect (m, h) (m2, h2)"
proof -
  have r1: "case known held M m i of None \<Rightarrow> known held M m1 i = None
      | Some p \<Rightarrow> \<exists>p'. known held M m1 i = Some p' \<and> loose_move p p' \<and>
          (tState p = Completed \<and> i \<notin> may_restart h \<longrightarrow>
             tState p' = Completed \<and> tRestartCount p' = tRestartCount p \<and> i \<notin> may_restart h1)" for i
    using assms(1) unfolding run_effect_def by blast
  have "case known held M m i of None \<Rightarrow> known held M m2 i = None
      | Some p \<Rightarrow> \<exists>p'. known held M m2 i = Some p' \<and> loose_move p p' \<and>
          (tState p = Completed \<and> i \<notin> may_restart h \<longrightarrow>
             tState p' = Completed \<and> tRestartCount p' = tRestartCount p \<and> i \<notin> may_restart h2)" for i
  proof (cases "known held M m i")
    case None
    then have "known held M m1 i = None" using r1 [of i] by simp
    with None step_record [OF assms(2), of i] show ?thesis by simp
  next
    case (Some p)
    from r1 [of i] Some obtain p1 where p1: "known held M m1 i = Some p1" "loose_move p p1"
      "tState p = Completed \<and> i \<notin> may_restart h \<longrightarrow>
        tState p1 = Completed \<and> tRestartCount p1 = tRestartCount p \<and> i \<notin> may_restart h1" by auto
    from step_record [OF assms(2), of i] p1(1) obtain p2 where p2: "known held M m2 i = Some p2"
      "p2 = p1 \<or> (\<exists>r. tID r = i \<and> p2 = mergeTaskUpdate p1 r) \<or> i \<in> may_restart h1 \<and> p2 = restarted p1"
      "tState p1 = Completed \<and> i \<notin> may_restart h1 \<longrightarrow> i \<notin> may_restart h2" by auto
    have "loose_move p p2" using p2(2) p1(2) by (auto intro: loose_report loose_restart)
    then show ?thesis using Some p1(3) p2 by (auto simp: merge_Completed)
  qed
  with assms show ?thesis by (auto simp: run_effect_def step_effect_def)
qed

lemma passes_run_effect:
  assumes "passes_run M c c'" and "keyed_tasks held ok M (fst c)"
  shows "run_effect c c'"
  using assms
proof (induction rule: passes_run.induct)
  case (p_refl c)
  then show ?case by (cases c) (auto simp: run_effect_def intro: loose_refl split: option.splits)
next
  case (p_snoc c c1 c2)
  obtain m h m1 h1 m2 h2 where c: "c = (m, h)" "c1 = (m1, h1)" "c2 = (m2, h2)" by (metis surj_pair)
  have r: "run_effect (m, h) (m1, h1)" using p_snoc c by simp
  then have "keyed_tasks held ok M m1" by (simp add: run_effect_def)
  with passes_step_effect p_snoc.hyps(2) c have "step_effect (m1, h1) (m2, h2)" by blast
  with r show ?case unfolding c by (rule run_effect_step)
qed

end

section \<open>Properties\<close>

text \<open>
  C11. What the update goroutines and the health check loop do to the records, for every
  interleaving of the reports of workers with the critical sections of the loop, and whatever the
  workers answer. No record appears or goes away, and what the client asked for (name, image, memory,
  disk, restart policy, health check) stays. Each step leaves a record as it is, merges a report along
  an edge of the state machine, or restarts a task that the loop's snapshot named \<open>Running\<close> or \<open>Failed\<close>,
  whatever its record says by then; so a record leaves the state machine by such a restart only,
  and one that is \<open>Completed\<close> while no snapshot held by the loop may restart it stays \<open>Completed\<close>
  and is not restarted. Routing and placement state do not change, and pending events keep their places.
\<close>

theorem interleaved_passes_respect_records:
  assumes env: "manager_env M held ok contents" and k: "keyed_tasks held ok M m"
    and run: "passes_run M (m, h) (m', h')"
  shows "(\<forall>i. case known held M m i of
            None \<Rightarrow> known held M m' i = None
          | Some p \<Rightarrow> \<exists>p'. known held M m' i = Some p' \<and>
              tID p' = tID p \<and> tName p' = tName p \<and> tImage p' = tImage p \<and> tMemory p' = tMemory p \<and>
              tDisk p' = tDisk p \<and> tRestartPolicy p' = tRestartPolicy p \<and> tHealthCheck p' = tHealthCheck p \<and>
              (walk (tState p) (tState p') \<or> walk Scheduled (tState p')) \<and>
              (tState p = Completed \<and> i \<notin> may_restart h \<longrightarrow> tState p' = Completed \<and> tRestartCount p' = tRestartCount p)) \<and>
    (\<forall>m2 h2 i p. passes_step M (m', h') (m2, h2) \<longrightarrow> known held M m' i = Some p \<longrightarrow>
       (\<exists>p2. known held M m2 i = Some p2 \<and>
          (tState p2 = tState p \<or> valid_edge (tState p) (tState p2) \<or>
           i \<in> may_restart h' \<and> tState p2 = Scheduled \<and> tRestartCount p2 = wrap64 (tRestartCount p + 1)))) \<and>
    mTaskWorkerMap m' = mTaskWorkerMap m \<and> mWorkerTaskMap m' = mWorkerTaskMap m \<and>
    mWorkerNodes m' = mWorkerNodes m \<and> mScheduler m' = mScheduler m \<and>
    (\<exists>es. contents (mPending m') = contents (mPending m) @ es)"
proof (intro conjI allI impI)
  note R = manager_env.passes_run_effect [OF env run, unfolded fst_conv, OF k, unfolded manager_env.run_effect_def [OF env] prod.case]
  fix i
  from R have "case known held M m i of None \<Rightarrow> known held M m' i = None
        | Some p \<Rightarrow> \<exists>p'. known held M m' i = Some p' \<and> loose_move p p' \<and>
            (tState p = Completed \<and> i \<notin> may_restart h \<longrightarrow>
               tState p' = Completed \<and> tRestartCount p' = tRestartCount p \<and> i \<notin> may_restart h')" by blast
  then show "case known held M m i of
            None \<Rightarrow> known held M m' i = None
          | Some p \<Rightarrow> \<exists>p'. known held M m' i = Some p' \<and>
              tID p' = tID p \<and> tName p' = tName p \<and> tImage p' = tImage p \<and> tMemory p' = tMemory p \<and>
              tDisk p' = tDisk p \<and> tRestartPolicy p' = tRestartPolicy p \<and> tHealthCheck p' = tHealthCheck p \<and>
              (walk (tState p) (tState p') \<or> walk Scheduled (tState p')) \<and>
              (tState p = Completed \<and> i \<notin> may_restart h \<longrightarrow> tState p' = Completed \<and> tRestartCount p' = tRestartCount p)"
    using loose_move_owned loose_move_walk by (cases "known held M m i"; simp; blast)
  show "mTaskWorkerMap m' = mTaskWorkerMap m" "mWorkerTaskMap m' = mWorkerTaskMap m" "mWorkerNodes m' = mWorkerNodes m"
    "mScheduler m' = mScheduler m" "\<exists>es. contents (mPending m') = contents (mPending m) @ es" using R by blast+
  fix m2 h2 p
  assume step: "passes_step M (m', h') (m2, h2)" and p: "known held M m' i = Some p"
  have "keyed_tasks held ok M m'" using R by blast
  from manager_env.step_record [OF env manager_env.passes_step_effect [OF env step this], of i] p
  obtain p2 where p2: "known held M m2 i = Some p2"
    "p2 = p \<or> (\<exists>r. tID r = i \<and> p2 = mergeTaskUpdate p r) \<or> i \<in> may_restart h' \<and> p2 = restarted p" by auto
  then have "tState p2 = tState p \<or> valid_edge (tState p) (tState p2) \<or>
      i \<in> may_restart h' \<and> tState p2 = Scheduled \<and> tRestartCount p2 = wrap64 (tRestartCount p + 1)"
    by (elim disjE exE conjE) (simp_all add: merge_state restarted_def)
  with p2(1) show "\<exists>p2. known held M m2 i = Some p2 \<and>
          (tState p2 = tState p \<or> valid_edge (tState p) (tState p2) \<or>
           i \<in> may_restart h' \<and> tState p2 = Scheduled \<and> tRestartCount p2 = wrap64 (tRestartCount p + 1))" by blast
qed

text \<open>A snapshot is taken, then the task is reported \<open>Completed\<close>; the loop may still restart it.\<close>

theorem interleaved_passes_respect_records_witness:
  "let M = mem_menv (sample_codec zero_Task); t = sample_task Running 0; m = manager_with rr0 [node_a] [t] [] [(1, ''a'')];
       m' = snd (applyWorkerReport M (sample_task Completed 0) m)
   in passes_run M (m, HPass []) (m', HPass [t]) \<and> 1 \<in> may_restart (HPass [t]) \<and>
      (\<exists>p'. known InMemory_held M m' 1 = Some p' \<and> tState p' = Completed \<and> tImage p' = tImage t) \<and>
      passes_run M (m', HPass []) (m', HPass []) \<and>
      (\<forall>m2 h2. passes_step M (m', HPass []) (m2, h2) \<longrightarrow> (\<exists>p2. known InMemory_held M m2 1 = Some p2 \<and> tState p2 = Completed))"
proof -
  let ?M = "mem_menv (sample_codec zero_Task)" and ?t = "sample_task Running 0"
  let ?m = "manager_with rr0 [node_a] [?t] [] [(1, ''a'')]"
  let ?m' = "snd (applyWorkerReport ?M (sample_task Completed 0) ?m)"
  have "Manager_GetTasks ?M ?m = Inr [?t]" by (simp add: manager_defs)
  from p_snoc [OF p_snoc [OF p_refl p_health [OF th_start [OF this]]] p_report]
  have run: "passes_run ?M (?m, HPass []) (?m', HPass [?t])" .
  have k: "keyed_tasks InMemory_held InMemory_ok ?M ?m" by (rule manager_with_keyed) simp
  have p: "known InMemory_held ?M ?m 1 = Some ?t" by (simp add: manager_defs)
  have k': "keyed_tasks InMemory_held InMemory_ok ?M ?m'"
    by (rule manager_env.applyWorkerReport_effect(2) [OF mem_menv_env k])
  have c: "\<exists>p'. known InMemory_held ?M ?m' 1 = Some p' \<and> tState p' = Completed"
    by (simp add: manager_defs applyWorkerReport_def merge_state)
  with interleaved_passes_respect_records [OF mem_menv_env k run, THEN conjunct1, THEN spec, of 1] p
  have i: "\<exists>p'. known InMemory_held ?M ?m' 1 = Some p' \<and> tState p' = Completed \<and> tImage p' = tImage ?t" by auto
  have fin: "\<exists>p2. known InMemory_held ?M m2 1 = Some p2 \<and> tState p2 = Completed" if "passes_step ?M (?m', HPass []) (m2, h2)" for m2 h2
    using interleaved_passes_respect_records [OF mem_menv_env k' p_snoc [OF p_refl that], THEN conjunct1, THEN spec, of 1] c
    by (auto simp: eligible_def)
  have "1 \<in> may_restart (HPass [?t])" by (simp add: eligible_def)
  with run i fin p_refl show ?thesis unfolding Let_def by blast
qed

end
