(* ===== verification/Spec2Isabelle.thy ===== *)
theory Spec2Isabelle
  imports Orch_Client Orch_Safety Orch_Refinement Orch_Restart Orch_Command Orch_Manager_Passes
begin

text \<open>
  A verification library of the task orchestrator: a manager that accepts tasks over HTTP and
  schedules them onto workers, workers that run them as Docker containers, and a command line that
  starts either and drives tasks against a manager.

  \<^bold>\<open>The program and the theories.\<close> Packages are under \<open>src/internal\<close>.

  \<^item> \<open>Orch_Prelude\<close>: 64-bit signed arithmetic with wrap-around, run-time panics as values, the
    helpers of package \<open>slices\<close>, decimal and quoted text, and the collections of lemmas.
  \<^item> \<open>Orch_Errors\<close>: \<open>errors.go\<close> of the six packages, \<open>fmt.Errorf\<close>, \<open>errors.Join\<close> and
    \<open>errors.Is\<close>, as one datatype of error values.
  \<^item> \<open>Orch_Task\<close> and \<open>Orch_Docker\<close>: \<open>task/task.go\<close> (states, state machine, tasks, events) and
    \<open>task/docker.go\<close> (\<open>Run\<close>, \<open>Stop\<close>, \<open>Inspect\<close>) over a Docker client.
  \<^item> \<open>Orch_Queue\<close>: \<open>queue/queue.go\<close>; its contract is the locale \<open>queue\<close>.
  \<^item> \<open>Orch_Store\<close> and \<open>Orch_Persistent\<close>: \<open>store/\<close>, the interface \<open>Store\<close> with its contract (the
    locales \<open>store_contract\<close>, in which any call may fail, and \<open>total_store\<close>, in which none does; a
    \<open>Get\<close> that finds nothing says \<open>ErrNotFound\<close>), the in-memory backend, the backend over bbolt
    (the locale \<open>bolt_contract\<close> is what bbolt documents), and \<open>GetDBs\<close>.
  \<^item> \<open>Orch_Httpapi\<close>: \<open>httpapi/httpapi.go\<close>, replies and the retry loop.
  \<^item> \<open>Orch_Stats\<close> and \<open>Orch_Float\<close>: \<open>worker/stats.go\<close> and \<open>node/node.go\<close>; floating point is a
    parameter, with the facts on rounding that are used.
  \<^item> \<open>Orch_Scheduler\<close> and \<open>Orch_Scheduling\<close>: \<open>scheduler/\<close>, both schedulers, the scoring fan-out
    over goroutines in any order of completion, and their properties.
  \<^item> \<open>Orch_Worker\<close>, \<open>Orch_Worker_Correct\<close>, \<open>Orch_Worker_Loops\<close>, \<open>Orch_Shutdown\<close>: \<open>worker/worker.go\<close>, \<open>state.go\<close>,
    \<open>api.go\<close>. The state is the record \<open>Worker\<close>; each helper of \<open>state.go\<close> holds the mutex for its
    whole body and is one function on it. The locale \<open>worker_env\<close> is what the lemmas rely on; the
    relation \<open>worker_step\<close> interleaves the run loop, the update loop, statistics and the API. \<open>Shutdown_beside\<close> is
    \<open>Shutdown\<close> with steps of the run loop at any point of it.
  \<^item> \<open>Orch_Manager\<close> and \<open>Orch_Manager_Correct\<close>, \<open>_Runs\<close>, \<open>_Props\<close>, \<open>_Send\<close>,
    \<open>_Interleaving\<close>, \<open>_Loops\<close>, \<open>_Passes\<close>: \<open>manager/manager.go\<close>, \<open>state.go\<close>, \<open>pure.go\<close>, \<open>api.go\<close>. The
    state is the record \<open>Manager\<close>; the locale \<open>manager_env\<close> is what the lemmas rely on;
    \<open>manager_step\<close> runs whole operations one after the other, \<open>conc_step\<close> interleaves the critical
    sections of the scheduling loop, the health check loop, the update fan-out and the API, and
    \<open>passes_step\<close> those of the two background passes alone.
  \<^item> \<open>Orch_Cli\<close>: \<open>cli/\<close> and \<open>cmd/orchestrator/main.go\<close>, worker specifications, the log level, the
    client commands, and the bodies of the commands that run a server; the worker command serves,
    and shuts down, while its run loop takes one critical section at a time. \<open>Orch_Command\<close>: the command
    tree as data, with names, aliases, flags, defaults and help texts, and \<open>Execute\<close>; the locale
    \<open>cobra_contract\<close> is what cobra documents of choosing a command and parsing its flags; it leaves open
    what cobra prints for a command line that it refuses and for \<open>--help\<close>.
  \<^item> \<open>Orch_Wire\<close>, \<open>Orch_Cluster\<close>, \<open>Orch_Client\<close>: the routers of both servers, and the composition
    of a manager with its workers and of the command line with a manager. The locales \<open>cluster\<close>
    and \<open>client_manager\<close> state what is relied on between the programs; a concrete wire format and
    router interpret them.
  \<^item> \<open>Orch_System\<close>: runs of the whole system, in which a manager, its workers and clients of both
    take steps in any order (\<open>system_step\<close>). The locale \<open>task_flow\<close> follows what is known of a task
    through the manager's queue and records and the workers' queues and records; its instances
    are properties of every task anywhere. \<open>Orch_Safety\<close>: in every state of these runs the manager's
    next round returns, and under every interleaving the next step of each of its goroutines (the
    locale \<open>stats_system\<close> is what this relies on beyond \<open>system\<close>); and the scheduling loop gets to
    every pending event.
  \<^item> \<open>Orch_Threads\<close> and \<open>Orch_Refinement\<close>: the whole system one critical section or request at a
    time (\<open>threads_step\<close>), with what the goroutines of the manager (\<open>thread_step\<close>) and of each worker
    (\<open>loop_step\<close>) hold in between. The laws of \<open>task_flow\<close> carry over to every interleaving, and
    every run of \<open>Orch_System\<close> is replayed as such an interleaving (\<open>replays\<close>).
  \<^item> \<open>Orch_Restart\<close>: the stores that \<open>NewWorker\<close> and \<open>NewManager\<close> open, on files that outlive a
    process (the locale \<open>bolt_files\<close>), and the locks they hold.

  \<^bold>\<open>How code becomes definitions.\<close> A struct is a record, an enumeration of the source a datatype or,
  for task states, which arrive from the network, an integer. An operation is a function that
  takes and returns the state and, where it does I/O, the outside world. An error is a value of
  a sum or option type; a panic that nothing recovers is \<open>Inl\<close> of a sum with \<open>panic\<close>. Code that is
  not in the repository (Docker, bbolt, the queue package, uuid, chi, cobra, YAML, the network) and
  the encoding of JSON are arguments, and what is relied on of them is a named hypothesis, which a
  concrete instance satisfies. Go maps that are iterated are lists with an order of iteration that
  is an argument; maps that are only looked up are functions.

  \<^bold>\<open>What the lemmas show.\<close> The manager's routing maps and its task store stay consistent in every
  state a run reaches, also between any two critical sections of its goroutines; records move
  along the state machine, except when the health check restarts a task from a snapshot that is
  out of date, and restarts keep within their budget; what a scheduling round
  does for every outcome of a send; that no pending event starves; that a stop is final for
  later passes. On the worker, every operation follows the state machine for every behaviour of
  Docker, a completed record is final under every interleaving, and shutting down completes what
  has a container, but for the one task that the run loop has in hand (these three with the in-memory
  backend). The schedulers' choices are characterised, the fan-out equals a sequential
  reference, round robin is fair for every 64-bit cursor. Both stores keep the store contract.
  Put together, a submitted task reaches the queue, is handed to a worker, runs, and is seen
  running by the manager; and a stop takes the same way. In the whole system no task is invented or
  mixed up with another, also under every interleaving of the goroutines, of which the runs by whole
  handlers and rounds are a part; states and counts keep their types, a running task names a container that was launched
  for its job, workers are only asked to start or to stop, the manager never goes down as long as no port comes without a binding, and every
  event is taken in its turn. A worker's records survive a restart on the same files, a manager's do not, and the
  new manager adopts nothing. The command tree is well formed, its shortcuts are the task
  commands, and its defaults meet. Several theorems state behaviour that
  contradicts the comments or the purpose of the code: a restart that is lost, a stop that is
  undone by a restart or sent as a new task, disk requests that are never placed, names of workers
  that collide, a task that outlives its worker, file locks that are never freed, a read error
  that completes a running task, and inputs that panic the manager.

  \<^bold>\<open>Loops and bounds.\<close> Every function is total. A loop over a slice is structural recursion; the
  retry loop recurs on the number of attempts left; the background loops, which end only with
  the process, recur on a list that says how each \<open>select\<close> comes out, or on the number of passes,
  and their theorems hold for every such list or number. No fuel is needed.

  \<^bold>\<open>Not modelled.\<close> Log lines and the text of captured stacks; copying of container output; the
  HTTP transport and its timeouts, beyond the outcome of a request; the parsing of flags by
  cobra and its messages; a reply of Docker's inspect without \<open>State\<close> or \<open>NetworkSettings\<close>, which the
  worker dereferences and a daemon always sends; in the text of one error, the number that \<open>nodeScore\<close> prints; signals, which only decide when a server stops; the intervals of the background loops. The
  properties of \<open>Orch_System\<close> and \<open>Orch_Safety\<close> are of runs by whole handlers and rounds, unless they
  are restated over \<open>threads_step\<close>, \<open>conc_step\<close> or \<open>worker_step\<close>, which interleave; in \<open>threads_step\<close>
  the answer that a goroutine sees is any that the network can give, and not tied to what the
  worker made of the request. A data race inside a critical
  section cannot be expressed, since a helper that holds the mutex is one step.
\<close>

end
